(* ===== verification/Prelude.thy ===== *)
theory Prelude
  imports Main "HOL-Library.Word"
begin

text \<open>
  Shared vocabulary of the development.

  \<^item> \<open>outcome\<close>: the three ways a Rust call ends: \<open>Ok\<close>, \<open>Err\<close> and a panic
    (\<open>unwrap\<close>, \<open>expect\<close>, \<open>unimplemented!\<close>, a failed overflow check).
  \<^item> \<open>io\<close>: a call with effects on a world \<open>'w\<close> (a database, a server, the network),
    as a function that returns its outcome and the next world. \<open>and_then\<close> is the
    \<open>?\<close> operator, \<open>handle\<close> a \<open>match\<close> on the result of a call, \<open>map_io\<close> a loop
    that calls an effectful function for each element and collects the results.
  \<^item> \<open>wp\<close>: the weakest precondition of a call; its equations (collection \<open>wp_simps\<close>)
    turn a statement about a whole handler into statements about the calls it makes.
  \<^item> \<open>moves\<close>: every run of a call relates the world before and after by a relation;
    reflexive and transitive relations compose along the handler.
\<close>

section \<open>Outcomes of Rust calls\<close>

type_synonym u8 = "8 word"
type_synonym u16 = "16 word"
type_synonym u32 = "32 word"
type_synonym u64 = "64 word"
type_synonym bytes = "8 word list"

datatype ('a, 'e) outcome = Ok 'a | Err 'e | Panic

type_synonym ('w, 'a, 'e) io = "'w \<Rightarrow> ('a, 'e) outcome \<times> 'w"

named_theorems wp_simps \<open>weakest preconditions of the control structures\<close>
named_theorems moves_intros \<open>composition rules for relations between worlds\<close>

fun is_ok :: "('a, 'e) outcome \<Rightarrow> bool" where
  "is_ok (Ok _) = True"
| "is_ok _ = False"

fun outcome_map_err :: "('e \<Rightarrow> 'f) \<Rightarrow> ('a, 'e) outcome \<Rightarrow> ('a, 'f) outcome" where
  "outcome_map_err g (Ok a) = Ok a"
| "outcome_map_err g (Err e) = Err (g e)"
| "outcome_map_err g Panic = Panic"

fun outcome_bind :: "('a, 'e) outcome \<Rightarrow> ('a \<Rightarrow> ('b, 'e) outcome) \<Rightarrow> ('b, 'e) outcome" where
  "outcome_bind (Ok a) f = f a"
| "outcome_bind (Err e) f = Err e"
| "outcome_bind Panic f = Panic"

fun ok_or :: "'a option \<Rightarrow> 'e \<Rightarrow> ('a, 'e) outcome" where
  "ok_or (Some a) e = Ok a"
| "ok_or None e = Err e"

fun expect :: "'a option \<Rightarrow> ('a, 'e) outcome" where
  "expect (Some a) = Ok a"
| "expect None = Panic"

text \<open>\<open>iter().map(f).collect::<Result<Vec<_>, _>>()\<close>: stops at the first error.\<close>

fun outcome_collect :: "('a \<Rightarrow> ('b, 'e) outcome) \<Rightarrow> 'a list \<Rightarrow> ('b list, 'e) outcome" where
  "outcome_collect f [] = Ok []"
| "outcome_collect f (x # xs) =
     outcome_bind (f x) (\<lambda>y. outcome_bind (outcome_collect f xs) (\<lambda>ys. Ok (y # ys)))"

lemma outcome_bind_Ok_iff [simp]:
  "outcome_bind r f = Ok b \<longleftrightarrow> (\<exists>a. r = Ok a \<and> f a = Ok b)"
  by (cases r) auto

lemma outcome_map_err_Ok_iff [simp]: "outcome_map_err g r = Ok a \<longleftrightarrow> r = Ok a"
  by (cases r) auto

lemma outcome_map_err_iffs [simp]:
  "outcome_map_err g r = Panic \<longleftrightarrow> r = Panic"
  "outcome_map_err g r = Err x \<longleftrightarrow> (\<exists>e. r = Err e \<and> x = g e)"
  by (cases r; auto)+

lemma ok_or_Ok_iff [simp]: "ok_or x e = Ok a \<longleftrightarrow> x = Some a"
  by (cases x) auto

lemma expect_Ok_iff [simp]: "expect x = Ok a \<longleftrightarrow> x = Some a" "Ok a = expect x \<longleftrightarrow> x = Some a"
  by (cases x; auto)+

lemma expect_not_Err [simp]: "expect x \<noteq> Err e"
  by (cases x) auto

lemma outcome_collect_Ok_iff:
  "outcome_collect f xs = Ok ys \<longleftrightarrow> list_all2 (\<lambda>x y. f x = Ok y) xs ys"
  by (induction xs arbitrary: ys) (auto simp: list_all2_Cons1)

lemma outcome_collect_all:
  assumes "\<And>x. x \<in> set xs \<Longrightarrow> f x = Ok (g x)"
  shows "outcome_collect f xs = Ok (map g xs)"
  using assms by (induction xs) auto

section \<open>Effectful calls\<close>

definition ret :: "'a \<Rightarrow> ('w, 'a, 'e) io" where
  "ret a = (\<lambda>w. (Ok a, w))"

definition throw :: "'e \<Rightarrow> ('w, 'a, 'e) io" where
  "throw e = (\<lambda>w. (Err e, w))"

definition panic :: "('w, 'a, 'e) io" where
  "panic = (\<lambda>w. (Panic, w))"

definition of_outcome :: "('a, 'e) outcome \<Rightarrow> ('w, 'a, 'e) io" where
  "of_outcome r = (\<lambda>w. (r, w))"

definition and_then :: "('w, 'a, 'e) io \<Rightarrow> ('a \<Rightarrow> ('w, 'b, 'e) io) \<Rightarrow> ('w, 'b, 'e) io" where
  "and_then m f = (\<lambda>w. case m w of
       (Ok a, w') \<Rightarrow> f a w'
     | (Err e, w') \<Rightarrow> (Err e, w')
     | (Panic, w') \<Rightarrow> (Panic, w'))"

definition handle ::
  "('w, 'a, 'e) io \<Rightarrow> ('a \<Rightarrow> ('w, 'b, 'f) io) \<Rightarrow> ('e \<Rightarrow> ('w, 'b, 'f) io) \<Rightarrow> ('w, 'b, 'f) io" where
  "handle m f g = (\<lambda>w. case m w of
       (Ok a, w') \<Rightarrow> f a w'
     | (Err e, w') \<Rightarrow> g e w'
     | (Panic, w') \<Rightarrow> (Panic, w'))"

definition map_err :: "('e \<Rightarrow> 'f) \<Rightarrow> ('w, 'a, 'e) io \<Rightarrow> ('w, 'a, 'f) io" where
  "map_err g m = handle m ret (\<lambda>e. throw (g e))"

fun map_io :: "('a \<Rightarrow> ('w, 'b, 'e) io) \<Rightarrow> 'a list \<Rightarrow> ('w, 'b list, 'e) io" where
  "map_io f [] = ret []"
| "map_io f (x # xs) = and_then (f x) (\<lambda>y. and_then (map_io f xs) (\<lambda>ys. ret (y # ys)))"

text \<open>A call on a part of the world, with the way to read and to replace that part.\<close>

definition on_part ::
  "('w \<Rightarrow> 's) \<Rightarrow> ('s \<Rightarrow> 'w \<Rightarrow> 'w) \<Rightarrow> ('s, 'a, 'e) io \<Rightarrow> ('w, 'a, 'e) io" where
  "on_part get put m = (\<lambda>w. case m (get w) of (r, s) \<Rightarrow> (r, put s w))"

lemma of_outcome_ret: "of_outcome (Ok a) = ret a" "of_outcome (Err x) = throw x" "of_outcome Panic = panic"
  by (simp_all add: of_outcome_def ret_def throw_def panic_def)

section \<open>Runs of the control structures\<close>

lemma and_then_Ok:
  "and_then m f w = (Ok b, w') \<longleftrightarrow> (\<exists>a w1. m w = (Ok a, w1) \<and> f a w1 = (Ok b, w'))"
  by (auto simp: and_then_def split: prod.splits outcome.splits)

lemma of_outcome_Ok: "of_outcome r w = (Ok a, w') \<longleftrightarrow> r = Ok a \<and> w' = w"
  by (auto simp: of_outcome_def)

lemma map_err_Ok: "map_err f m w = (Ok a, w') \<longleftrightarrow> m w = (Ok a, w')"
  by (auto simp: map_err_def handle_def ret_def throw_def split: prod.splits outcome.splits)

lemma handle_Ok:
  "handle m f g w = (Ok b, w') \<longleftrightarrow>
     (\<exists>a w1. m w = (Ok a, w1) \<and> f a w1 = (Ok b, w')) \<or> (\<exists>e w1. m w = (Err e, w1) \<and> g e w1 = (Ok b, w'))"
  by (auto simp: handle_def split: prod.splits outcome.splits)

lemma throw_run: "throw e w = (r, w') \<longleftrightarrow> r = Err e \<and> w' = w"
  by (auto simp: throw_def)

lemma ret_run: "ret a w = (r, w') \<longleftrightarrow> r = Ok a \<and> w' = w"
  by (auto simp: ret_def)

text \<open>How a run that succeeded went.\<close>

lemmas Ok_runs = and_then_Ok of_outcome_Ok map_err_Ok handle_Ok ret_run throw_run

text \<open>The control structures, for evaluating a run whose calls are known.\<close>

lemmas io_defs = and_then_def map_err_def handle_def of_outcome_def ret_def throw_def

section \<open>Weakest preconditions\<close>

definition wp :: "('w, 'a, 'e) io \<Rightarrow> (('a, 'e) outcome \<Rightarrow> 'w \<Rightarrow> bool) \<Rightarrow> 'w \<Rightarrow> bool" where
  "wp m Q w \<longleftrightarrow> Q (fst (m w)) (snd (m w))"

lemma wp_ret [wp_simps]: "wp (ret a) Q w \<longleftrightarrow> Q (Ok a) w"
  by (simp add: wp_def ret_def)

lemma wp_throw [wp_simps]: "wp (throw e) Q w \<longleftrightarrow> Q (Err e) w"
  by (simp add: wp_def throw_def)

lemma wp_panic [wp_simps]: "wp panic Q w \<longleftrightarrow> Q Panic w"
  by (simp add: wp_def panic_def)

lemma wp_of_outcome [wp_simps]: "wp (of_outcome r) Q w \<longleftrightarrow> Q r w"
  by (simp add: wp_def of_outcome_def)

lemma wp_and_then [wp_simps]:
  "wp (and_then m f) Q w \<longleftrightarrow>
     wp m (\<lambda>r w'. case r of Ok a \<Rightarrow> wp (f a) Q w' | Err e \<Rightarrow> Q (Err e) w' | Panic \<Rightarrow> Q Panic w') w"
  by (simp add: wp_def and_then_def split: prod.split outcome.split)

lemma wp_handle [wp_simps]:
  "wp (handle m f g) Q w \<longleftrightarrow>
     wp m (\<lambda>r w'. case r of Ok a \<Rightarrow> wp (f a) Q w' | Err e \<Rightarrow> wp (g e) Q w' | Panic \<Rightarrow> Q Panic w') w"
  by (simp add: wp_def handle_def split: prod.split outcome.split)

lemma wp_map_err [wp_simps]: "wp (map_err g m) Q w \<longleftrightarrow> wp m (\<lambda>r. Q (outcome_map_err g r)) w"
  by (simp add: wp_def map_err_def handle_def ret_def throw_def split: prod.split outcome.split)

lemma wp_on_part [wp_simps]:
  "wp (on_part get put m) Q w \<longleftrightarrow> wp m (\<lambda>r s. Q r (put s w)) (get w)"
  by (simp add: wp_def on_part_def split: prod.split)

lemma wp_mono: "wp m P w \<Longrightarrow> (\<And>r w'. P r w' \<Longrightarrow> Q r w') \<Longrightarrow> wp m Q w"
  by (simp add: wp_def)

lemma wp_conj: "wp m P w \<Longrightarrow> wp m Q w \<Longrightarrow> wp m (\<lambda>r w'. P r w' \<and> Q r w') w"
  by (simp add: wp_def)

lemma wp_run: "wp m Q w \<Longrightarrow> m w = (r, w') \<Longrightarrow> Q r w'"
  by (simp add: wp_def)

lemma wpI: "(\<And>r w'. m w = (r, w') \<Longrightarrow> Q r w') \<Longrightarrow> wp m Q w"
  by (simp add: wp_def)

text \<open>A loop keeps what each of its calls keeps, and on success every element's call succeeded.\<close>

lemma wp_map_io:
  assumes step: "\<And>x w. x \<in> set xs \<Longrightarrow> I w \<Longrightarrow> wp (f x) (\<lambda>r w'. I w' \<and> (\<forall>y. r = Ok y \<longrightarrow> P x y)) w"
    and init: "I w"
  shows "wp (map_io f xs) (\<lambda>r w'. I w' \<and> (\<forall>ys. r = Ok ys \<longrightarrow> list_all2 P xs ys)) w"
  using step init
proof (induction xs arbitrary: w)
  case Nil
  then show ?case by (simp add: wp_simps)
next
  case (Cons x xs)
  have tail: "wp (map_io f xs) (\<lambda>r w'. I w' \<and> (\<forall>ys. r = Ok ys \<longrightarrow> list_all2 P xs ys)) w'" if "I w'" for w'
    using Cons.IH Cons.prems(1) that by simp
  have head: "wp (f x) (\<lambda>r w'. I w' \<and> (\<forall>y. r = Ok y \<longrightarrow> P x y)) w"
    using Cons.prems by simp
  show ?case
    unfolding map_io.simps wp_simps
    by (rule wp_mono [OF head]) (auto split: outcome.splits simp: wp_simps intro!: wp_mono [OF tail])
qed

section \<open>A world in two parts\<close>

definition lift_fst :: "('s, 'a, 'e) io \<Rightarrow> ('s \<times> 'o, 'a, 'e) io" where
  "lift_fst = on_part fst (\<lambda>s w. (s, snd w))"

definition lift_snd :: "('o, 'a, 'e) io \<Rightarrow> ('s \<times> 'o, 'a, 'e) io" where
  "lift_snd = on_part snd (\<lambda>s w. (fst w, s))"

lemma wp_lift: "wp (lift_fst m) Q w \<longleftrightarrow> wp m (\<lambda>r s. Q r (s, snd w)) (fst w)"
  by (simp add: lift_fst_def wp_on_part)

section \<open>Relations between worlds\<close>

definition moves :: "('w \<Rightarrow> 'w \<Rightarrow> bool) \<Rightarrow> ('w, 'a, 'e) io \<Rightarrow> bool" where
  "moves R m \<longleftrightarrow> (\<forall>w. R w (snd (m w)))"

lemma movesD: "moves R m \<Longrightarrow> m w = (r, w') \<Longrightarrow> R w w'"
  by (metis moves_def snd_conv)

lemma moves_wp: "moves R m \<longleftrightarrow> (\<forall>w. wp m (\<lambda>_. R w) w)"
  by (simp add: moves_def wp_def)

lemma moves_ret [moves_intros]: "reflp R \<Longrightarrow> moves R (ret a)"
  by (simp add: moves_def ret_def reflpD)

lemma moves_throw [moves_intros]: "reflp R \<Longrightarrow> moves R (throw e)"
  by (simp add: moves_def throw_def reflpD)

lemma moves_panic [moves_intros]: "reflp R \<Longrightarrow> moves R panic"
  by (simp add: moves_def panic_def reflpD)

lemma moves_of_outcome [moves_intros]: "reflp R \<Longrightarrow> moves R (of_outcome r)"
  by (simp add: moves_def of_outcome_def reflpD)

lemma moves_and_then [moves_intros]:
  assumes "transp R" "moves R m" "\<And>a. moves R (f a)"
  shows "moves R (and_then m f)"
  using assms unfolding moves_def and_then_def
  by (auto split: prod.split outcome.split) (metis snd_conv transpD)+

lemma moves_handle [moves_intros]:
  assumes "transp R" "moves R m" "\<And>a. moves R (f a)" "\<And>e. moves R (g e)"
  shows "moves R (handle m f g)"
  using assms unfolding moves_def handle_def
  by (auto split: prod.split outcome.split) (metis snd_conv transpD)+

lemma moves_map_err [moves_intros]: "moves R m \<Longrightarrow> moves R (map_err g m)"
  by (simp add: moves_def map_err_def handle_def ret_def throw_def split: prod.split outcome.split)
    (metis snd_conv)

lemma moves_if [moves_intros]: "moves R m \<Longrightarrow> moves R n \<Longrightarrow> moves R (if b then m else n)"
  by simp

lemma moves_map_io [moves_intros]:
  assumes "reflp R" "transp R" "\<And>x. x \<in> set xs \<Longrightarrow> moves R (f x)"
  shows "moves R (map_io f xs)"
  using assms(3) by (induction xs) (auto intro!: moves_ret moves_and_then assms(1,2))

section \<open>Lists\<close>

text \<open>\<open>Iterator::filter_map(Result::ok)\<close>: keeps the values of the successful elements.\<close>

fun ok_values :: "('a, 'e) outcome list \<Rightarrow> 'a list" where
  "ok_values [] = []"
| "ok_values (Ok a # rs) = a # ok_values rs"
| "ok_values (_ # rs) = ok_values rs"

lemma set_ok_values: "set (ok_values rs) = {a. Ok a \<in> set rs}"
  by (induction rs rule: ok_values.induct) auto

lemma length_ok_values: "length (ok_values rs) = length (filter is_ok rs)"
  by (induction rs rule: ok_values.induct) auto

lemma in_map_filter: "y \<in> set (List.map_filter f xs) \<longleftrightarrow> (\<exists>x \<in> set xs. f x = Some y)"
  by (induction xs) (auto split: option.split)

lemma distinct_filter_single:
  assumes "distinct (map f xs)" "x \<in> set xs"
  shows "filter (\<lambda>y. f y = f x) xs = [x]"
  using assms
proof (induction xs)
  case (Cons a xs)
  then show ?case
    by (cases "a = x") (auto simp: filter_empty_conv image_iff)
qed simp

lemma distinct_map_filter_le1: "distinct (map f xs) \<Longrightarrow> length (filter (\<lambda>y. f y = k) xs) \<le> 1"
proof (induction xs)
  case (Cons a xs)
  then have "f a = k \<Longrightarrow> filter (\<lambda>y. f y = k) xs = []"
    by (auto simp: filter_empty_conv image_iff)
  with Cons show ?case by auto
qed simp

section \<open>Decimal text of integers\<close>

fun show_nat :: "nat \<Rightarrow> string" where
  "show_nat n = (if n < 10 then [char_of (48 + n)] else show_nat (n div 10) @ [char_of (48 + n mod 10)])"

declare show_nat.simps [simp del]

end
