(* ===== verification/Json.thy ===== *)
theory Json
  imports Prelude "HOL-Library.List_Lexorder" "HOL-Library.Char_ord"
begin

text \<open>
  JSON documents as the Rust code sees them (\<open>serde_json::Value\<close>), the two accessors the
  code uses (\<open>v["k"]\<close> and \<open>v["k"] = x\<close>), the field readers that
  \<open>#[derive(Deserialize)]\<close> gives a struct, and the external codecs and primitives the HTTP
  layers call: \<open>serde_json\<close>'s printer and parser, SHA-256, ECDSA, base64 and the header
  conversion. Those are fields of the record \<open>web_ext\<close>, never defined here; \<open>web_ok\<close>
  states what their documentation promises.
\<close>

section \<open>Documents\<close>

datatype json =
    JNull
  | JBool bool
  | JNum int
  | JStr string
  | JArr "json list"
  | JObj "(string \<times> json) list"

text \<open>The keys of an object are distinct, at every level.\<close>

fun json_wf :: "json \<Rightarrow> bool" where
  "json_wf (JArr xs) = list_all json_wf xs"
| "json_wf (JObj kvs) = (distinct (map fst kvs) \<and> list_all (\<lambda>kv. json_wf (snd kv)) kvs)"
| "json_wf _ = True"

text \<open>
  A \<open>Value\<close> keeps its members in a \<open>BTreeMap\<close>, sorted by key; a serialized struct lists
  them in the order of its fields. \<open>json_canon\<close> is the \<open>Value\<close> a document denotes.
\<close>

fun json_canon :: "json \<Rightarrow> json" where
  "json_canon (JArr xs) = JArr (map json_canon xs)"
| "json_canon (JObj kvs) = JObj (sort_key fst (map (\<lambda>kv. (fst kv, json_canon (snd kv))) kvs))"
| "json_canon j = j"

lemma map_of_sort_key: "distinct (map fst kvs) \<Longrightarrow> map_of (sort_key fst kvs) = map_of kvs"
  by (rule map_of_inject_set [THEN iffD2]) (simp_all add: distinct_map)

lemma distinct_sort_key: "distinct (map fst kvs) \<Longrightarrow> distinct (map fst (sort_key fst kvs))"
  by (simp add: distinct_map)

lemma fst_canon_members: "map fst (map (\<lambda>kv. (fst kv, json_canon (snd kv))) kvs) = map fst kvs"
  by (induction kvs) auto

lemma map_of_canon_members:
  "map_of (map (\<lambda>kv. (fst kv, json_canon (snd kv))) kvs) k = map_option json_canon (map_of kvs k)"
  by (induction kvs) auto

abbreviation canon_members :: "(string \<times> json) list \<Rightarrow> (string \<times> json) list" where
  "canon_members \<equiv> map (\<lambda>kv. (fst kv, json_canon (snd kv)))"

lemma canon_object:
  assumes "distinct (map fst kvs)"
  shows "map_of (sort_key fst (canon_members kvs)) k = map_option json_canon (map_of kvs k)"
    and "distinct (map fst (sort_key fst (canon_members kvs)))"
proof -
  have keys: "distinct (map fst (canon_members kvs))"
    using assms by (simp only: fst_canon_members)
  show "map_of (sort_key fst (canon_members kvs)) k = map_option json_canon (map_of kvs k)"
    by (simp only: map_of_sort_key [OF keys] map_of_canon_members)
  show "distinct (map fst (sort_key fst (canon_members kvs)))"
    by (rule distinct_sort_key [OF keys])
qed

lemma json_wf_canon: "json_wf j \<Longrightarrow> json_wf (json_canon j)"
  by (induction j rule: json_canon.induct)
    (auto simp: list_all_iff canon_object(2))

lemma json_canon_idem: "json_canon (json_canon j) = json_canon j"
proof (induction j rule: json_canon.induct)
  case (2 kvs)
  let ?m = "map (\<lambda>kv. (fst kv, json_canon (snd kv)))"
  have "?m (sort_key fst (?m kvs)) = sort_key fst (?m kvs)"
    by (rule map_idI) (use 2 in auto)
  then show ?case by (simp add: sort_key_id_if_sorted)
qed auto

text \<open>\<open>v["k"]\<close>: the member of an object, \<open>Null\<close> when it is missing or \<open>v\<close> is no object.\<close>

fun json_index :: "json \<Rightarrow> string \<Rightarrow> json" where
  "json_index (JObj kvs) k = (case map_of kvs k of Some v \<Rightarrow> v | None \<Rightarrow> JNull)"
| "json_index _ k = JNull"

fun obj_put :: "string \<Rightarrow> json \<Rightarrow> (string \<times> json) list \<Rightarrow> (string \<times> json) list" where
  "obj_put k v [] = [(k, v)]"
| "obj_put k v ((k', v') # kvs) =
     (if k' = k then (k, v) # kvs
      else if k < k' then (k, v) # (k', v') # kvs
      else (k', v') # obj_put k v kvs)"

text \<open>\<open>v["k"] = x\<close>: on \<open>Null\<close> a new object, on an object the member is set, otherwise a panic.\<close>

fun json_set :: "json \<Rightarrow> string \<Rightarrow> json \<Rightarrow> (json, 'e) outcome" where
  "json_set (JObj kvs) k v = Ok (JObj (obj_put k v kvs))"
| "json_set JNull k v = Ok (JObj [(k, v)])"
| "json_set _ k v = Panic"

fun as_str :: "json \<Rightarrow> string option" where
  "as_str (JStr s) = Some s"
| "as_str _ = None"

definition u64_max :: int where
  "u64_max = 18446744073709551615"

definition u32_max :: int where
  "u32_max = 4294967295"

definition i32_max :: int where
  "i32_max = 2147483647"

fun as_u64 :: "json \<Rightarrow> int option" where
  "as_u64 (JNum n) = (if 0 \<le> n \<and> n \<le> u64_max then Some n else None)"
| "as_u64 _ = None"

lemma map_of_obj_put [simp]: "map_of (obj_put k v kvs) = (map_of kvs)(k \<mapsto> v)"
  by (induction k v kvs rule: obj_put.induct) auto

lemma fst_obj_put: "fst ` set (obj_put k v kvs) = insert k (fst ` set kvs)"
  by (induction k v kvs rule: obj_put.induct) auto

lemma sorted_obj_put:
  "sorted_wrt (<) (map fst kvs) \<Longrightarrow> sorted_wrt (<) (map fst (obj_put k v kvs))"
  by (induction k v kvs rule: obj_put.induct) (auto simp: fst_obj_put dest: order.strict_trans)

lemma snd_obj_put: "kv \<in> set (obj_put k v kvs) \<Longrightarrow> snd kv = v \<or> kv \<in> set kvs"
  by (induction k v kvs rule: obj_put.induct) (auto split: if_splits)

lemma json_index_set_same: "json_set j k v = Ok j' \<Longrightarrow> json_index j' k = v"
  by (cases j) auto

lemma json_index_set_other: "json_set j k v = Ok j' \<Longrightarrow> k' \<noteq> k \<Longrightarrow> json_index j' k' = json_index j k'"
  by (cases j) auto

section \<open>Reading struct fields\<close>

text \<open>
  A derived \<open>Deserialize\<close> reads the members it knows by name and ignores the others. A
  \<open>String\<close> field must be there; an \<open>Option\<close> field may be missing or \<open>null\<close>.
\<close>

fun req_str :: "json \<Rightarrow> string \<Rightarrow> string option" where
  "req_str (JObj kvs) k = (case map_of kvs k of Some (JStr s) \<Rightarrow> Some s | _ \<Rightarrow> None)"
| "req_str _ k = None"

fun opt_str :: "json \<Rightarrow> string \<Rightarrow> string option option" where
  "opt_str (JObj kvs) k =
     (case map_of kvs k of
        None \<Rightarrow> Some None
      | Some JNull \<Rightarrow> Some None
      | Some (JStr s) \<Rightarrow> Some (Some s)
      | Some _ \<Rightarrow> None)"
| "opt_str _ k = None"

fun req_val :: "json \<Rightarrow> string \<Rightarrow> json option" where
  "req_val (JObj kvs) k = map_of kvs k"
| "req_val _ k = None"

fun req_int :: "int \<Rightarrow> int \<Rightarrow> json \<Rightarrow> string \<Rightarrow> int option" where
  "req_int lo hi (JObj kvs) k =
     (case map_of kvs k of Some (JNum n) \<Rightarrow> if lo \<le> n \<and> n \<le> hi then Some n else None | _ \<Rightarrow> None)"
| "req_int lo hi _ k = None"

fun json_list :: "(json \<Rightarrow> 'a option) \<Rightarrow> json \<Rightarrow> 'a list option" where
  "json_list f (JArr xs) = those (map f xs)"
| "json_list f _ = None"

fun opt_json :: "string option \<Rightarrow> json" where
  "opt_json None = JNull"
| "opt_json (Some s) = JStr s"

text \<open>The readers see the same struct in a document and in its \<open>Value\<close>.\<close>

lemma read_canon:
  assumes "json_wf j"
  shows "req_str (json_canon j) k = req_str j k"
    and "opt_str (json_canon j) k = opt_str j k"
    and "req_val (json_canon j) k = map_option json_canon (req_val j k)"
    and "req_int lo hi (json_canon j) k = req_int lo hi j k"
    and "json_index (json_canon j) k = json_canon (json_index j k)"
    and "as_str (json_canon j) = as_str j"
proof -
  have members: "map_of (sort_key fst (map (\<lambda>kv. (fst kv, json_canon (snd kv))) kvs)) k
      = map_option json_canon (map_of kvs k)" if "j = JObj kvs" for kvs
    using assms that by (simp add: canon_object(1))
  show "req_str (json_canon j) k = req_str j k"
  proof (cases j)
    case (JObj kvs)
    note m = members [OF JObj]
    show ?thesis
    proof (cases "map_of kvs k")
      case (Some v)
      with JObj m show ?thesis by (cases v) simp_all
    qed (use JObj m in simp)
  qed simp_all
  show "opt_str (json_canon j) k = opt_str j k"
  proof (cases j)
    case (JObj kvs)
    note m = members [OF JObj]
    show ?thesis
    proof (cases "map_of kvs k")
      case (Some v)
      with JObj m show ?thesis by (cases v) simp_all
    qed (use JObj m in simp)
  qed simp_all
  show "req_val (json_canon j) k = map_option json_canon (req_val j k)"
    by (cases j) (auto simp: members)
  show "req_int lo hi (json_canon j) k = req_int lo hi j k"
  proof (cases j)
    case (JObj kvs)
    note m = members [OF JObj]
    show ?thesis
    proof (cases "map_of kvs k")
      case (Some v)
      with JObj m show ?thesis by (cases v) simp_all
    qed (use JObj m in simp)
  qed simp_all
  show "json_index (json_canon j) k = json_canon (json_index j k)"
    by (cases j) (auto simp: members split: option.split)
  show "as_str (json_canon j) = as_str j"
    by (cases j) auto
qed

lemma those_map_Some: "(\<And>x. x \<in> set xs \<Longrightarrow> f (g x) = Some (h x)) \<Longrightarrow> those (map (f \<circ> g) xs) = Some (map h xs)"
  by (induction xs) auto

section \<open>External codecs and primitives\<close>

record web_ext =
  jprint :: "json \<Rightarrow> string"
  jparse :: "string \<Rightarrow> json option"
  header_to_str :: "string \<Rightarrow> string option"
  sha256 :: "string \<Rightarrow> bytes"
  ecdsa_sign :: "bytes \<Rightarrow> bytes \<Rightarrow> bytes"
  ecdsa_verify :: "bytes \<Rightarrow> bytes \<Rightarrow> bytes \<Rightarrow> bool"
  pk_of_sk :: "bytes \<Rightarrow> bytes"
  sig_to_string :: "bytes \<Rightarrow> string"
  sig_from_str :: "string \<Rightarrow> bytes option"
  pk_to_string :: "bytes \<Rightarrow> string"
  pk_from_str :: "string \<Rightarrow> bytes option"
  b64_encode :: "bytes \<Rightarrow> string"
  b64_decode :: "string \<Rightarrow> bytes option"
  display_error :: "string \<Rightarrow> string"
  path_decode :: "string \<Rightarrow> string"
  target_64bit :: bool

definition usize_max :: "web_ext \<Rightarrow> int" where
  "usize_max e = (if target_64bit e then u64_max else u32_max)"

lemma usize_max_u32: "u32_max \<le> usize_max e"
  by (simp add: usize_max_def u32_max_def u64_max_def)

text \<open>
  \<open>ecdsa_sign digest sk\<close> and \<open>ecdsa_verify digest sig pk\<close> are libsecp256k1's, and
  \<open>display_error\<close> is the text a library's error of the named kind displays as; \<open>path_decode\<close> is
  actix's percent-decoding of a captured path segment and \<open>target_64bit\<close> the width of \<open>usize\<close> (64 bits
  in the services, 32 in WebAssembly), of which nothing is assumed. The
  documented behaviour: parsing a printed document gives its \<open>Value\<close>, the empty text is no
  document, reading a header as text changes nothing and succeeds on letters and digits, signatures and public
  keys survive their text form, a signature verifies under the public key of its secret
  key, base64 decodes what it encoded, and the messages of errors are no JSON documents.
\<close>

definition alphanumeric :: "char \<Rightarrow> bool" where
  "alphanumeric c \<longleftrightarrow>
     (let n = of_char c :: nat in 48 \<le> n \<and> n \<le> 57 \<or> 65 \<le> n \<and> n \<le> 90 \<or> 97 \<le> n \<and> n \<le> 122)"

definition json_codec_ok :: "web_ext \<Rightarrow> bool" where
  "json_codec_ok e \<longleftrightarrow>
     (\<forall>j. json_wf j \<longrightarrow> jparse e (jprint e j) = Some (json_canon j)) \<and> jparse e [] = None"

definition crypto_ok :: "web_ext \<Rightarrow> bool" where
  "crypto_ok e \<longleftrightarrow>
     (\<forall>sg. sig_from_str e (sig_to_string e sg) = Some sg) \<and>
     (\<forall>pk. pk_from_str e (pk_to_string e pk) = Some pk) \<and>
     (\<forall>d sk. ecdsa_verify e d (ecdsa_sign e d sk) (pk_of_sk e sk))"

definition header_ok :: "web_ext \<Rightarrow> bool" where
  "header_ok e \<longleftrightarrow> (\<forall>s. list_all alphanumeric s \<longrightarrow> header_to_str e s = Some s)
     \<and> (\<forall>s t. header_to_str e s = Some t \<longrightarrow> t = s)"

definition base64_ok :: "web_ext \<Rightarrow> bool" where
  "base64_ok e \<longleftrightarrow> (\<forall>bs. b64_decode e (b64_encode e bs) = Some bs)"

definition plain_text_ok :: "web_ext \<Rightarrow> bool" where
  "plain_text_ok e \<longleftrightarrow> jparse e ''No contract found'' = None \<and> jparse e ''No event found'' = None
     \<and> (\<forall>kind. jparse e (display_error e kind) = None)"

definition web_ok :: "web_ext \<Rightarrow> bool" where
  "web_ok e \<longleftrightarrow> json_codec_ok e \<and> crypto_ok e \<and> header_ok e \<and> base64_ok e \<and> plain_text_ok e"

lemma jparse_jprint: "web_ok e \<Longrightarrow> json_wf j \<Longrightarrow> jparse e (jprint e j) = Some (json_canon j)"
  by (simp add: web_ok_def json_codec_ok_def)

lemma jparse_empty: "web_ok e \<Longrightarrow> jparse e [] = None"
  by (simp add: web_ok_def json_codec_ok_def)

lemma header_alphanumeric: "web_ok e \<Longrightarrow> list_all alphanumeric s \<Longrightarrow> header_to_str e s = Some s"
  by (simp add: web_ok_def header_ok_def)

lemma header_same: "web_ok e \<Longrightarrow> header_to_str e s = Some t \<Longrightarrow> t = s"
  by (simp add: web_ok_def header_ok_def)

lemma crypto_roundtrips:
  assumes "web_ok e"
  shows "sig_from_str e (sig_to_string e sg) = Some sg"
    and "pk_from_str e (pk_to_string e pk) = Some pk"
    and "ecdsa_verify e d (ecdsa_sign e d sk) (pk_of_sk e sk)"
  using assms by (auto simp: web_ok_def crypto_ok_def)

lemma plain_text:
  assumes "web_ok e"
  shows "jparse e ''No contract found'' = None" "jparse e ''No event found'' = None"
    "jparse e (display_error e kind) = None"
  using assms by (auto simp: web_ok_def plain_text_ok_def)

lemma b64_roundtrip: "web_ok e \<Longrightarrow> b64_decode e (b64_encode e bs) = Some bs"
  by (simp add: web_ok_def base64_ok_def)

section \<open>A message with a member set\<close>

lemma strictly_sorted_members:
  assumes "distinct (map fst kvs)"
  shows "sorted_wrt (<) (map fst (sort_key fst (canon_members kvs)))"
  using canon_object(2) [OF assms] sorted_sort_key [of fst "canon_members kvs"]
  by (simp add: strict_sorted_iff)

lemma strictly_sorted_distinct: "sorted_wrt (<) (ks :: string list) \<Longrightarrow> distinct ks \<and> sorted ks"
  by (simp add: strict_sorted_iff)

text \<open>Setting a member of a \<open>Value\<close> gives a \<open>Value\<close>.\<close>

lemma canon_obj_put:
  assumes "distinct (map fst kvs)" "json_canon v = v"
  shows "json_canon (JObj (obj_put k v (sort_key fst (canon_members kvs))))
      = JObj (obj_put k v (sort_key fst (canon_members kvs)))"
proof -
  let ?l = "obj_put k v (sort_key fst (canon_members kvs))"
  have sorted: "sorted (map fst ?l)"
    using strictly_sorted_distinct [OF sorted_obj_put [OF strictly_sorted_members [OF assms(1)]]] by simp
  have "canon_members ?l = ?l"
    by (rule map_idI) (use assms(2) in \<open>auto dest!: snd_obj_put simp: json_canon_idem\<close>)
  then show ?thesis using sorted by (simp add: sort_key_id_if_sorted)
qed

lemma wf_obj_put:
  assumes "json_wf (JObj kvs)" "json_wf v"
  shows "json_wf (JObj (obj_put k v (sort_key fst (canon_members kvs))))"
proof -
  let ?l = "obj_put k v (sort_key fst (canon_members kvs))"
  have "distinct (map fst kvs)" using assms(1) by simp
  then have "distinct (map fst ?l)"
    using strictly_sorted_distinct [OF sorted_obj_put [OF strictly_sorted_members]] by blast
  moreover have "\<forall>kv \<in> set (canon_members kvs). json_wf (snd kv)"
    using assms(1) by (force simp: list_all_iff intro: json_wf_canon)
  then have "json_wf (snd kv)" if "kv \<in> set ?l" for kv
    using snd_obj_put [OF that] assms(2) by (metis set_sort)
  then have "\<forall>kv \<in> set ?l. json_wf (snd kv)" by blast
  ultimately show ?thesis by (simp add: list_all_iff)
qed

end
