(* ===== verification/Sql_Table.thy ===== *)
theory Sql_Table
  imports Json "HOL-Library.Multiset"
begin

text \<open>
  Tables with a \<open>serial\<close> primary key and a unique constraint, and the statement forms the
  storage crates use on them: select with a filter, insert, update and delete. The engine may
  return rows in any order, so a select takes the order as an argument: a permutation of the
  positions (\<open>order_ok\<close>).

  The locale \<open>keyed_table\<close> is the contract a table gives its users: rows are identified by
  (key, uid), and create, select, update and delete act on the view from identities to rows.
\<close>

section \<open>Tables and statements\<close>

datatype db_error = UniqueViolation | SerialExhausted | ConnectionError string

record 'r table =
  rows :: "'r list"
  serial :: int

definition sql_select :: "(nat \<Rightarrow> nat list) \<Rightarrow> ('r \<Rightarrow> bool) \<Rightarrow> 'r table \<Rightarrow> 'r list" where
  "sql_select order p t = (let rs = filter p (rows t) in map ((!) rs) (order (length rs)))"

definition sql_insert ::
  "('r \<Rightarrow> 'k) \<Rightarrow> (int \<Rightarrow> 'r) \<Rightarrow> 'r table \<Rightarrow> ('r, db_error) outcome \<times> 'r table" where
  "sql_insert ident mk t =
     (if i32_max < serial t then (Err SerialExhausted, t)
      else let r = mk (serial t); t' = t\<lparr>serial := serial t + 1\<rparr> in
        if ident r \<in> ident ` set (rows t) then (Err UniqueViolation, t')
        else (Ok r, t'\<lparr>rows := rows t @ [r]\<rparr>))"

definition sql_update :: "('r \<Rightarrow> bool) \<Rightarrow> ('r \<Rightarrow> 'r) \<Rightarrow> 'r table \<Rightarrow> (nat, db_error) outcome \<times> 'r table" where
  "sql_update p f t =
     (Ok (length (filter p (rows t))), t\<lparr>rows := map (\<lambda>r. if p r then f r else r) (rows t)\<rparr>)"

definition sql_delete :: "('r \<Rightarrow> bool) \<Rightarrow> 'r table \<Rightarrow> (nat, db_error) outcome \<times> 'r table" where
  "sql_delete p t =
     (Ok (length (filter p (rows t))), t\<lparr>rows := filter (\<lambda>r. \<not> p r) (rows t)\<rparr>)"


section \<open>The view of a table\<close>

definition order_ok :: "(nat \<Rightarrow> nat list) \<Rightarrow> bool" where
  "order_ok order \<longleftrightarrow> (\<forall>n. mset (order n) = mset [0..<n])"

definition table_ok :: "('r \<Rightarrow> 'k) \<Rightarrow> ('r \<Rightarrow> int) \<Rightarrow> 'r table \<Rightarrow> bool" where
  "table_ok ident idc t \<longleftrightarrow>
     distinct (map ident (rows t)) \<and> distinct (map idc (rows t)) \<and> (\<forall>r \<in> set (rows t). idc r < serial t)"

definition tview :: "('r \<Rightarrow> 'k) \<Rightarrow> 'r table \<Rightarrow> 'k \<Rightarrow> 'r option" where
  "tview ident t k = find (\<lambda>r. ident r = k) (rows t)"

lemma mset_sql_select:
  assumes "order_ok order"
  shows "mset (sql_select order p t) = mset (filter p (rows t))"
proof -
  let ?rs = "filter p (rows t)"
  have "mset (map ((!) ?rs) (order (length ?rs))) = image_mset ((!) ?rs) (mset [0..<length ?rs])"
    using assms unfolding order_ok_def mset_map by metis
  also have "\<dots> = mset ?rs"
    unfolding mset_map [symmetric] map_nth ..
  finally show ?thesis
    by (simp add: sql_select_def Let_def)
qed

lemma set_sql_select: "order_ok order \<Longrightarrow> set (sql_select order p t) = {r \<in> set (rows t). p r}"
  by (metis mset_sql_select set_filter set_mset_mset)

lemma tview_None_iff: "tview ident t k = None \<longleftrightarrow> k \<notin> ident ` set (rows t)"
  by (auto simp: tview_def find_None_iff)

lemma find_distinct_Some_iff:
  "distinct (map f xs) \<Longrightarrow> find (\<lambda>x. f x = k) xs = Some x \<longleftrightarrow> x \<in> set xs \<and> f x = k"
  by (induction xs) auto

lemma tview_Some_iff:
  "table_ok ident idc t \<Longrightarrow> tview ident t k = Some r \<longleftrightarrow> r \<in> set (rows t) \<and> ident r = k"
  by (simp add: tview_def table_ok_def find_distinct_Some_iff)

lemma tview_mem: "table_ok ident idc t \<Longrightarrow> r \<in> set (rows t) \<Longrightarrow> tview ident t (ident r) = Some r"
  by (simp add: tview_Some_iff)

lemma select_ident:
  assumes "table_ok ident idc t" "order_ok order"
  shows "sql_select order (\<lambda>r. ident r = k) t = (case tview ident t k of None \<Rightarrow> [] | Some r \<Rightarrow> [r])"
proof (cases "tview ident t k")
  case None
  then have "filter (\<lambda>r. ident r = k) (rows t) = []"
    by (auto simp: tview_None_iff filter_empty_conv)
  with None mset_sql_select [OF assms(2), of "\<lambda>r. ident r = k" t] show ?thesis
    by simp
next
  case (Some r)
  with assms have r: "r \<in> set (rows t)" "ident r = k"
    by (auto simp: tview_Some_iff)
  then have "filter (\<lambda>r. ident r = k) (rows t) = [r]"
    using assms(1) distinct_filter_single [of ident "rows t" r] by (simp add: table_ok_def)
  with Some mset_sql_select [OF assms(2), of "\<lambda>r. ident r = k" t] show ?thesis
    by simp
qed

section \<open>What the statements do to the view\<close>

definition one_row :: "'r option \<Rightarrow> 'r list" where
  "one_row x = (case x of None \<Rightarrow> [] | Some r \<Rightarrow> [r])"

lemma one_row_simps [simp]: "one_row None = []" "one_row (Some r) = [r]"
  by (simp_all add: one_row_def)

lemma count_ident:
  assumes "table_ok ident idc t"
  shows "length (filter (\<lambda>r. ident r = k) (rows t)) = (if tview ident t k = None then 0 else 1)"
proof (cases "tview ident t k")
  case None
  then show ?thesis
    by (auto simp: tview_None_iff filter_empty_conv)
next
  case (Some r)
  with assms have "r \<in> set (rows t)" "ident r = k"
    by (auto simp: tview_Some_iff)
  with Some assms distinct_filter_single [of ident "rows t" r] show ?thesis
    by (simp add: table_ok_def)
qed

lemma tview_eqI:
  assumes ok: "table_ok ident idc t" and v: "\<And>k r. v k = Some r \<longleftrightarrow> r \<in> set (rows t) \<and> ident r = k"
  shows "tview ident t = v"
proof
  fix k
  have "tview ident t k = Some r \<longleftrightarrow> v k = Some r" for r
    by (simp add: v tview_Some_iff [OF ok])
  then show "tview ident t k = v k"
    by (metis option.exhaust)
qed

lemma insert_view:
  assumes ok: "table_ok ident idc t"
    and mk: "\<And>i. ident (mk i) = k" "\<And>i. idc (mk i) = i"
    and run: "sql_insert ident mk t = (res, t')"
  shows "table_ok ident idc t'"
    and "res = Ok r \<Longrightarrow> tview ident t k = None \<and> r = mk (serial t) \<and> tview ident t' = (tview ident t)(k \<mapsto> r)"
    and "\<not> is_ok res \<Longrightarrow> tview ident t' = tview ident t"
proof -
  have new: "serial t \<notin> idc ` set (rows t)" and below: "r \<in> set (rows t) \<Longrightarrow> idc r \<le> serial t" for r
    using ok by (auto simp: table_ok_def intro: order_less_imp_le)
  show ok': "table_ok ident idc t'"
    using run ok new
    by (auto simp: sql_insert_def table_ok_def Let_def mk below split: if_splits)
  show "tview ident t k = None \<and> r = mk (serial t) \<and> tview ident t' = (tview ident t)(k \<mapsto> r)" if "res = Ok r"
  proof -
    from run that have t': "t' = t\<lparr>serial := serial t + 1, rows := rows t @ [r]\<rparr>"
      and r: "r = mk (serial t)" and fresh: "k \<notin> ident ` set (rows t)"
      by (auto simp: sql_insert_def Let_def mk split: if_splits)
    have "tview ident t' = (tview ident t)(k \<mapsto> r)"
      by (rule tview_eqI [OF ok']) (use fresh in \<open>auto simp: t' r mk tview_Some_iff [OF ok]\<close>)
    with fresh r show ?thesis by (simp add: tview_None_iff)
  qed
  show "tview ident t' = tview ident t" if "\<not> is_ok res"
    using run that by (auto simp: sql_insert_def tview_def Let_def split: if_splits)
qed

lemma update_view:
  assumes ok: "table_ok ident idc t"
    and f: "\<And>r. ident r = k \<Longrightarrow> ident (f r) = k" "\<And>r. idc (f r) = idc r"
    and run: "sql_update (\<lambda>r. ident r = k) f t = (res, t')"
  shows "table_ok ident idc t'"
    and "res = Ok (if tview ident t k = None then 0 else 1)"
    and "tview ident t' = (tview ident t)(k := map_option f (tview ident t k))"
proof -
  have t': "t' = t\<lparr>rows := map (\<lambda>r. if ident r = k then f r else r) (rows t)\<rparr>"
    using run by (auto simp: sql_update_def)
  have idents: "map ident (rows t') = map ident (rows t)" "map idc (rows t') = map idc (rows t)"
    by (auto simp: t' f)
  then have "idc ` set (rows t') = idc ` set (rows t)" "serial t' = serial t"
    by (metis set_map) (simp add: t')
  then show ok': "table_ok ident idc t'"
    using ok idents unfolding table_ok_def by (metis imageE imageI)
  show "res = Ok (if tview ident t k = None then 0 else 1)"
    using run count_ident [OF ok, of k] by (auto simp: sql_update_def)
  show "tview ident t' = (tview ident t)(k := map_option f (tview ident t k))"
    by (rule tview_eqI [OF ok']) (auto simp: t' f tview_Some_iff [OF ok] image_iff)
qed

lemma delete_ok: "table_ok ident idc t \<Longrightarrow> sql_delete p t = (res, t') \<Longrightarrow> table_ok ident idc t'"
  by (auto simp: sql_delete_def table_ok_def distinct_map_filter)

lemma delete_where_view:
  assumes ok: "table_ok ident idc t" and run: "sql_delete p t = (res, t')"
  shows "tview ident t' k = (case tview ident t k of None \<Rightarrow> None | Some r \<Rightarrow> if p r then None else Some r)"
proof (cases "tview ident t k")
  case None
  then have "tview ident t' k = None"
    using run by (auto simp: sql_delete_def tview_None_iff)
  with None show ?thesis by simp
next
  case (Some r)
  then have r: "r \<in> set (rows t)" "ident r = k"
    by (auto simp: tview_Some_iff [OF ok])
  have "inj_on ident (set (rows t))"
    using ok by (simp add: table_ok_def distinct_map)
  then have only: "x = r" if "x \<in> set (rows t)" "ident x = k" for x
    using that r by (auto dest: inj_onD)
  have t': "set (rows t') = {x \<in> set (rows t). \<not> p x}"
    using run by (auto simp: sql_delete_def)
  have "tview ident t' k = Some r" if "\<not> p r"
    using r that by (simp add: tview_Some_iff [OF delete_ok [OF ok run]] t')
  moreover have "tview ident t' k = None" if "p r"
    unfolding tview_None_iff t' using only that by blast
  ultimately show ?thesis
    using Some by simp
qed

lemma delete_view:
  assumes ok: "table_ok ident idc t"
    and run: "sql_delete (\<lambda>r. ident r = k) t = (res, t')"
  shows "res = Ok (if tview ident t k = None then 0 else 1)"
    and "tview ident t' = (tview ident t)(k := None)"
proof -
  show "res = Ok (if tview ident t k = None then 0 else 1)"
    using run count_ident [OF ok, of k] by (auto simp: sql_delete_def)
  show "tview ident t' = (tview ident t)(k := None)"
  proof
    fix k'
    have "tview ident t k' = Some r \<Longrightarrow> ident r = k'" for r
      by (simp add: tview_Some_iff [OF ok])
    then show "tview ident t' k' = ((tview ident t)(k := None)) k'"
      by (cases "tview ident t k'") (simp_all add: delete_where_view [OF ok run])
  qed
qed

text \<open>The same facts as weakest preconditions, for use inside a handler.\<close>

lemma wp_sql_insert:
  assumes ok: "table_ok ident idc t" and mk: "\<And>i. ident (mk i) = k" "\<And>i. idc (mk i) = i"
  shows "wp (sql_insert ident mk) (\<lambda>res t'. table_ok ident idc t' \<and>
     (case res of
        Ok r \<Rightarrow> tview ident t k = None \<and> r = mk (serial t) \<and> tview ident t' = (tview ident t)(k \<mapsto> r)
      | _ \<Rightarrow> tview ident t' = tview ident t)) t"
proof (rule wpI)
  fix res t'
  assume "sql_insert ident mk t = (res, t')"
  note view = insert_view [OF ok mk this]
  then show "table_ok ident idc t' \<and> (case res of
        Ok r \<Rightarrow> tview ident t k = None \<and> r = mk (serial t) \<and> tview ident t' = (tview ident t)(k \<mapsto> r)
      | _ \<Rightarrow> tview ident t' = tview ident t)"
    by (cases res) simp_all
qed

lemma wp_sql_update:
  assumes ok: "table_ok ident idc t"
    and f: "\<And>r. ident r = k \<Longrightarrow> ident (f r) = k" "\<And>r. idc (f r) = idc r"
  shows "wp (sql_update (\<lambda>r. ident r = k) f) (\<lambda>res t'. table_ok ident idc t' \<and>
     res = Ok (if tview ident t k = None then 0 else 1) \<and>
     tview ident t' = (tview ident t)(k := map_option f (tview ident t k))) t"
  by (rule wpI) (use update_view [OF ok f] in blast)

lemma wp_sql_delete:
  assumes ok: "table_ok ident idc t"
  shows "wp (sql_delete (\<lambda>r. ident r = k)) (\<lambda>res t'. table_ok ident idc t' \<and>
     res = Ok (if tview ident t k = None then 0 else 1) \<and>
     tview ident t' = (tview ident t)(k := None)) t"
  by (rule wpI) (use delete_view [OF ok] delete_ok [OF ok] in blast)

section \<open>The contract of a keyed table\<close>

locale keyed_table =
  fixes new_ident :: "'n \<Rightarrow> 'k"
    and upd_ident :: "'u \<Rightarrow> 'k"
    and del_ident :: "'d \<Rightarrow> 'k"
    and create :: "'n \<Rightarrow> ('w, 'r, 'e) io"
    and select :: "'k \<Rightarrow> ('w, 'r list, 'e) io"
    and update :: "'u \<Rightarrow> ('w, nat, 'e) io"
    and delete :: "'d \<Rightarrow> ('w, nat, 'e) io"
    and made :: "'n \<Rightarrow> 'r \<Rightarrow> bool"
    and change :: "'u \<Rightarrow> 'r \<Rightarrow> 'r"
    and view :: "'w \<Rightarrow> 'k \<Rightarrow> 'r option"
    and inv :: "'w \<Rightarrow> bool"
  assumes select_law: "inv w \<Longrightarrow>
      wp (select k) (\<lambda>res w'. inv w' \<and> view w' = view w \<and> (\<forall>rs. res = Ok rs \<longrightarrow> rs = one_row (view w k))) w"
    and create_law: "inv w \<Longrightarrow>
      wp (create n) (\<lambda>res w'. inv w' \<and>
        (case res of
           Ok r \<Rightarrow> view w (new_ident n) = None \<and> made n r \<and> view w' = (view w)(new_ident n \<mapsto> r)
         | _ \<Rightarrow> view w' = view w)) w"
    and update_law: "inv w \<Longrightarrow>
      wp (update u) (\<lambda>res w'. inv w' \<and>
        (case res of
           Ok c \<Rightarrow> c = (if view w (upd_ident u) = None then 0 else 1)
             \<and> view w' = (view w)(upd_ident u := map_option (change u) (view w (upd_ident u)))
         | _ \<Rightarrow> view w' = view w)) w"
    and delete_law: "inv w \<Longrightarrow>
      wp (delete d) (\<lambda>res w'. inv w' \<and>
        (case res of
           Ok c \<Rightarrow> c = (if view w (del_ident d) = None then 0 else 1)
             \<and> view w' = (view w)(del_ident d := None)
         | _ \<Rightarrow> view w' = view w)) w"
begin

lemmas select_run = wp_run [OF select_law]
lemmas create_run = wp_run [OF create_law]
lemmas update_run = wp_run [OF update_law]
lemmas delete_run = wp_run [OF delete_law]

text \<open>Every operation keeps the invariant, whatever it reports.\<close>

lemma keeps_inv:
  assumes "inv w"
  shows "select k w = (res1, w1) \<Longrightarrow> inv w1"
    and "create n w = (res2, w2) \<Longrightarrow> inv w2"
    and "update u w = (res3, w3) \<Longrightarrow> inv w3"
    and "delete d w = (res3, w4) \<Longrightarrow> inv w4"
  using select_run [OF assms] create_run [OF assms] update_run [OF assms] delete_run [OF assms] by blast+

lemma create_then_select:
  assumes "inv w" "create n w = (Ok r, w1)" "select (new_ident n) w1 = (Ok rs, w2)"
  shows "rs = [r] \<and> made n r"
  using create_run [OF assms(1,2)] select_run [OF _ assms(3)] by auto

lemma create_conflict:
  assumes "inv w" "view w (new_ident n) \<noteq> None" "create n w = (res, w1)"
  shows "\<not> is_ok res \<and> view w1 = view w"
  using create_run [OF assms(1,3)] assms(2) by (cases res) auto

lemma create_twice:
  assumes "inv w" "create n w = (Ok r, w1)" "new_ident n' = new_ident n" "create n' w1 = (res, w2)"
  shows "\<not> is_ok res"
proof (rule create_conflict [THEN conjunct1, OF _ _ assms(4)])
  show "inv w1" "view w1 (new_ident n') \<noteq> None"
    using create_run [OF assms(1,2)] assms(3) by auto
qed

lemma delete_then_select:
  assumes "inv w" "delete d w = (Ok c, w1)" "select (del_ident d) w1 = (Ok rs, w2)"
  shows "rs = []"
  using delete_run [OF assms(1,2)] select_run [OF _ assms(3)] by auto

lemma update_then_select:
  assumes "inv w" "update u w = (Ok c, w1)" "select (upd_ident u) w1 = (Ok rs, w2)"
  shows "rs = one_row (map_option (change u) (view w (upd_ident u))) \<and> length rs = c"
  using update_run [OF assms(1,2)] select_run [OF _ assms(3)]
  by (cases "view w (upd_ident u)") auto

text \<open>No operation touches a row of another identity.\<close>

lemma frame:
  assumes "inv w"
  shows "create n w = (res1, w1) \<Longrightarrow> k \<noteq> new_ident n \<Longrightarrow> view w1 k = view w k"
    and "update u w = (res2, w2) \<Longrightarrow> k \<noteq> upd_ident u \<Longrightarrow> view w2 k = view w k"
    and "delete d w = (res2, w3) \<Longrightarrow> k \<noteq> del_ident d \<Longrightarrow> view w3 k = view w k"
proof -
  show "view w1 k = view w k" if "create n w = (res1, w1)" "k \<noteq> new_ident n"
    using create_run [OF assms that(1)] that(2) by (cases res1) auto
  show "view w2 k = view w k" if "update u w = (res2, w2)" "k \<noteq> upd_ident u"
    using update_run [OF assms that(1)] that(2) by (cases res2) auto
  show "view w3 k = view w k" if "delete d w = (res2, w3)" "k \<noteq> del_ident d"
    using delete_run [OF assms that(1)] that(2) by (cases res2) auto
qed

end

end
