(* ===== verification/Storage_Db.thy ===== *)
theory Storage_Db
  imports Sql_Table
begin

text \<open>
  The storage crates below the HTTP API: the tables of \<open>storage/common/migrations\<close>, the
  row and parameter structs of \<open>storage/common/src/models.rs\<close>, the statements of
  \<open>storage/common/src/lib.rs\<close>, and the \<open>reader\<close> and \<open>writer\<close> crates that pass them on.

  A statement is SQL written through diesel's query builder; the statement forms are those of
  \<open>Sql_Table\<close>. A connection carries the two tables, a schedule of faults (each statement
  takes the next one, and a fault makes the statement report that error and do nothing) and
  the order in which the engine returns rows (no statement has an \<open>ORDER BY\<close>). Both tables
  are interpreted as instances of the locale \<open>keyed_table\<close>.
\<close>

section \<open>Rows and parameters (models.rs)\<close>

record NewContract =
  nc_uuid :: string
  nc_state :: string
  nc_content :: string
  nc_key :: string

record Contract =
  c_id :: int
  c_uuid :: string
  c_state :: string
  c_content :: string
  c_key :: string

record UpdateContract =
  uc_uuid :: string
  uc_state :: "string option"
  uc_content :: "string option"
  uc_key :: string

record DeleteContract =
  dc_uuid :: string
  dc_key :: string

record ContractRequestParams =
  crp_key :: string
  crp_uuid :: "string option"
  crp_state :: "string option"

record NewEvent =
  ne_event_id :: string
  ne_content :: string
  ne_key :: string

record Event =
  e_id :: int
  e_event_id :: string
  e_content :: string
  e_key :: string

record UpdateEvent =
  ue_event_id :: string
  ue_content :: string
  ue_key :: string

record DeleteEvent =
  de_event_id :: string
  de_key :: string

record EventRequestParams =
  erp_key :: string
  erp_event_id :: "string option"

text \<open>The unique constraints \<open>UNIQUE (key, uuid)\<close> and \<open>UNIQUE (key, event_id)\<close>.\<close>

definition contract_ident :: "Contract \<Rightarrow> string \<times> string" where
  "contract_ident r = (c_key r, c_uuid r)"

definition event_ident :: "Event \<Rightarrow> string \<times> string" where
  "event_ident r = (e_key r, e_event_id r)"

section \<open>Connections\<close>

record pg =
  contracts :: "Contract table"
  events :: "Event table"
  pg_faults :: "db_error option list"
  pg_order :: "nat \<Rightarrow> nat list"

definition stmt :: "(pg, 'a, db_error) io \<Rightarrow> (pg, 'a, db_error) io" where
  "stmt m = (\<lambda>conn. case pg_faults conn of
       Some e # fs \<Rightarrow> (Err e, conn\<lparr>pg_faults := fs\<rparr>)
     | None # fs \<Rightarrow> m (conn\<lparr>pg_faults := fs\<rparr>)
     | [] \<Rightarrow> m conn)"

abbreviation on_contracts :: "(Contract table, 'a, db_error) io \<Rightarrow> (pg, 'a, db_error) io" where
  "on_contracts \<equiv> on_part contracts (\<lambda>t conn. conn\<lparr>contracts := t\<rparr>)"

abbreviation on_events :: "(Event table, 'a, db_error) io \<Rightarrow> (pg, 'a, db_error) io" where
  "on_events \<equiv> on_part events (\<lambda>t conn. conn\<lparr>events := t\<rparr>)"

section \<open>The statements of storage/common\<close>

definition opt_filter :: "('r \<Rightarrow> string) \<Rightarrow> string option \<Rightarrow> 'r \<Rightarrow> bool" where
  "opt_filter col x r = (case x of None \<Rightarrow> True | Some v \<Rightarrow> col r = v)"

definition db_get_contracts :: "ContractRequestParams \<Rightarrow> (pg, Contract list, db_error) io" where
  "db_get_contracts contract_params =
     stmt (\<lambda>conn.
       (Ok (sql_select (pg_order conn)
              (\<lambda>r. c_key r = crp_key contract_params
                 \<and> opt_filter c_state (crp_state contract_params) r
                 \<and> opt_filter c_uuid (crp_uuid contract_params) r)
              (contracts conn)), conn))"

definition db_create_contract :: "NewContract \<Rightarrow> (pg, Contract, db_error) io" where
  "db_create_contract contract =
     stmt (on_contracts (sql_insert contract_ident
       (\<lambda>i. \<lparr>c_id = i, c_uuid = nc_uuid contract, c_state = nc_state contract,
             c_content = nc_content contract, c_key = nc_key contract\<rparr>)))"

definition db_delete_contract :: "DeleteContract \<Rightarrow> (pg, nat, db_error) io" where
  "db_delete_contract contract =
     stmt (on_contracts (sql_delete (\<lambda>r. c_uuid r = dc_uuid contract \<and> c_key r = dc_key contract)))"

definition db_delete_all_contracts :: "string \<Rightarrow> (pg, nat, db_error) io" where
  "db_delete_all_contracts ckey = stmt (on_contracts (sql_delete (\<lambda>r. c_key r = ckey)))"

text \<open>
  \<open>#[derive(AsChangeset)]\<close>: the columns of the struct are set, an \<open>Option\<close> column only
  when it is \<open>Some\<close>.
\<close>

definition contract_changeset :: "UpdateContract \<Rightarrow> Contract \<Rightarrow> Contract" where
  "contract_changeset u r =
     r\<lparr>c_uuid := uc_uuid u,
       c_state := (case uc_state u of None \<Rightarrow> c_state r | Some s \<Rightarrow> s),
       c_content := (case uc_content u of None \<Rightarrow> c_content r | Some s \<Rightarrow> s),
       c_key := uc_key u\<rparr>"

definition db_update_contract :: "UpdateContract \<Rightarrow> (pg, nat, db_error) io" where
  "db_update_contract contract =
     stmt (on_contracts (sql_update
       (\<lambda>r. c_uuid r = uc_uuid contract \<and> c_key r = uc_key contract)
       (contract_changeset contract)))"

definition db_create_event :: "NewEvent \<Rightarrow> (pg, Event, db_error) io" where
  "db_create_event event =
     stmt (on_events (sql_insert event_ident
       (\<lambda>i. \<lparr>e_id = i, e_event_id = ne_event_id event, e_content = ne_content event,
             e_key = ne_key event\<rparr>)))"

definition event_changeset :: "UpdateEvent \<Rightarrow> Event \<Rightarrow> Event" where
  "event_changeset u r =
     r\<lparr>e_event_id := ue_event_id u, e_content := ue_content u, e_key := ue_key u\<rparr>"

definition db_update_event :: "UpdateEvent \<Rightarrow> (pg, nat, db_error) io" where
  "db_update_event event =
     stmt (on_events (sql_update
       (\<lambda>r. e_event_id r = ue_event_id event \<and> e_key r = ue_key event)
       (event_changeset event)))"

definition db_get_events :: "EventRequestParams \<Rightarrow> (pg, Event list, db_error) io" where
  "db_get_events event =
     stmt (\<lambda>conn.
       (Ok (sql_select (pg_order conn)
              (\<lambda>r. e_key r = erp_key event \<and> opt_filter e_event_id (erp_event_id event) r)
              (events conn)), conn))"

definition db_delete_event :: "DeleteEvent \<Rightarrow> (pg, nat, db_error) io" where
  "db_delete_event event =
     stmt (on_events (sql_delete (\<lambda>r. e_event_id r = de_event_id event \<and> e_key r = de_key event)))"

definition db_delete_all_events :: "string \<Rightarrow> (pg, nat, db_error) io" where
  "db_delete_all_events ckey = stmt (on_events (sql_delete (\<lambda>r. e_key r = ckey)))"

section \<open>The reader and writer crates\<close>

definition reader_get_contracts :: "ContractRequestParams \<Rightarrow> (pg, Contract list, db_error) io" where
  "reader_get_contracts contract_params = db_get_contracts contract_params"

definition reader_get_events :: "EventRequestParams \<Rightarrow> (pg, Event list, db_error) io" where
  "reader_get_events event_params = db_get_events event_params"

definition writer_create_contract :: "NewContract \<Rightarrow> (pg, Contract, db_error) io" where
  "writer_create_contract contract = db_create_contract contract"

definition writer_update_contract :: "UpdateContract \<Rightarrow> (pg, nat, db_error) io" where
  "writer_update_contract contract = db_update_contract contract"

definition writer_delete_contract :: "DeleteContract \<Rightarrow> (pg, nat, db_error) io" where
  "writer_delete_contract contract = db_delete_contract contract"

definition writer_delete_all_contracts :: "string \<Rightarrow> (pg, nat, db_error) io" where
  "writer_delete_all_contracts ckey = db_delete_all_contracts ckey"

definition writer_create_event :: "NewEvent \<Rightarrow> (pg, Event, db_error) io" where
  "writer_create_event event = db_create_event event"

definition writer_update_event :: "UpdateEvent \<Rightarrow> (pg, nat, db_error) io" where
  "writer_update_event event = db_update_event event"

definition writer_delete_event :: "DeleteEvent \<Rightarrow> (pg, nat, db_error) io" where
  "writer_delete_event event = db_delete_event event"

definition writer_delete_events :: "string \<Rightarrow> (pg, nat, db_error) io" where
  "writer_delete_events ckey = db_delete_all_events ckey"

lemmas crate_defs =
  reader_get_contracts_def reader_get_events_def writer_create_contract_def
  writer_update_contract_def writer_delete_contract_def writer_delete_all_contracts_def
  writer_create_event_def writer_update_event_def writer_delete_event_def writer_delete_events_def

section \<open>The contract of both tables\<close>

definition pg_ok :: "pg \<Rightarrow> bool" where
  "pg_ok conn \<longleftrightarrow> order_ok (pg_order conn)
     \<and> table_ok contract_ident c_id (contracts conn) \<and> table_ok event_ident e_id (events conn)"

definition contract_view :: "pg \<Rightarrow> string \<times> string \<Rightarrow> Contract option" where
  "contract_view conn = tview contract_ident (contracts conn)"

definition event_view :: "pg \<Rightarrow> string \<times> string \<Rightarrow> Event option" where
  "event_view conn = tview event_ident (events conn)"

lemma pg_ok_fields [simp]:
  "pg_ok (conn\<lparr>pg_faults := fs\<rparr>) = pg_ok conn"
  "contract_view (conn\<lparr>pg_faults := fs\<rparr>) = contract_view conn"
  "event_view (conn\<lparr>pg_faults := fs\<rparr>) = event_view conn"
  "contract_view (conn\<lparr>events := et\<rparr>) = contract_view conn"
  "event_view (conn\<lparr>contracts := ct\<rparr>) = event_view conn"
  by (simp_all add: pg_ok_def contract_view_def event_view_def)

text \<open>A statement either reports the next fault and changes no table, or runs.\<close>

lemma wp_stmtI:
  assumes "\<And>e fs. Q (Err e) (conn\<lparr>pg_faults := fs\<rparr>)" "\<And>fs. wp m Q (conn\<lparr>pg_faults := fs\<rparr>)"
  shows "wp (stmt m) Q conn"
proof -
  have "conn\<lparr>pg_faults := pg_faults conn\<rparr> = conn" by simp
  with assms(2) have "wp m Q conn" by metis
  with assms show ?thesis
    by (auto simp: wp_def stmt_def split: list.split option.split)
qed

definition made_contract :: "NewContract \<Rightarrow> Contract \<Rightarrow> bool" where
  "made_contract n r \<longleftrightarrow> c_uuid r = nc_uuid n \<and> c_state r = nc_state n
     \<and> c_content r = nc_content n \<and> c_key r = nc_key n"

lemma contract_where:
  "(\<lambda>r. c_uuid r = u \<and> c_key r = k) = (\<lambda>r. contract_ident r = (k, u))"
  by (auto simp: contract_ident_def)

lemma event_where:
  "(\<lambda>r. e_event_id r = u \<and> e_key r = k) = (\<lambda>r. event_ident r = (k, u))"
  by (auto simp: event_ident_def)

lemma ident_select:
  "(\<lambda>r. c_key r = k \<and> opt_filter c_state None r \<and> opt_filter c_uuid (Some u) r)
     = (\<lambda>r. contract_ident r = (k, u))"
  "(\<lambda>r. e_key r = k \<and> opt_filter e_event_id (Some u) r) = (\<lambda>r. event_ident r = (k, u))"
  by (auto simp: opt_filter_def contract_ident_def event_ident_def)

definition select_contract :: "string \<times> string \<Rightarrow> (pg, Contract list, db_error) io" where
  "select_contract k =
     db_get_contracts \<lparr>crp_key = fst k, crp_uuid = Some (snd k), crp_state = None\<rparr>"

definition select_event :: "string \<times> string \<Rightarrow> (pg, Event list, db_error) io" where
  "select_event k = db_get_events \<lparr>erp_key = fst k, erp_event_id = Some (snd k)\<rparr>"

definition made_event :: "NewEvent \<Rightarrow> Event \<Rightarrow> bool" where
  "made_event n r \<longleftrightarrow>
     e_event_id r = ne_event_id n \<and> e_content r = ne_content n \<and> e_key r = ne_key n"

lemmas db_defs =
  db_get_contracts_def db_create_contract_def db_delete_contract_def db_update_contract_def
  db_get_events_def db_create_event_def db_delete_event_def db_update_event_def

lemma changeset_ident [simp]:
  "contract_ident (contract_changeset u r) = (uc_key u, uc_uuid u)"
  "c_id (contract_changeset u r) = c_id r"
  "event_ident (event_changeset v e) = (ue_key v, ue_event_id v)"
  "e_id (event_changeset v e) = e_id e"
  by (simp_all add: contract_ident_def contract_changeset_def event_ident_def event_changeset_def)

lemma on_contracts_ok:
  "pg_ok conn \<Longrightarrow> table_ok contract_ident c_id (contracts conn)"
  "pg_ok conn \<Longrightarrow> table_ok contract_ident c_id t \<Longrightarrow> pg_ok (conn\<lparr>contracts := t\<rparr>)"
  by (simp_all add: pg_ok_def)

lemma on_events_ok:
  "pg_ok conn \<Longrightarrow> table_ok event_ident e_id (events conn)"
  "pg_ok conn \<Longrightarrow> table_ok event_ident e_id t \<Longrightarrow> pg_ok (conn\<lparr>events := t\<rparr>)"
  by (simp_all add: pg_ok_def)

interpretation contracts_tbl: keyed_table
  "\<lambda>n. (nc_key n, nc_uuid n)" "\<lambda>u. (uc_key u, uc_uuid u)" "\<lambda>d. (dc_key d, dc_uuid d)"
  db_create_contract select_contract db_update_contract db_delete_contract
  made_contract contract_changeset contract_view pg_ok
proof
  fix w :: pg and k n u d
  assume ok: "pg_ok w"
  note tbl = on_contracts_ok(1) [OF ok]
  show "wp (select_contract k)
     (\<lambda>res w'. pg_ok w' \<and> contract_view w' = contract_view w \<and> (\<forall>rs. res = Ok rs \<longrightarrow> rs = one_row (contract_view w k))) w"
    unfolding select_contract_def db_get_contracts_def
    by (rule wp_stmtI)
      (use ok tbl in \<open>simp_all add: wp_def ident_select pg_ok_def contract_view_def one_row_def select_ident\<close>)
  show "wp (db_create_contract n) (\<lambda>res w'. pg_ok w' \<and> (case res of
          Ok r \<Rightarrow> contract_view w (nc_key n, nc_uuid n) = None \<and> made_contract n r
             \<and> contract_view w' = (contract_view w)((nc_key n, nc_uuid n) \<mapsto> r)
        | _ \<Rightarrow> contract_view w' = contract_view w)) w"
    unfolding db_create_contract_def
    by (rule wp_stmtI)
      (use ok in \<open>auto simp: wp_simps contract_ident_def made_contract_def contract_view_def on_contracts_ok
         split: outcome.splits intro!: wp_mono [OF wp_sql_insert [where k = "(nc_key n, nc_uuid n)" and idc = c_id]]\<close>)
  show "wp (db_update_contract u) (\<lambda>res w'. pg_ok w' \<and> (case res of
          Ok c \<Rightarrow> c = (if contract_view w (uc_key u, uc_uuid u) = None then 0 else 1)
            \<and> contract_view w' = (contract_view w)((uc_key u, uc_uuid u) :=
                map_option (contract_changeset u) (contract_view w (uc_key u, uc_uuid u)))
        | _ \<Rightarrow> contract_view w' = contract_view w)) w"
    unfolding db_update_contract_def contract_where
    by (rule wp_stmtI)
      (use ok in \<open>auto simp: wp_simps contract_view_def on_contracts_ok
         intro!: wp_mono [OF wp_sql_update [where idc = c_id]]\<close>)
  show "wp (db_delete_contract d) (\<lambda>res w'. pg_ok w' \<and> (case res of
          Ok c \<Rightarrow> c = (if contract_view w (dc_key d, dc_uuid d) = None then 0 else 1)
            \<and> contract_view w' = (contract_view w)((dc_key d, dc_uuid d) := None)
        | _ \<Rightarrow> contract_view w' = contract_view w)) w"
    unfolding db_delete_contract_def contract_where
    by (rule wp_stmtI)
      (use ok in \<open>auto simp: wp_simps contract_view_def on_contracts_ok
         intro!: wp_mono [OF wp_sql_delete [where idc = c_id]]\<close>)
qed

interpretation events_tbl: keyed_table
  "\<lambda>n. (ne_key n, ne_event_id n)" "\<lambda>u. (ue_key u, ue_event_id u)" "\<lambda>d. (de_key d, de_event_id d)"
  db_create_event select_event db_update_event db_delete_event
  made_event event_changeset event_view pg_ok
proof
  fix w :: pg and k n u d
  assume ok: "pg_ok w"
  note tbl = on_events_ok(1) [OF ok]
  show "wp (select_event k)
     (\<lambda>res w'. pg_ok w' \<and> event_view w' = event_view w \<and> (\<forall>rs. res = Ok rs \<longrightarrow> rs = one_row (event_view w k))) w"
    unfolding select_event_def db_get_events_def
    by (rule wp_stmtI)
      (use ok tbl in \<open>simp_all add: wp_def ident_select pg_ok_def event_view_def one_row_def select_ident\<close>)
  show "wp (db_create_event n) (\<lambda>res w'. pg_ok w' \<and> (case res of
          Ok r \<Rightarrow> event_view w (ne_key n, ne_event_id n) = None \<and> made_event n r
             \<and> event_view w' = (event_view w)((ne_key n, ne_event_id n) \<mapsto> r)
        | _ \<Rightarrow> event_view w' = event_view w)) w"
    unfolding db_create_event_def
    by (rule wp_stmtI)
      (use ok in \<open>auto simp: wp_simps event_ident_def made_event_def event_view_def on_events_ok
         split: outcome.splits intro!: wp_mono [OF wp_sql_insert [where k = "(ne_key n, ne_event_id n)" and idc = e_id]]\<close>)
  show "wp (db_update_event u) (\<lambda>res w'. pg_ok w' \<and> (case res of
          Ok c \<Rightarrow> c = (if event_view w (ue_key u, ue_event_id u) = None then 0 else 1)
            \<and> event_view w' = (event_view w)((ue_key u, ue_event_id u) :=
                map_option (event_changeset u) (event_view w (ue_key u, ue_event_id u)))
        | _ \<Rightarrow> event_view w' = event_view w)) w"
    unfolding db_update_event_def event_where
    by (rule wp_stmtI)
      (use ok in \<open>auto simp: wp_simps event_view_def on_events_ok
         intro!: wp_mono [OF wp_sql_update [where idc = e_id]]\<close>)
  show "wp (db_delete_event d) (\<lambda>res w'. pg_ok w' \<and> (case res of
          Ok c \<Rightarrow> c = (if event_view w (de_key d, de_event_id d) = None then 0 else 1)
            \<and> event_view w' = (event_view w)((de_key d, de_event_id d) := None)
        | _ \<Rightarrow> event_view w' = event_view w)) w"
    unfolding db_delete_event_def event_where
    by (rule wp_stmtI)
      (use ok in \<open>auto simp: wp_simps event_view_def on_events_ok
         intro!: wp_mono [OF wp_sql_delete [where idc = e_id]]\<close>)
qed

section \<open>Filtered selects, bulk deletes, frames\<close>

definition contract_matches :: "ContractRequestParams \<Rightarrow> Contract \<Rightarrow> bool" where
  "contract_matches q r \<longleftrightarrow> c_key r = crp_key q
     \<and> opt_filter c_state (crp_state q) r \<and> opt_filter c_uuid (crp_uuid q) r"

lemma get_contracts_law:
  assumes "pg_ok w"
  shows "wp (db_get_contracts q) (\<lambda>res w'. pg_ok w' \<and> contract_view w' = contract_view w \<and>
     (\<forall>rs. res = Ok rs \<longrightarrow> distinct rs \<and>
        set rs = {r. contract_view w (contract_ident r) = Some r \<and> contract_matches q r})) w"
proof -
  note tbl = on_contracts_ok(1) [OF assms]
  have order: "order_ok (pg_order w)" using assms by (simp add: pg_ok_def)
  have "distinct (rows (contracts w))"
    using tbl by (simp add: table_ok_def distinct_map)
  then have "distinct (sql_select (pg_order w) p (contracts w))" for p
    using mset_sql_select [OF order, of p "contracts w"] by (metis distinct_filter mset_eq_imp_distinct_iff)
  then show ?thesis
    unfolding db_get_contracts_def
    by (intro wp_stmtI)
      (auto simp: wp_def assms set_sql_select [OF order] contract_view_def tview_Some_iff [OF tbl]
        contract_matches_def)
qed

definition event_matches :: "EventRequestParams \<Rightarrow> Event \<Rightarrow> bool" where
  "event_matches q r \<longleftrightarrow> e_key r = erp_key q \<and> opt_filter e_event_id (erp_event_id q) r"

lemma get_events_law:
  assumes "pg_ok w"
  shows "wp (db_get_events q) (\<lambda>res w'. pg_ok w' \<and> event_view w' = event_view w \<and>
     (\<forall>rs. res = Ok rs \<longrightarrow> distinct rs \<and>
        set rs = {r. event_view w (event_ident r) = Some r \<and> event_matches q r})) w"
proof -
  note tbl = on_events_ok(1) [OF assms]
  have order: "order_ok (pg_order w)" using assms by (simp add: pg_ok_def)
  have "distinct (rows (events w))"
    using tbl by (simp add: table_ok_def distinct_map)
  then have "distinct (sql_select (pg_order w) p (events w))" for p
    using mset_sql_select [OF order, of p "events w"] by (metis distinct_filter mset_eq_imp_distinct_iff)
  then show ?thesis
    unfolding db_get_events_def
    by (intro wp_stmtI)
      (auto simp: wp_def assms set_sql_select [OF order] event_view_def tview_Some_iff [OF tbl]
        event_matches_def)
qed

lemma delete_all_contracts_law:
  assumes "pg_ok w"
  shows "wp (db_delete_all_contracts ckey) (\<lambda>res w'. pg_ok w' \<and>
     (case res of
        Ok c \<Rightarrow> contract_view w' = (\<lambda>k. if fst k = ckey then None else contract_view w k)
      | _ \<Rightarrow> contract_view w' = contract_view w)) w"
  unfolding db_delete_all_contracts_def
proof (rule wp_stmtI)
  fix fs
  note tbl = on_contracts_ok(1) [OF assms]
  let ?w = "w\<lparr>pg_faults := fs\<rparr>"
  show "wp (on_contracts (sql_delete (\<lambda>r. c_key r = ckey))) (\<lambda>res w'. pg_ok w' \<and>
     (case res of
        Ok c \<Rightarrow> contract_view w' = (\<lambda>k. if fst k = ckey then None else contract_view w k)
      | _ \<Rightarrow> contract_view w' = contract_view w)) ?w"
    unfolding wp_simps
  proof (rule wpI)
    fix res t'
    assume run: "sql_delete (\<lambda>r. c_key r = ckey) (contracts ?w) = (res, t')"
    then have run': "sql_delete (\<lambda>r. c_key r = ckey) (contracts w) = (res, t')" by simp
    have "tview contract_ident t' = (\<lambda>k. if fst k = ckey then None else contract_view w k)"
    proof
      fix k
      have "tview contract_ident (contracts w) k = Some r \<Longrightarrow> fst k = c_key r" for r
        by (auto simp: tview_Some_iff [OF tbl] contract_ident_def)
      then show "tview contract_ident t' k = (if fst k = ckey then None else contract_view w k)"
        by (cases "tview contract_ident (contracts w) k")
          (auto simp: delete_where_view [OF tbl run'] contract_view_def)
    qed
    moreover have "is_ok res" using run by (auto simp: sql_delete_def)
    ultimately show "pg_ok (?w\<lparr>contracts := t'\<rparr>) \<and>
       (case res of
          Ok c \<Rightarrow> contract_view (?w\<lparr>contracts := t'\<rparr>) = (\<lambda>k. if fst k = ckey then None else contract_view w k)
        | _ \<Rightarrow> contract_view (?w\<lparr>contracts := t'\<rparr>) = contract_view w)"
      using assms delete_ok [OF tbl run'] by (cases res) (simp_all add: pg_ok_def contract_view_def)
  qed
qed (use assms in simp)

lemma stmt_moves:
  assumes "\<And>conn fs. R conn (conn\<lparr>pg_faults := fs\<rparr>)" "transp R" "moves R m"
  shows "moves R (stmt m)"
proof -
  have "R conn (snd (m (conn\<lparr>pg_faults := fs\<rparr>)))" for conn fs
    using assms unfolding moves_def by (meson transpD)
  moreover have "R conn (snd (m conn))" for conn
    using assms(3) by (simp add: moves_def)
  ultimately show ?thesis
    using assms(1) unfolding moves_def stmt_def by (auto split: list.split option.split)
qed

lemma contract_ops_frame:
  "moves (\<lambda>w w'. event_view w' = event_view w) (db_get_contracts q)"
  "moves (\<lambda>w w'. event_view w' = event_view w) (db_create_contract n)"
  "moves (\<lambda>w w'. event_view w' = event_view w) (db_update_contract u)"
  "moves (\<lambda>w w'. event_view w' = event_view w) (db_delete_contract d)"
  "moves (\<lambda>w w'. event_view w' = event_view w) (db_delete_all_contracts ck)"
  unfolding db_defs db_delete_all_contracts_def
  by (intro stmt_moves; auto simp: moves_def on_part_def transp_def split: prod.split)+

lemma event_ops_frame:
  "moves (\<lambda>w w'. contract_view w' = contract_view w) (db_get_events eq)"
  "moves (\<lambda>w w'. contract_view w' = contract_view w) (db_create_event en)"
  "moves (\<lambda>w w'. contract_view w' = contract_view w) (db_update_event eu)"
  "moves (\<lambda>w w'. contract_view w' = contract_view w) (db_delete_event ed)"
  "moves (\<lambda>w w'. contract_view w' = contract_view w) (db_delete_all_events ck)"
  unfolding db_defs db_delete_all_events_def
  by (intro stmt_moves; auto simp: moves_def on_part_def transp_def split: prod.split)+

section \<open>Properties of the statements\<close>

definition demo_pg :: pg where
  "demo_pg = \<lparr>contracts = \<lparr>rows = [], serial = 1\<rparr>, events = \<lparr>rows = [], serial = 1\<rparr>,
     pg_faults = [], pg_order = (\<lambda>n. [0..<n])\<rparr>"

definition demo_row :: Contract where
  "demo_row = \<lparr>c_id = 1, c_uuid = ''u'', c_state = ''offered'', c_content = ''c'', c_key = ''k''\<rparr>"

definition demo_stocked_pg :: pg where
  "demo_stocked_pg = demo_pg\<lparr>contracts := \<lparr>rows = [demo_row], serial = 2\<rparr>\<rparr>"

lemma demo_pg_ok: "pg_ok demo_pg" "pg_ok demo_stocked_pg"
  by (simp_all add: demo_stocked_pg_def demo_pg_def demo_row_def pg_ok_def order_ok_def table_ok_def)

lemma create_contract_free:
  assumes "db_create_contract n w = (res, w')" "pg_faults w = []" "serial (contracts w) \<le> i32_max"
    and "contract_view w (nc_key n, nc_uuid n) = None"
  shows "\<exists>r. res = Ok r \<and> c_id r = serial (contracts w)"
proof -
  have "(nc_key n, nc_uuid n) \<notin> contract_ident ` set (rows (contracts w))"
    using assms(4) by (simp add: contract_view_def tview_None_iff)
  with assms(1-3) show ?thesis
    by (auto simp: db_create_contract_def stmt_def on_part_def sql_insert_def contract_ident_def Let_def)
qed

text \<open>
  Creating a contract row succeeds exactly when its (key, uuid) is free (given no database
  fault and a serial within i32), stores the four given fields, touches no other row, and an
  insert that fails stores nothing.
\<close>

theorem create_contract_row:
  assumes "pg_ok w" "db_create_contract n w = (res, w')"
  shows "pg_ok w' \<and>
    (case res of
       Ok r \<Rightarrow> contract_view w (nc_key n, nc_uuid n) = None \<and> made_contract n r
         \<and> contract_view w' = (contract_view w)((nc_key n, nc_uuid n) \<mapsto> r)
     | _ \<Rightarrow> contract_view w' = contract_view w) \<and>
    (pg_faults w = [] \<and> serial (contracts w) \<le> i32_max \<longrightarrow>
       (is_ok res \<longleftrightarrow> contract_view w (nc_key n, nc_uuid n) = None))"
proof -
  have "is_ok res" if "pg_faults w = []" "serial (contracts w) \<le> i32_max"
    "contract_view w (nc_key n, nc_uuid n) = None"
    using create_contract_free [OF assms(2) that] by auto
  with contracts_tbl.create_run [OF assms] show ?thesis
    by (cases res) auto
qed

theorem create_contract_row_witness:
  "\<exists>r w'. db_create_contract \<lparr>nc_uuid = ''v'', nc_state = ''s'', nc_content = ''x'', nc_key = ''k''\<rparr>
       demo_stocked_pg = (Ok r, w')
     \<and> contract_view w' = (contract_view demo_stocked_pg)((''k'', ''v'') \<mapsto> r)"
proof -
  obtain res w' where run: "db_create_contract
    \<lparr>nc_uuid = ''v'', nc_state = ''s'', nc_content = ''x'', nc_key = ''k''\<rparr> demo_stocked_pg = (res, w')"
    by fastforce
  have "contract_view demo_stocked_pg (''k'', ''v'') = None"
    by (simp add: contract_view_def tview_def demo_stocked_pg_def demo_pg_def demo_row_def contract_ident_def)
  with create_contract_row [OF demo_pg_ok(2) run] run show ?thesis
    by (cases res) (auto simp: demo_stocked_pg_def demo_pg_def i32_max_def)
qed

text \<open>
  A select returns, in some order and without duplicates, exactly the rows of the key that
  pass the optional filters on state and uuid, and changes nothing.
\<close>

theorem get_contracts_exact:
  assumes "pg_ok w" "db_get_contracts q w = (Ok rs, w')"
  shows "contract_view w' = contract_view w \<and> distinct rs \<and>
    set rs = {r. contract_view w (contract_ident r) = Some r \<and> contract_matches q r}"
  using wp_run [OF get_contracts_law [OF assms(1)] assms(2)] by simp

theorem get_contracts_exact_witness:
  "\<exists>rs w'. db_get_contracts \<lparr>crp_key = ''k'', crp_uuid = None, crp_state = Some ''offered''\<rparr> demo_stocked_pg
      = (Ok rs, w') \<and>
    set rs = {r. contract_view demo_stocked_pg (contract_ident r) = Some r
       \<and> contract_matches \<lparr>crp_key = ''k'', crp_uuid = None, crp_state = Some ''offered''\<rparr> r}"
  using get_contracts_exact [OF demo_pg_ok(2),
      of "\<lparr>crp_key = ''k'', crp_uuid = None, crp_state = Some ''offered''\<rparr>" "[demo_row]" demo_stocked_pg]
  by (simp add: db_get_contracts_def stmt_def demo_stocked_pg_def demo_pg_def sql_select_def demo_row_def
      opt_filter_def)

text \<open>
  An update changes only the row of its (key, uuid): an \<open>Option\<close> column that is absent
  keeps its value, every other row is untouched, and the reported count is 1 exactly when the
  row exists.
\<close>

theorem update_contract_row:
  assumes "pg_ok w" "db_update_contract u w = (Ok c, w')"
  shows "c = (if contract_view w (uc_key u, uc_uuid u) = None then 0 else 1)
    \<and> (\<forall>k. k \<noteq> (uc_key u, uc_uuid u) \<longrightarrow> contract_view w' k = contract_view w k)
    \<and> (\<forall>r. contract_view w (uc_key u, uc_uuid u) = Some r \<longrightarrow>
         (\<exists>r'. contract_view w' (uc_key u, uc_uuid u) = Some r'
            \<and> c_state r' = (case uc_state u of None \<Rightarrow> c_state r | Some s \<Rightarrow> s)
            \<and> c_content r' = (case uc_content u of None \<Rightarrow> c_content r | Some t \<Rightarrow> t)
            \<and> c_id r' = c_id r))"
  using contracts_tbl.update_run [OF assms] by (auto simp: contract_changeset_def)

theorem update_contract_row_witness:
  "\<exists>w' r'. db_update_contract \<lparr>uc_uuid = ''u'', uc_state = Some ''signed'', uc_content = None, uc_key = ''k''\<rparr>
      demo_stocked_pg = (Ok 1, w')
    \<and> contract_view w' (''k'', ''u'') = Some r' \<and> c_state r' = ''signed'' \<and> c_content r' = ''c''"
proof -
  let ?u = "\<lparr>uc_uuid = ''u'', uc_state = Some ''signed'', uc_content = None, uc_key = ''k''\<rparr>"
  obtain c w' where run: "db_update_contract ?u demo_stocked_pg = (Ok c, w')"
    by (simp add: db_update_contract_def stmt_def on_part_def sql_update_def demo_stocked_pg_def demo_pg_def)
  have "contract_view demo_stocked_pg (''k'', ''u'') = Some demo_row"
    by (simp add: contract_view_def tview_def demo_stocked_pg_def demo_pg_def demo_row_def contract_ident_def)
  with update_contract_row [OF demo_pg_ok(2) run] run show ?thesis
    by (auto simp: demo_row_def)
qed

end
