(* ===== verification/Http.thy ===== *)
theory Http
  imports Json
begin

text \<open>
  Requests and responses as the HTTP handlers of the stack see them: the method, the path,
  the decoded query pairs, the \<open>authorization\<close> header, whether the content type is JSON,
  and the payload (\<open>None\<close> when reading it fails). Extractors of actix that the handlers
  rely on: the query pairs by name (a repeated name is an error) and the JSON body.
\<close>

datatype http_method = GET | POST | PUT | DELETE | OPTIONS | OTHER string

record http_request =
  rq_method :: http_method
  rq_path :: string
  rq_query :: "(string \<times> string) list"
  rq_auth :: "string option"
  rq_is_json :: bool
  rq_body :: "string option"

record http_response =
  rs_status :: nat
  rs_body :: string

definition starts_with :: "string \<Rightarrow> string \<Rightarrow> bool" where
  "starts_with s p \<longleftrightarrow> take (length p) s = p"

fun contains :: "string \<Rightarrow> string \<Rightarrow> bool" where
  "contains [] p = (p = [])"
| "contains (c # cs) p = (starts_with (c # cs) p \<or> contains cs p)"

definition ends_with :: "string \<Rightarrow> char \<Rightarrow> bool" where
  "ends_with s c \<longleftrightarrow> s \<noteq> [] \<and> last s = c"

lemma starts_with_contains: "starts_with s p \<Longrightarrow> contains s p"
  by (cases s) (auto simp: starts_with_def)

definition respond :: "nat \<Rightarrow> string \<Rightarrow> http_response" where
  "respond st b = \<lparr>rs_status = st, rs_body = b\<rparr>"

lemma respond_simps [simp]: "rs_status (respond st b) = st" "rs_body (respond st b) = b"
  by (simp_all add: respond_def)

fun q_opt :: "(string \<times> string) list \<Rightarrow> string \<Rightarrow> string option option" where
  "q_opt q k = (case filter (\<lambda>kv. fst kv = k) q of
       [] \<Rightarrow> Some None
     | [kv] \<Rightarrow> Some (Some (snd kv))
     | _ \<Rightarrow> None)"

definition q_req :: "(string \<times> string) list \<Rightarrow> string \<Rightarrow> string option" where
  "q_req q k = (case q_opt q k of Some (Some v) \<Rightarrow> Some v | _ \<Rightarrow> None)"

definition json_body :: "web_ext \<Rightarrow> (json \<Rightarrow> 'a option) \<Rightarrow> http_request \<Rightarrow> 'a option" where
  "json_body e f req =
     (if rq_is_json req then
        (case rq_body req of None \<Rightarrow> None | Some b \<Rightarrow> Option.bind (jparse e b) f)
      else None)"

end
