(* ===== verification/Storage_Api.thy ===== *)
theory Storage_Api
  imports Storage_Db Http
begin

text \<open>
  The storage API service (\<open>storage/api/src\<close>): the server's state (the database and the
  ring of nonces), the handlers of \<open>contracts.rs\<close> and \<open>events.rs\<close>, the nonce endpoint and
  the nonce-consuming layer of \<open>main.rs\<close>, and the signature middleware of
  \<open>verify_sigs.rs\<close>. actix runs the layer that was registered last first, so a request goes
  through the verifier, then through the nonce layer, then to the handler of its route.

  The environment shows as schedules in the state: the random samples the server draws, and
  whether the pool has a connection for the next request. A panicking handler answers
  nothing (\<open>Panic\<close>).
\<close>

section \<open>State\<close>

record server =
  srv_pg :: pg
  srv_nonces :: "string list"
  srv_rng :: "nat \<Rightarrow> string"
  srv_draws :: nat
  srv_pool :: "bool list"

definition NONCE_VEC_LENGTH :: nat where
  "NONCE_VEC_LENGTH = 100"

definition unprotected_paths :: "string list" where
  "unprotected_paths = [''/health'', ''/request_nonce'']"

type_synonym handler = "(server, http_response, unit) io"

definition on_pg :: "(pg, 'a, 'e) io \<Rightarrow> (server, 'a, 'e) io" where
  "on_pg = on_part srv_pg (\<lambda>c s. s\<lparr>srv_pg := c\<rparr>)"

text \<open>\<open>pool.get().expect(..)\<close>\<close>

definition pool_get :: "(server, unit, 'e) io" where
  "pool_get = (\<lambda>s. case srv_pool s of
       [] \<Rightarrow> (Ok (), s)
     | True # ps \<Rightarrow> (Ok (), s\<lparr>srv_pool := ps\<rparr>)
     | False # ps \<Rightarrow> (Panic, s\<lparr>srv_pool := ps\<rparr>))"

section \<open>Structs on the wire\<close>

definition contract_to_json :: "Contract \<Rightarrow> json" where
  "contract_to_json r = JObj [(''id'', JNum (c_id r)), (''uuid'', JStr (c_uuid r)),
     (''state'', JStr (c_state r)), (''content'', JStr (c_content r)), (''key'', JStr (c_key r))]"

definition event_to_json :: "Event \<Rightarrow> json" where
  "event_to_json r = JObj [(''id'', JNum (e_id r)), (''event_id'', JStr (e_event_id r)),
     (''content'', JStr (e_content r)), (''key'', JStr (e_key r))]"

definition new_contract_of_json :: "json \<Rightarrow> NewContract option" where
  "new_contract_of_json j =
     (case (req_str j ''uuid'', req_str j ''state'', req_str j ''content'', req_str j ''key'') of
        (Some u, Some s, Some c, Some k) \<Rightarrow> Some \<lparr>nc_uuid = u, nc_state = s, nc_content = c, nc_key = k\<rparr>
      | _ \<Rightarrow> None)"

definition update_contract_of_json :: "json \<Rightarrow> UpdateContract option" where
  "update_contract_of_json j =
     (case (req_str j ''uuid'', opt_str j ''state'', opt_str j ''content'', req_str j ''key'') of
        (Some u, Some s, Some c, Some k) \<Rightarrow> Some \<lparr>uc_uuid = u, uc_state = s, uc_content = c, uc_key = k\<rparr>
      | _ \<Rightarrow> None)"

definition delete_contract_of_json :: "json \<Rightarrow> DeleteContract option" where
  "delete_contract_of_json j =
     (case (req_str j ''uuid'', req_str j ''key'') of
        (Some u, Some k) \<Rightarrow> Some \<lparr>dc_uuid = u, dc_key = k\<rparr>
      | _ \<Rightarrow> None)"

definition contract_params_of_query :: "(string \<times> string) list \<Rightarrow> ContractRequestParams option" where
  "contract_params_of_query q =
     (case (q_req q ''key'', q_opt q ''uuid'', q_opt q ''state'') of
        (Some k, Some u, Some s) \<Rightarrow> Some \<lparr>crp_key = k, crp_uuid = u, crp_state = s\<rparr>
      | _ \<Rightarrow> None)"

definition new_event_of_json :: "json \<Rightarrow> NewEvent option" where
  "new_event_of_json j =
     (case (req_str j ''event_id'', req_str j ''content'', req_str j ''key'') of
        (Some i, Some c, Some k) \<Rightarrow> Some \<lparr>ne_event_id = i, ne_content = c, ne_key = k\<rparr>
      | _ \<Rightarrow> None)"

definition update_event_of_json :: "json \<Rightarrow> UpdateEvent option" where
  "update_event_of_json j =
     (case (req_str j ''event_id'', req_str j ''content'', req_str j ''key'') of
        (Some i, Some c, Some k) \<Rightarrow> Some \<lparr>ue_event_id = i, ue_content = c, ue_key = k\<rparr>
      | _ \<Rightarrow> None)"

definition delete_event_of_json :: "json \<Rightarrow> DeleteEvent option" where
  "delete_event_of_json j =
     (case (req_str j ''event_id'', req_str j ''key'') of
        (Some i, Some k) \<Rightarrow> Some \<lparr>de_event_id = i, de_key = k\<rparr>
      | _ \<Rightarrow> None)"

definition event_params_of_query :: "(string \<times> string) list \<Rightarrow> EventRequestParams option" where
  "event_params_of_query q =
     (case (q_req q ''key'', q_opt q ''event_id'') of
        (Some k, Some i) \<Rightarrow> Some \<lparr>erp_key = k, erp_event_id = i\<rparr>
      | _ \<Rightarrow> None)"

section \<open>Responses\<close>

fun db_error_kind :: "db_error \<Rightarrow> string" where
  "db_error_kind UniqueViolation = ''unique violation''"
| "db_error_kind SerialExhausted = ''serial exhausted''"
| "db_error_kind (ConnectionError t) = t"

definition ok_json :: "web_ext \<Rightarrow> json \<Rightarrow> http_response" where
  "ok_json e j = respond 200 (jprint e j)"

definition db_bad_request :: "web_ext \<Rightarrow> db_error \<Rightarrow> http_response" where
  "db_bad_request e err = respond 400 (display_error e (db_error_kind err))"

definition effected :: "web_ext \<Rightarrow> nat \<Rightarrow> http_response" where
  "effected e n = ok_json e (JObj [(''effected_num'', JNum (int n))])"

text \<open>The JSON error handler of \<open>main.rs\<close> and the default answer of the query extractor.\<close>

definition json_bad_request :: "web_ext \<Rightarrow> http_response" where
  "json_bad_request e =
     respond 400 (''{'' @ [CHR 0x22] @ ''error'' @ [CHR 0x22] @ '':'' @ [CHR 0x22]
       @ display_error e ''json payload'' @ [CHR 0x22] @ ''}'')"

definition query_bad_request :: "web_ext \<Rightarrow> http_response" where
  "query_bad_request e = respond 400 (display_error e ''query'')"

section \<open>Handlers (contracts.rs, events.rs, main.rs)\<close>

definition get_health :: "web_ext \<Rightarrow> handler" where
  "get_health e = ret (ok_json e (JObj [(''data'',
     JArr [JObj [(''status'', JStr ''healthy''), (''message'', JStr [])]])]))"

text \<open>\<open>while nonces.len() >= NONCE_VEC_LENGTH { nonces.remove(0) }\<close>\<close>

function trim_nonces :: "string list \<Rightarrow> string list" where
  "trim_nonces ns = (if NONCE_VEC_LENGTH \<le> length ns then trim_nonces (tl ns) else ns)"
  by pat_completeness auto
termination
  by (relation "measure length") (auto simp: NONCE_VEC_LENGTH_def)

declare trim_nonces.simps [simp del]

definition request_nonce :: "handler" where
  "request_nonce = (\<lambda>s.
     let random_nonce = srv_rng s (srv_draws s)
     in (Ok (respond 200 random_nonce),
         s\<lparr>srv_nonces := trim_nonces (srv_nonces s) @ [random_nonce], srv_draws := Suc (srv_draws s)\<rparr>))"

definition get_contracts :: "web_ext \<Rightarrow> http_request \<Rightarrow> handler" where
  "get_contracts e req =
     (case contract_params_of_query (rq_query req) of
        None \<Rightarrow> ret (query_bad_request e)
      | Some contract_params \<Rightarrow>
          and_then pool_get (\<lambda>_.
          handle (on_pg (reader_get_contracts contract_params))
            (\<lambda>cs. ret (ok_json e (JArr (map contract_to_json cs))))
            (\<lambda>err. ret (db_bad_request e err))))"

definition create_contract :: "web_ext \<Rightarrow> http_request \<Rightarrow> handler" where
  "create_contract e req =
     (case json_body e new_contract_of_json req of
        None \<Rightarrow> ret (json_bad_request e)
      | Some contract_params \<Rightarrow>
          and_then pool_get (\<lambda>_.
          handle (on_pg (writer_create_contract contract_params))
            (\<lambda>contract. ret (ok_json e (contract_to_json contract)))
            (\<lambda>err. ret (db_bad_request e err))))"

definition update_contract :: "web_ext \<Rightarrow> http_request \<Rightarrow> handler" where
  "update_contract e req =
     (case json_body e update_contract_of_json req of
        None \<Rightarrow> ret (json_bad_request e)
      | Some contract_params \<Rightarrow>
          and_then pool_get (\<lambda>_.
          handle (on_pg (writer_update_contract contract_params))
            (\<lambda>num_updated. ret (if num_updated = 0 then respond 404 ''No contract found''
               else effected e num_updated))
            (\<lambda>err. ret (db_bad_request e err))))"

definition delete_contract :: "web_ext \<Rightarrow> http_request \<Rightarrow> handler" where
  "delete_contract e req =
     (case json_body e delete_contract_of_json req of
        None \<Rightarrow> ret (json_bad_request e)
      | Some contract_params \<Rightarrow>
          and_then pool_get (\<lambda>_.
          handle (on_pg (writer_delete_contract contract_params))
            (\<lambda>num_deleted. ret (if num_deleted = 0 then respond 404 ''No contract found''
               else effected e num_deleted))
            (\<lambda>err. ret (db_bad_request e err))))"

definition delete_contracts :: "web_ext \<Rightarrow> string \<Rightarrow> handler" where
  "delete_contracts e ckey =
     and_then pool_get (\<lambda>_.
     handle (on_pg (writer_delete_all_contracts ckey))
       (\<lambda>num_deleted. ret (effected e num_deleted))
       (\<lambda>err. panic))"

definition get_events :: "web_ext \<Rightarrow> http_request \<Rightarrow> handler" where
  "get_events e req =
     (case event_params_of_query (rq_query req) of
        None \<Rightarrow> ret (query_bad_request e)
      | Some event_params \<Rightarrow>
          and_then pool_get (\<lambda>_.
          handle (on_pg (reader_get_events event_params))
            (\<lambda>evs. ret (ok_json e (JArr (map event_to_json evs))))
            (\<lambda>err. panic)))"

definition create_event :: "web_ext \<Rightarrow> http_request \<Rightarrow> handler" where
  "create_event e req =
     (case json_body e new_event_of_json req of
        None \<Rightarrow> ret (json_bad_request e)
      | Some event \<Rightarrow>
          and_then pool_get (\<lambda>_.
          handle (on_pg (writer_create_event event))
            (\<lambda>event. ret (ok_json e (event_to_json event)))
            (\<lambda>err. ret (db_bad_request e err))))"

definition update_event :: "web_ext \<Rightarrow> http_request \<Rightarrow> handler" where
  "update_event e req =
     (case json_body e update_event_of_json req of
        None \<Rightarrow> ret (json_bad_request e)
      | Some event \<Rightarrow>
          and_then pool_get (\<lambda>_.
          handle (on_pg (writer_update_event event))
            (\<lambda>num_updated. ret (if num_updated = 0 then respond 404 ''No event found''
               else effected e num_updated))
            (\<lambda>err. ret (db_bad_request e err))))"

definition delete_event :: "web_ext \<Rightarrow> http_request \<Rightarrow> handler" where
  "delete_event e req =
     (case json_body e delete_event_of_json req of
        None \<Rightarrow> ret (json_bad_request e)
      | Some event \<Rightarrow>
          and_then pool_get (\<lambda>_.
          handle (on_pg (writer_delete_event event))
            (\<lambda>num_deleted. ret (if num_deleted = 0 then respond 404 ''No event found''
               else effected e num_deleted))
            (\<lambda>err. ret (db_bad_request e err))))"

definition delete_events :: "web_ext \<Rightarrow> string \<Rightarrow> handler" where
  "delete_events e ckey =
     and_then pool_get (\<lambda>_.
     handle (on_pg (writer_delete_events ckey))
       (\<lambda>num_deleted. ret (effected e num_deleted))
       (\<lambda>err. panic))"

section \<open>Routes (main.rs)\<close>

text \<open>The segment a route pattern \<open>prefix{ckey}\<close> captures, and its decoded text in \<open>Path<String>\<close>.\<close>

definition path_segment :: "string \<Rightarrow> string \<Rightarrow> string option" where
  "path_segment pre p =
     (let seg = drop (length pre) p
      in if starts_with p pre \<and> seg \<noteq> [] \<and> CHR ''/'' \<notin> set seg then Some seg else None)"

definition path_param :: "web_ext \<Rightarrow> string \<Rightarrow> string \<Rightarrow> string option" where
  "path_param e pre p = map_option (path_decode e) (path_segment pre p)"

definition route_delete :: "web_ext \<Rightarrow> http_request \<Rightarrow> handler" where
  "route_delete e req =
     (if rq_path req = ''/contract'' then delete_contract e req
      else if rq_path req = ''/event'' then delete_event e req
      else case path_param e ''/contracts/'' (rq_path req) of
        Some ckey \<Rightarrow> delete_contracts e ckey
      | None \<Rightarrow>
         (case path_param e ''/events/'' (rq_path req) of
            Some ckey \<Rightarrow> delete_events e ckey
          | None \<Rightarrow> ret (respond 404 [])))"

definition route :: "web_ext \<Rightarrow> http_request \<Rightarrow> handler" where
  "route e req = (let p = rq_path req in
     case rq_method req of
       GET \<Rightarrow> if p = ''/request_nonce'' then request_nonce
         else if p = ''/health'' then get_health e
         else if p = ''/contracts'' then get_contracts e req
         else if p = ''/events'' then get_events e req
         else ret (respond 404 [])
     | POST \<Rightarrow> if p = ''/contracts'' then create_contract e req
         else if p = ''/events'' then create_event e req
         else ret (respond 404 [])
     | PUT \<Rightarrow> if p = ''/contracts'' then update_contract e req
         else if p = ''/events'' then update_event e req
         else ret (respond 404 [])
     | DELETE \<Rightarrow> route_delete e req
     | _ \<Rightarrow> ret (respond 404 []))"

text \<open>The layer of \<open>wrap_fn\<close>: the nonce of the header, if there is one, is used up.\<close>

definition use_nonce :: "string \<Rightarrow> server \<Rightarrow> server" where
  "use_nonce n s = s\<lparr>srv_nonces := filter (\<lambda>m. m \<noteq> n) (srv_nonces s)\<rparr>"

definition nonce_layer :: "web_ext \<Rightarrow> http_request \<Rightarrow> handler" where
  "nonce_layer e req = (\<lambda>s.
     case rq_auth req of
       None \<Rightarrow> route e req s
     | Some header_nonce \<Rightarrow> route e req (use_nonce header_nonce s))"

section \<open>The signature middleware (verify\_sigs.rs)\<close>

record AuthenticatedMessage =
  am_message :: json
  am_public_key :: string
  am_signature :: string

definition authenticated_message_of_json :: "json \<Rightarrow> AuthenticatedMessage option" where
  "authenticated_message_of_json j =
     (case (req_val j ''message'', req_str j ''public_key'', req_str j ''signature'') of
        (Some m, Some pk, Some sg) \<Rightarrow> Some \<lparr>am_message = m, am_public_key = pk, am_signature = sg\<rparr>
      | _ \<Rightarrow> None)"

text \<open>The fields the middleware uses of the two query structs: the key and the signature.\<close>

definition event_auth_query :: "(string \<times> string) list \<Rightarrow> (string \<times> string) option" where
  "event_auth_query q =
     (case (q_req q ''key'', q_opt q ''event_id'', q_req q ''signature'') of
        (Some k, Some _, Some sg) \<Rightarrow> Some (k, sg)
      | _ \<Rightarrow> None)"

definition contract_auth_query :: "(string \<times> string) list \<Rightarrow> (string \<times> string) option" where
  "contract_auth_query q =
     (case (q_req q ''key'', q_opt q ''uuid'', q_opt q ''state'', q_req q ''signature'') of
        (Some k, Some _, Some _, Some sg) \<Rightarrow> Some (k, sg)
      | _ \<Rightarrow> None)"

definition verify_text :: "web_ext \<Rightarrow> string \<Rightarrow> string \<Rightarrow> string \<Rightarrow> bool" where
  "verify_text e sig_text key_text text =
     (case sig_from_str e sig_text of
        None \<Rightarrow> False
      | Some sg \<Rightarrow>
         (case pk_from_str e key_text of
            None \<Rightarrow> False
          | Some pk \<Rightarrow> ecdsa_verify e (sha256 e text) sg pk))"

definition verify_query_params :: "web_ext \<Rightarrow> string \<Rightarrow> string \<Rightarrow> string \<Rightarrow> bool" where
  "verify_query_params e sig_text key_text message = verify_text e sig_text key_text message"

definition verify_body :: "web_ext \<Rightarrow> AuthenticatedMessage \<Rightarrow> bool" where
  "verify_body e b = verify_text e (am_signature b) (am_public_key b) (jprint e (am_message b))"

definition forbid :: "handler \<Rightarrow> handler" where
  "forbid m = and_then m (\<lambda>res. ret (res\<lparr>rs_status := 403\<rparr>))"

definition verify_get ::
  "web_ext \<Rightarrow> ((string \<times> string) list \<Rightarrow> (string \<times> string) option) \<Rightarrow> string list \<Rightarrow> string
     \<Rightarrow> http_request \<Rightarrow> handler" where
  "verify_get e auth_query nonces auth_header_nonce req =
     (case auth_query (rq_query req) of
        None \<Rightarrow> panic
      | Some (key, signature) \<Rightarrow>
          if \<not> verify_query_params e signature key auth_header_nonce
             \<or> auth_header_nonce \<notin> set nonces
          then forbid (nonce_layer e req)
          else nonce_layer e req)"

definition verify_payload ::
  "web_ext \<Rightarrow> string list \<Rightarrow> string \<Rightarrow> http_request \<Rightarrow> handler" where
  "verify_payload e nonces auth_header_nonce req =
     (case rq_body req of
        None \<Rightarrow> panic
      | Some body \<Rightarrow>
          let taken = req\<lparr>rq_body := Some []\<rparr> in
          (case Option.bind (jparse e body) authenticated_message_of_json of
             None \<Rightarrow> forbid (nonce_layer e taken)
           | Some body_json \<Rightarrow>
              (case as_str (json_index (am_message body_json) ''nonce'') of
                 None \<Rightarrow> forbid (nonce_layer e taken)
               | Some message_nonce \<Rightarrow>
                   if \<not> verify_body e body_json
                      \<or> auth_header_nonce \<notin> set nonces
                      \<or> auth_header_nonce \<noteq> message_nonce
                   then forbid (nonce_layer e taken)
                   else nonce_layer e (req\<lparr>rq_body := Some (jprint e (am_message body_json))\<rparr>))))"

definition verifier :: "web_ext \<Rightarrow> http_request \<Rightarrow> handler" where
  "verifier e req = (\<lambda>s.
     if rq_path req \<in> set unprotected_paths then nonce_layer e req s
     else
       let nonces = srv_nonces s in
       case rq_auth req of
         None \<Rightarrow> nonce_layer e req s
       | Some header \<Rightarrow>
          (case header_to_str e header of
             None \<Rightarrow> forbid (nonce_layer e req) s
           | Some auth_header_nonce \<Rightarrow>
               if rq_method req = GET \<and> contains (rq_path req) ''/event''
               then verify_get e event_auth_query nonces auth_header_nonce req s
               else if rq_method req = GET \<and> contains (rq_path req) ''/contract''
               then verify_get e contract_auth_query nonces auth_header_nonce req s
               else verify_payload e nonces auth_header_nonce req s))"

text \<open>A request to the service: the verifier is the outermost layer.\<close>

definition serve :: "web_ext \<Rightarrow> http_request \<Rightarrow> handler" where
  "serve e req = verifier e req"

text \<open>A run of requests, one after the other; a panic loses only its own answer.\<close>

fun serve_all :: "web_ext \<Rightarrow> http_request list \<Rightarrow> server \<Rightarrow> server" where
  "serve_all e [] s = s"
| "serve_all e (req # reqs) s = serve_all e reqs (snd (serve e req s))"

end
