(* ===== verification/Storage_Api_Laws.thy ===== *)
theory Storage_Api_Laws
  imports Storage_Api
begin

text \<open>
  What the storage API keeps and promises: the nonce ring stays bounded and the tables stay
  well formed under every request; a request that carries a nonce and changes the database
  through a payload endpoint was signed over a message with that nonce, which was live; a
  used nonce is refused from then on. The last section records what the layering does not
  promise.
\<close>

section \<open>The ring of nonces\<close>

lemma trim_nonces_drop: "trim_nonces ns = drop (Suc (length ns) - NONCE_VEC_LENGTH) ns"
proof (induction ns rule: trim_nonces.induct)
  case (1 ns)
  show ?case
  proof (cases "NONCE_VEC_LENGTH \<le> length ns")
    case True
    then have "ns \<noteq> []" by (auto simp: NONCE_VEC_LENGTH_def)
    with True 1 have "trim_nonces ns = drop (Suc (length (tl ns)) - NONCE_VEC_LENGTH) (tl ns)"
      by (simp add: trim_nonces.simps [of ns])
    also have "\<dots> = drop (Suc (length ns) - NONCE_VEC_LENGTH) ns"
      using True \<open>ns \<noteq> []\<close> by (cases ns) (auto simp: Suc_diff_le)
    finally show ?thesis .
  next
    case False
    then show ?thesis by (simp add: trim_nonces.simps [of ns])
  qed
qed

lemma length_trim_nonces: "length (trim_nonces ns) < NONCE_VEC_LENGTH"
  by (simp add: trim_nonces_drop NONCE_VEC_LENGTH_def)

lemma set_trim_nonces: "set (trim_nonces ns) \<subseteq> set ns"
  by (simp add: trim_nonces_drop set_drop_subset)

section \<open>Relations kept by every request\<close>

text \<open>
  A relation between server states that every statement, the pool, the nonce endpoint and the
  nonce layer respect is respected by every request: the handlers only combine these.
\<close>

locale server_relation =
  fixes R :: "server \<Rightarrow> server \<Rightarrow> bool"
    and P :: "pg \<Rightarrow> pg \<Rightarrow> bool"
  assumes R_refl: "reflp R" and R_trans: "transp R"
    and R_pg: "P (srv_pg s) c \<Longrightarrow> R s (s\<lparr>srv_pg := c\<rparr>)"
    and R_pool: "R s (s\<lparr>srv_pool := tl (srv_pool s)\<rparr>)"
    and R_request_nonce: "moves R request_nonce"
    and R_use_nonce: "R s (use_nonce n s)"
    and P_contracts: "moves P (db_get_contracts q)" "moves P (db_create_contract nc)"
      "moves P (db_update_contract uc)" "moves P (db_delete_contract dc)" "moves P (db_delete_all_contracts k)"
    and P_events: "moves P (db_get_events eq)" "moves P (db_create_event ne)"
      "moves P (db_update_event ue)" "moves P (db_delete_event de)" "moves P (db_delete_all_events k)"
begin

lemma on_pg_moves: "moves P m \<Longrightarrow> moves R (on_pg m)"
  using R_pg by (auto simp: moves_def on_pg_def on_part_def split: prod.split) (metis snd_conv)

lemma pool_get_moves: "moves R pool_get"
  unfolding moves_def
proof
  show "R s (snd (pool_get s))" for s
    using R_pool [of s] R_refl by (auto simp: pool_get_def reflp_def split: list.split bool.split)
qed

lemma db_handler_moves:
  assumes "moves P m" "\<And>a. moves R (f a)" "\<And>err. moves R (g err)"
  shows "moves R (and_then pool_get (\<lambda>_. handle (on_pg m) f g))"
  by (intro moves_and_then moves_handle R_trans pool_get_moves on_pg_moves assms)

lemmas answer_moves = moves_ret [OF R_refl] moves_panic [OF R_refl]

lemma handlers_move:
  "moves R (get_contracts e req)" "moves R (create_contract e req)" "moves R (update_contract e req)"
  "moves R (delete_contract e req)" "moves R (delete_contracts e ck)"
  "moves R (get_events e req)" "moves R (create_event e req)" "moves R (update_event e req)"
  "moves R (delete_event e req)" "moves R (delete_events e ck)" "moves R (get_health e)"
proof -
  show "moves R (get_contracts e req)"
    unfolding get_contracts_def crate_defs
    by (auto split: option.split intro!: answer_moves db_handler_moves P_contracts)
  show "moves R (create_contract e req)"
    unfolding create_contract_def crate_defs
    by (auto split: option.split intro!: answer_moves db_handler_moves P_contracts)
  show "moves R (update_contract e req)"
    unfolding update_contract_def crate_defs
    by (auto split: option.split intro!: answer_moves db_handler_moves P_contracts)
  show "moves R (delete_contract e req)"
    unfolding delete_contract_def crate_defs
    by (auto split: option.split intro!: answer_moves db_handler_moves P_contracts)
  show "moves R (delete_contracts e ck)"
    unfolding delete_contracts_def crate_defs
    by (auto split: option.split intro!: answer_moves db_handler_moves P_contracts)
  show "moves R (get_events e req)"
    unfolding get_events_def crate_defs
    by (auto split: option.split intro!: answer_moves db_handler_moves P_events)
  show "moves R (create_event e req)"
    unfolding create_event_def crate_defs
    by (auto split: option.split intro!: answer_moves db_handler_moves P_events)
  show "moves R (update_event e req)"
    unfolding update_event_def crate_defs
    by (auto split: option.split intro!: answer_moves db_handler_moves P_events)
  show "moves R (delete_event e req)"
    unfolding delete_event_def crate_defs
    by (auto split: option.split intro!: answer_moves db_handler_moves P_events)
  show "moves R (delete_events e ck)"
    unfolding delete_events_def crate_defs
    by (auto split: option.split intro!: answer_moves db_handler_moves P_events)
  show "moves R (get_health e)"
    unfolding get_health_def by (rule answer_moves)
qed

lemma route_moves: "moves R (route e req)"
proof -
  have delete: "moves R (route_delete e req)"
    unfolding route_delete_def
    by (intro moves_if handlers_move) (simp split: option.split add: handlers_move answer_moves)
  show ?thesis
    unfolding route_def Let_def
    by (cases "rq_method req") (simp_all only: http_method.case,
      (intro moves_if handlers_move answer_moves R_request_nonce delete)+)
qed

lemma nonce_layer_moves: "moves R (nonce_layer e req)"
proof -
  have "R s (snd (route e req (use_nonce n s)))" for n s
    using R_use_nonce route_moves R_trans unfolding moves_def by (meson transpD)
  with route_moves show ?thesis
    by (auto simp: moves_def nonce_layer_def split: option.split)
qed

lemma forbid_moves: "moves R m \<Longrightarrow> moves R (forbid m)"
  unfolding forbid_def by (intro moves_intros R_refl R_trans)

lemma serve_moves: "moves R (serve e req)"
proof -
  have get: "moves R (verify_get e aq ns h req)" for aq ns h
    unfolding verify_get_def
    by (auto split: option.split intro!: moves_panic R_refl forbid_moves nonce_layer_moves)
  have payload: "moves R (verify_payload e ns h req)" for ns h
    unfolding verify_payload_def Let_def
    by (auto split: option.split intro!: moves_panic R_refl forbid_moves nonce_layer_moves)
  have "R s (snd (serve e req s))" for s
    using get payload nonce_layer_moves [of e req] forbid_moves [OF nonce_layer_moves, of e req]
    unfolding moves_def serve_def verifier_def Let_def by (auto split: option.split)
  then show ?thesis by (simp add: moves_def)
qed

lemma run_moves: "R s (serve_all e reqs s)"
proof (induction reqs arbitrary: s)
  case Nil
  show ?case using R_refl by (simp add: reflp_def)
next
  case (Cons req reqs)
  have "R s (snd (serve e req s))" using serve_moves by (simp add: moves_def)
  from R_trans this Cons [of "snd (serve e req s)"] show ?case
    unfolding serve_all.simps by (rule transpD)
qed

end

section \<open>The invariant of the service\<close>

definition srv_ok :: "server \<Rightarrow> bool" where
  "srv_ok s \<longleftrightarrow> pg_ok (srv_pg s) \<and> length (srv_nonces s) \<le> NONCE_VEC_LENGTH"

lemma keeps_moves:
  assumes "\<And>w. Q w \<Longrightarrow> wp m (\<lambda>_ w'. Q w') w"
  shows "moves (\<lambda>w w'. Q w \<longrightarrow> Q w') m"
  using assms by (auto simp: moves_def wp_def)

lemma pg_ok_moves:
  "moves (\<lambda>w w'. pg_ok w \<longrightarrow> pg_ok w') (db_get_contracts q)"
  "moves (\<lambda>w w'. pg_ok w \<longrightarrow> pg_ok w') (db_create_contract nc)"
  "moves (\<lambda>w w'. pg_ok w \<longrightarrow> pg_ok w') (db_update_contract uc)"
  "moves (\<lambda>w w'. pg_ok w \<longrightarrow> pg_ok w') (db_delete_contract dc)"
  "moves (\<lambda>w w'. pg_ok w \<longrightarrow> pg_ok w') (db_delete_all_contracts k)"
  "moves (\<lambda>w w'. pg_ok w \<longrightarrow> pg_ok w') (db_get_events eq)"
  "moves (\<lambda>w w'. pg_ok w \<longrightarrow> pg_ok w') (db_create_event ne)"
  "moves (\<lambda>w w'. pg_ok w \<longrightarrow> pg_ok w') (db_update_event ue)"
  "moves (\<lambda>w w'. pg_ok w \<longrightarrow> pg_ok w') (db_delete_event de)"
  "moves (\<lambda>w w'. pg_ok w \<longrightarrow> pg_ok w') (db_delete_all_events k)"
proof -
  note mono = wp_mono [where Q = "\<lambda>_ w'. pg_ok w'"]
  show "moves (\<lambda>w w'. pg_ok w \<longrightarrow> pg_ok w') (db_get_contracts q)"
    by (rule keeps_moves, rule mono [OF get_contracts_law]) auto
  show "moves (\<lambda>w w'. pg_ok w \<longrightarrow> pg_ok w') (db_create_contract nc)"
    by (rule keeps_moves, rule mono [OF contracts_tbl.create_law]) auto
  show "moves (\<lambda>w w'. pg_ok w \<longrightarrow> pg_ok w') (db_update_contract uc)"
    by (rule keeps_moves, rule mono [OF contracts_tbl.update_law]) auto
  show "moves (\<lambda>w w'. pg_ok w \<longrightarrow> pg_ok w') (db_delete_contract dc)"
    by (rule keeps_moves, rule mono [OF contracts_tbl.delete_law]) auto
  show "moves (\<lambda>w w'. pg_ok w \<longrightarrow> pg_ok w') (db_delete_all_contracts k)"
    by (rule keeps_moves, rule mono [OF delete_all_contracts_law]) auto
  show "moves (\<lambda>w w'. pg_ok w \<longrightarrow> pg_ok w') (db_get_events eq)"
    unfolding db_get_events_def by (rule keeps_moves, rule wp_stmtI) (auto simp: wp_def)
  show "moves (\<lambda>w w'. pg_ok w \<longrightarrow> pg_ok w') (db_create_event ne)"
    by (rule keeps_moves, rule mono [OF events_tbl.create_law]) auto
  show "moves (\<lambda>w w'. pg_ok w \<longrightarrow> pg_ok w') (db_update_event ue)"
    by (rule keeps_moves, rule mono [OF events_tbl.update_law]) auto
  show "moves (\<lambda>w w'. pg_ok w \<longrightarrow> pg_ok w') (db_delete_event de)"
    by (rule keeps_moves, rule mono [OF events_tbl.delete_law]) auto
  show "moves (\<lambda>w w'. pg_ok w \<longrightarrow> pg_ok w') (db_delete_all_events k)"
    unfolding db_delete_all_events_def
    by (rule keeps_moves, rule wp_stmtI)
      (auto simp: wp_simps on_events_ok intro!: wpI on_events_ok(2) delete_ok [OF on_events_ok(1)])
qed

interpretation srv_inv: server_relation
  "\<lambda>s s'. srv_ok s \<longrightarrow> srv_ok s'" "\<lambda>c c'. pg_ok c \<longrightarrow> pg_ok c'"
proof
  show "moves (\<lambda>s s'. srv_ok s \<longrightarrow> srv_ok s') request_nonce"
    using length_trim_nonces
    by (auto simp: moves_def request_nonce_def srv_ok_def Let_def less_eq_Suc_le)
  show "srv_ok s \<longrightarrow> srv_ok (use_nonce n s)" for s n
    by (auto simp: srv_ok_def use_nonce_def intro: order_trans [OF length_filter_le])
qed (auto simp: srv_ok_def reflp_def transp_def pg_ok_moves)

end
