(* ===== verification/Rust_Text.thy ===== *)
theory Rust_Text
  imports Prelude
begin

text \<open>
  Strings and bytes as the Rust standard library relates them: \<open>into_bytes\<close>,
  \<open>String::from_utf8_lossy\<close> (every maximal broken sequence becomes the replacement
  character) and the zero-padded binary formatting \<open>{:0width$b}\<close>. A string of the model is
  the list of its UTF-8 bytes.
\<close>

section \<open>Text as bytes\<close>

definition text_of :: "bytes \<Rightarrow> string" where
  "text_of bs = map (\<lambda>b. char_of (unat b)) bs"

definition bytes_of :: "string \<Rightarrow> bytes" where
  "bytes_of s = map (\<lambda>c. word_of_nat (of_char c)) s"

lemma bytes_of_text_of [simp]: "bytes_of (text_of bs) = bs"
proof -
  have "unat b mod 256 = unat b" for b :: u8
    using unsigned_less [of b, where ?'a = nat] by simp
  then have "word_of_nat (of_char (char_of (unat b))) = b" for b :: u8
    by (simp del: unsigned_less)
  then show ?thesis by (simp add: bytes_of_def text_of_def comp_def)
qed

lemma unat_byte_of_char: "unat (word_of_nat (of_char c) :: u8) = of_char c"
proof -
  have "(of_char c :: nat) < 256" by (rule nat_of_char_less_256)
  then show ?thesis by (simp add: unat_of_nat)
qed

lemma text_of_bytes_of [simp]: "text_of (bytes_of s) = s"
  by (simp add: bytes_of_def text_of_def comp_def unat_byte_of_char)

section \<open>UTF-8\<close>

definition byte_at :: "nat list \<Rightarrow> nat \<Rightarrow> nat" where
  "byte_at cs i = (if i < length cs then cs ! i else 0)"

definition continues :: "nat \<Rightarrow> bool" where
  "continues b \<longleftrightarrow> 128 \<le> b \<and> b < 192"

text \<open>The second byte of a three- or four-byte sequence has a narrower range after some leads.\<close>

definition second_ok :: "nat \<Rightarrow> nat \<Rightarrow> bool" where
  "second_ok lead b \<longleftrightarrow> continues b \<and>
     (lead = 224 \<longrightarrow> 160 \<le> b) \<and> (lead = 237 \<longrightarrow> b < 160) \<and> (lead = 240 \<longrightarrow> 144 \<le> b) \<and> (lead = 244 \<longrightarrow> b < 144)"

text \<open>Whether the next sequence is a character, and how many bytes it or its broken prefix has.\<close>

fun utf8_char :: "nat \<Rightarrow> nat list \<Rightarrow> bool \<times> nat" where
  "utf8_char b r =
     (if b < 128 then (True, 1)
      else if b < 194 then (False, 1)
      else if b < 224 then (if continues (byte_at r 0) then (True, 2) else (False, 1))
      else if b < 240 then
        (if \<not> second_ok b (byte_at r 0) then (False, 1)
         else if \<not> continues (byte_at r 1) then (False, 2) else (True, 3))
      else if b < 245 then
        (if \<not> second_ok b (byte_at r 0) then (False, 1)
         else if \<not> continues (byte_at r 1) then (False, 2)
         else if \<not> continues (byte_at r 2) then (False, 3) else (True, 4))
      else (False, 1))"

declare utf8_char.simps [simp del]

fun utf8_codes :: "nat list \<Rightarrow> bool" where
  "utf8_codes [] = True"
| "utf8_codes (b # r) = (fst (utf8_char b r) \<and> utf8_codes (drop (snd (utf8_char b r) - 1) r))"

fun lossy_codes :: "nat list \<Rightarrow> nat list" where
  "lossy_codes [] = []"
| "lossy_codes (b # r) =
     (if fst (utf8_char b r) then b # take (snd (utf8_char b r) - 1) r else [239, 191, 189])
       @ lossy_codes (drop (snd (utf8_char b r) - 1) r)"

definition utf8_valid :: "string \<Rightarrow> bool" where
  "utf8_valid s \<longleftrightarrow> utf8_codes (map of_char s)"

definition from_utf8_lossy :: "bytes \<Rightarrow> string" where
  "from_utf8_lossy bs = map char_of (lossy_codes (map unat bs))"

lemma lossy_valid: "utf8_codes cs \<Longrightarrow> lossy_codes cs = cs"
  by (induction cs rule: utf8_codes.induct) simp_all

lemma from_utf8_lossy_bytes:
  assumes "utf8_valid s"
  shows "from_utf8_lossy (bytes_of s) = s"
proof -
  have "map unat (bytes_of s) = map of_char s"
    by (simp add: bytes_of_def unat_byte_of_char)
  then show ?thesis
    using assms by (simp add: from_utf8_lossy_def utf8_valid_def lossy_valid comp_def)
qed

lemma byte_at_append: "byte_at r i \<noteq> 0 \<Longrightarrow> byte_at (r @ t) i = byte_at r i"
  by (auto simp: byte_at_def nth_append split: if_splits)

lemma continues_nonzero: "continues b \<Longrightarrow> b \<noteq> 0" "second_ok l b \<Longrightarrow> b \<noteq> 0"
  by (auto simp: continues_def second_ok_def)

lemma utf8_char_append:
  assumes "fst (utf8_char b r)"
  shows "utf8_char b (r @ t) = utf8_char b r" "snd (utf8_char b r) - 1 \<le> length r"
proof -
  have len: "i < length r" if "byte_at r i \<noteq> 0" for i
    using that by (auto simp: byte_at_def split: if_splits)
  note nz = continues_nonzero
  have le: "Suc (Suc (Suc 0)) \<le> length r" if "byte_at r 2 \<noteq> 0"
    using len [OF that] by simp
  show "utf8_char b (r @ t) = utf8_char b r"
    using assms by (auto simp: utf8_char.simps byte_at_append nz split: if_splits)
  show "snd (utf8_char b r) - 1 \<le> length r"
    using assms by (auto simp: utf8_char.simps Suc_le_eq dest!: nz len split: if_splits)
qed

lemma utf8_codes_append: "utf8_codes cs \<Longrightarrow> utf8_codes (cs @ ds) = utf8_codes ds"
proof (induction cs rule: utf8_codes.induct)
  case (2 b r)
  have head: "fst (utf8_char b r)" using "2.prems" by simp
  note app = utf8_char_append(1) [OF head, of ds] utf8_char_append(2) [OF head]
  show ?case using 2 app by simp
qed simp

lemma utf8_valid_append: "utf8_valid s \<Longrightarrow> utf8_valid t \<Longrightarrow> utf8_valid (s @ t)"
  by (simp add: utf8_valid_def utf8_codes_append)

lemma utf8_valid_concat: "(\<And>s. s \<in> set ss \<Longrightarrow> utf8_valid s) \<Longrightarrow> utf8_valid (concat ss)"
  by (induction ss) (simp_all add: utf8_valid_append, simp add: utf8_valid_def)

lemma utf8_valid_ascii: "list_all (\<lambda>c. of_char c < (128 :: nat)) s \<Longrightarrow> utf8_valid s"
  unfolding utf8_valid_def by (induction s) (simp_all add: utf8_char.simps)

section \<open>Binary digits\<close>

fun bin_digits :: "nat \<Rightarrow> string" where
  "bin_digits n = (if n < 2 then [char_of (48 + n)] else bin_digits (n div 2) @ [char_of (48 + n mod 2)])"

declare bin_digits.simps [simp del]

definition format_binary :: "nat \<Rightarrow> nat \<Rightarrow> string" where
  "format_binary width n =
     (let ds = bin_digits n in replicate (width - length ds) (CHR ''0'') @ ds)"

fun bin_value :: "nat \<Rightarrow> string \<Rightarrow> nat" where
  "bin_value acc [] = acc"
| "bin_value acc (c # cs) = bin_value (2 * acc + (of_char c - 48)) cs"

lemma bin_value_append: "bin_value a (s @ t) = bin_value (bin_value a s) t"
  by (induction s arbitrary: a) simp_all

lemma bin_value_zeros: "bin_value 0 (replicate k (CHR ''0'')) = 0"
  by (induction k) simp_all

lemma bin_value_digits: "bin_value 0 (bin_digits n) = n"
proof (induction n rule: bin_digits.induct)
  case (1 n)
  show ?case
  proof (cases "n < 2")
    case False
    have "of_char (char_of (48 + n mod 2) :: char) = 48 + n mod 2" by simp
    with 1 False show ?thesis
      by (subst bin_digits.simps) (simp add: bin_value_append)
  qed (auto simp: bin_digits.simps)
qed

lemma length_bin_digits: "0 < w \<Longrightarrow> length (bin_digits n) \<le> w \<longleftrightarrow> n < 2 ^ w"
proof (induction n arbitrary: w rule: bin_digits.induct)
  case (1 n)
  show ?case
  proof (cases "n < 2")
    case True
    have "(2 :: nat) \<le> 2 ^ w" using 1(2) by (cases w) simp_all
    with True 1(2) show ?thesis by (subst bin_digits.simps) simp
  next
    case False
    obtain v where w: "w = Suc v" using 1(2) by (cases w) auto
    have "bin_digits (n div 2) \<noteq> []" by (subst bin_digits.simps) simp
    then have "v = 0 \<Longrightarrow> \<not> length (bin_digits (n div 2)) \<le> v" by simp
    moreover have "v = 0 \<Longrightarrow> \<not> n < 2 ^ w" using False w by simp
    moreover have "0 < v \<Longrightarrow> length (bin_digits (n div 2)) \<le> v \<longleftrightarrow> n div 2 < 2 ^ v"
      using 1(1) [OF False] by blast
    moreover have "n div 2 < 2 ^ v \<longleftrightarrow> n < 2 ^ w" unfolding w by auto
    ultimately have "length (bin_digits (n div 2)) \<le> v \<longleftrightarrow> n < 2 ^ w" by (cases "v = 0") auto
    then show ?thesis using False by (subst bin_digits.simps) (simp add: w)
  qed
qed

lemma format_binary:
  shows "bin_value 0 (format_binary w n) = n"
    and "0 < w \<Longrightarrow> length (format_binary w n) = w \<longleftrightarrow> n < 2 ^ w"
    and "w \<le> length (format_binary w n)"
proof -
  show "bin_value 0 (format_binary w n) = n"
    by (simp add: format_binary_def Let_def bin_value_append bin_value_zeros bin_value_digits)
  show "0 < w \<Longrightarrow> length (format_binary w n) = w \<longleftrightarrow> n < 2 ^ w"
    using length_bin_digits [of w n] by (auto simp: format_binary_def Let_def)
  show "w \<le> length (format_binary w n)"
    by (simp add: format_binary_def Let_def)
qed

end
