(* ===== verification/Ref_Ext.thy ===== *)
theory Ref_Ext
  imports Json Rust_Text
begin

text \<open>
  An instance of the external codecs and primitives for which the documented behaviour
  \<open>web_ok\<close> holds: a self-delimiting text form of JSON documents, and transparent stand-ins
  for the hash, the signatures and base64. The witnesses of the properties run the model on
  it; no property is about it.
\<close>

section \<open>A text form of documents\<close>

definition enc_nat :: "nat \<Rightarrow> string" where
  "enc_nat n = replicate n (CHR ''1'') @ ''0''"

fun dec_nat :: "string \<Rightarrow> (nat \<times> string) option" where
  "dec_nat [] = None"
| "dec_nat (c # cs) =
     (if c = CHR ''0'' then Some (0, cs)
      else map_option (\<lambda>(n, r). (Suc n, r)) (dec_nat cs))"

lemma dec_enc_nat: "dec_nat (enc_nat n @ r) = Some (n, r)"
  by (induction n) (simp_all add: enc_nat_def)

definition enc_str :: "string \<Rightarrow> string" where
  "enc_str s = enc_nat (length s) @ s"

definition dec_str :: "string \<Rightarrow> (string \<times> string) option" where
  "dec_str t = (case dec_nat t of
      Some (n, r) \<Rightarrow> if n \<le> length r then Some (take n r, drop n r) else None
    | None \<Rightarrow> None)"

lemma dec_enc_str: "dec_str (enc_str s @ r) = Some (s, r)"
  by (simp add: dec_str_def enc_str_def dec_enc_nat)

fun enc :: "json \<Rightarrow> string" where
  "enc JNull = ''n''"
| "enc (JBool b) = (if b then ''t'' else ''f'')"
| "enc (JNum i) = (if 0 \<le> i then ''p'' @ enc_nat (nat i) else ''m'' @ enc_nat (nat (- i)))"
| "enc (JStr s) = ''s'' @ enc_str s"
| "enc (JArr xs) = ''a'' @ enc_nat (length xs) @ concat (map enc xs)"
| "enc (JObj kvs) = ''o'' @ enc_nat (length kvs) @ concat (map (\<lambda>kv. enc_str (fst kv) @ enc (snd kv)) kvs)"

fun dec :: "nat \<Rightarrow> string \<Rightarrow> (json \<times> string) option"
  and dec_list :: "nat \<Rightarrow> nat \<Rightarrow> string \<Rightarrow> (json list \<times> string) option"
  and dec_kvs :: "nat \<Rightarrow> nat \<Rightarrow> string \<Rightarrow> ((string \<times> json) list \<times> string) option" where
  "dec 0 s = None"
| "dec (Suc f) [] = None"
| "dec (Suc f) (c # r) =
     (if c = CHR ''n'' then Some (JNull, r)
      else if c = CHR ''t'' then Some (JBool True, r)
      else if c = CHR ''f'' then Some (JBool False, r)
      else if c = CHR ''p'' then map_option (\<lambda>(n, r). (JNum (int n), r)) (dec_nat r)
      else if c = CHR ''m'' then map_option (\<lambda>(n, r). (JNum (- int n), r)) (dec_nat r)
      else if c = CHR ''s'' then map_option (\<lambda>(t, r). (JStr t, r)) (dec_str r)
      else if c = CHR ''a'' then
        Option.bind (dec_nat r) (\<lambda>(n, r). map_option (\<lambda>(xs, r). (JArr xs, r)) (dec_list f n r))
      else if c = CHR ''o'' then
        Option.bind (dec_nat r) (\<lambda>(n, r). map_option (\<lambda>(kvs, r). (JObj kvs, r)) (dec_kvs f n r))
      else None)"
| "dec_list f 0 s = Some ([], s)"
| "dec_list 0 (Suc n) s = None"
| "dec_list (Suc f) (Suc n) s =
     Option.bind (dec f s) (\<lambda>(x, r). map_option (\<lambda>(xs, r). (x # xs, r)) (dec_list f n r))"
| "dec_kvs f 0 s = Some ([], s)"
| "dec_kvs 0 (Suc n) s = None"
| "dec_kvs (Suc f) (Suc n) s =
     Option.bind (dec_str s) (\<lambda>(k, r). Option.bind (dec f r) (\<lambda>(x, r).
       map_option (\<lambda>(kvs, r). ((k, x) # kvs, r)) (dec_kvs f n r)))"

lemma enc_nonempty: "0 < length (enc j)"
  by (cases j) auto

lemma dec_list_enc:
  assumes "\<And>x f r. x \<in> set xs \<Longrightarrow> length (enc x) \<le> f \<Longrightarrow> dec f (enc x @ r) = Some (x, r)"
    and "length (concat (map enc xs)) < f"
  shows "dec_list f (length xs) (concat (map enc xs) @ r) = Some (xs, r)"
  using assms
proof (induction xs arbitrary: f)
  case (Cons x xs)
  obtain g where f: "f = Suc g" using Cons.prems(2) by (cases f) auto
  have len: "length (enc x) \<le> g" "length (concat (map enc xs)) < g"
    using Cons.prems(2) enc_nonempty [of x] unfolding f list.map concat.simps length_append by linarith+
  have head: "dec g (enc x @ concat (map enc xs) @ r) = Some (x, concat (map enc xs) @ r)"
    using Cons.prems(1) len(1) by simp
  have tail: "dec_list g (length xs) (concat (map enc xs) @ r) = Some (xs, r)"
    using Cons.IH [of g] Cons.prems(1) len(2) by simp
  from head tail show ?case by (simp add: f)
qed simp

abbreviation enc_kv :: "string \<times> json \<Rightarrow> string" where
  "enc_kv kv \<equiv> enc_str (fst kv) @ enc (snd kv)"

lemma dec_kvs_enc:
  assumes "\<And>kv f r. kv \<in> set kvs \<Longrightarrow> length (enc (snd kv)) \<le> f \<Longrightarrow> dec f (enc (snd kv) @ r) = Some (snd kv, r)"
    and "length (concat (map enc_kv kvs)) < f"
  shows "dec_kvs f (length kvs) (concat (map enc_kv kvs) @ r) = Some (kvs, r)"
  using assms
proof (induction kvs arbitrary: f)
  case (Cons kv kvs)
  obtain g where f: "f = Suc g" using Cons.prems(2) by (cases f) auto
  have len: "length (enc (snd kv)) \<le> g" "length (concat (map enc_kv kvs)) < g"
    using Cons.prems(2) enc_nonempty [of "snd kv"] unfolding f list.map concat.simps length_append by linarith+
  have head: "dec g (enc (snd kv) @ concat (map enc_kv kvs) @ r) = Some (snd kv, concat (map enc_kv kvs) @ r)"
    using Cons.prems(1) len(1) by simp
  have tail: "dec_kvs g (length kvs) (concat (map enc_kv kvs) @ r) = Some (kvs, r)"
    using Cons.IH [of g] Cons.prems(1) len(2) by simp
  from head tail show ?case by (simp add: f dec_enc_str)
qed simp

lemma dec_enc: "length (enc j) \<le> f \<Longrightarrow> dec f (enc j @ r) = Some (j, r)"
proof (induction j arbitrary: f r)
  case (JArr xs)
  then obtain g where f: "f = Suc g" by (cases f) auto
  have "dec_list g (length xs) (concat (map enc xs) @ r) = Some (xs, r)"
    by (rule dec_list_enc) (use JArr f in \<open>auto simp: enc_nat_def\<close>)
  then show ?case by (simp add: f dec_enc_nat)
next
  case (JObj kvs)
  then obtain g where f: "f = Suc g" by (cases f) auto
  have "dec_kvs g (length kvs) (concat (map enc_kv kvs) @ r) = Some (kvs, r)"
    by (rule dec_kvs_enc) (use JObj f in \<open>auto simp: enc_nat_def intro: snds.intros\<close>)
  then show ?case by (simp add: f dec_enc_nat)
next
  case (JNum i)
  then obtain g where "f = Suc g" by (cases f) (auto split: if_splits)
  then show ?case by (auto simp: dec_enc_nat)
next
  case (JBool b)
  then obtain g where "f = Suc g" by (cases f) (auto split: if_splits)
  then show ?case by simp
next
  case (JStr s)
  then obtain g where "f = Suc g" by (cases f) auto
  then show ?case by (simp add: dec_enc_str)
next
  case JNull
  then obtain g where "f = Suc g" by (cases f) auto
  then show ?case by simp
qed

declare enc.simps [simp del]

section \<open>The instance\<close>

definition ref_parse :: "string \<Rightarrow> json option" where
  "ref_parse s = (case dec (length s) s of Some (j, []) \<Rightarrow> Some (json_canon j) | _ \<Rightarrow> None)"

definition ref_web :: web_ext where
  "ref_web = \<lparr>
     jprint = enc,
     jparse = ref_parse,
     header_to_str = (\<lambda>s. if list_all (\<lambda>c. of_char c < (127 :: nat)) s then Some s else None),
     sha256 = bytes_of,
     ecdsa_sign = (\<lambda>d sk. sk @ d),
     ecdsa_verify = (\<lambda>d sg pk. sg = pk @ d),
     pk_of_sk = (\<lambda>sk. sk),
     sig_to_string = text_of,
     sig_from_str = (\<lambda>s. Some (bytes_of s)),
     pk_to_string = text_of,
     pk_from_str = (\<lambda>s. Some (bytes_of s)),
     b64_encode = text_of,
     b64_decode = (\<lambda>s. Some (bytes_of s)),
     display_error = (\<lambda>kind. ''E'' @ kind),
     path_decode = (\<lambda>s. s),
     target_64bit = False\<rparr>"

lemma ref_parse_enc [simp]: "ref_parse (enc j) = Some (json_canon j)"
  using dec_enc [of j "length (enc j)" "[]"] by (simp add: ref_parse_def)

lemma ref_parse_Nil [simp]: "ref_parse [] = None"
  by (simp add: ref_parse_def)

lemma ref_web_simps [simp]:
  "jprint ref_web = enc" "jparse ref_web = ref_parse" "sha256 ref_web = bytes_of"
  "ecdsa_sign ref_web d sk = sk @ d" "ecdsa_verify ref_web d sg pk \<longleftrightarrow> sg = pk @ d"
  "pk_of_sk ref_web sk = sk" "sig_to_string ref_web = text_of" "pk_to_string ref_web = text_of"
  "sig_from_str ref_web s = Some (bytes_of s)" "pk_from_str ref_web s = Some (bytes_of s)"
  "b64_encode ref_web = text_of" "b64_decode ref_web s = Some (bytes_of s)"
  "display_error ref_web k = ''E'' @ k" "path_decode ref_web s = s"
  "header_to_str ref_web s = (if list_all (\<lambda>c. of_char c < (127 :: nat)) s then Some s else None)"
  by (simp_all add: ref_web_def)

lemma ref_parse_plain [simp]: "c \<notin> set ''ntfpmsao'' \<Longrightarrow> ref_parse (c # r) = None"
  by (simp add: ref_parse_def)

lemma alphanumeric_ascii: "alphanumeric c \<Longrightarrow> of_char c < (127 :: nat)"
  by (auto simp: alphanumeric_def Let_def)

lemma ref_web_ok: "web_ok ref_web"
  by (auto simp: web_ok_def json_codec_ok_def crypto_ok_def header_ok_def base64_ok_def plain_text_ok_def list_all_iff
      intro: alphanumeric_ascii split: if_splits)

end
