(* ===== verification/Storage_Auth.thy ===== *)
theory Storage_Auth
  imports Storage_Api_Laws Ref_Ext
begin

text \<open>
  What the signature middleware and the nonce ring give the payload requests other than the two
  bulk deletes: only a request signed over a live nonce changes the database, such a request
  reaches its handler with the signed message as its body, and, of requests served one after the
  other, a nonce serves one. The last section states what the layering does not give: the
  service is called before the verdict is known, so routes that need no body take effect
  under a 403, and a missing header skips the check.
\<close>

section \<open>Signed requests\<close>

text \<open>The test the middleware performs on a payload request, as one predicate.\<close>

definition signed_message :: "web_ext \<Rightarrow> http_request \<Rightarrow> AuthenticatedMessage option" where
  "signed_message e req =
     Option.bind (rq_body req) (\<lambda>b. Option.bind (jparse e b) authenticated_message_of_json)"

definition signed_request :: "web_ext \<Rightarrow> string list \<Rightarrow> http_request \<Rightarrow> bool" where
  "signed_request e nonces req =
     (case (rq_auth req, signed_message e req) of
        (Some header, Some m) \<Rightarrow>
          (case header_to_str e header of
             None \<Rightarrow> False
           | Some h \<Rightarrow> verify_body e m \<and> h \<in> set nonces
               \<and> as_str (json_index (am_message m) ''nonce'') = Some h)
      | _ \<Rightarrow> False)"

definition verified_get :: "http_request \<Rightarrow> bool" where
  "verified_get req \<longleftrightarrow>
     rq_method req = GET \<and> (contains (rq_path req) ''/event'' \<or> contains (rq_path req) ''/contract'')"

definition payload_request :: "http_request \<Rightarrow> bool" where
  "payload_request req \<longleftrightarrow> rq_path req \<notin> set unprotected_paths \<and> \<not> verified_get req"

text \<open>
  The two routes whose handlers change a table without reading the body, and all other payload
  requests: those to the six handlers that read the body, and those no route answers.
\<close>

definition bulk_delete :: "http_request \<Rightarrow> bool" where
  "bulk_delete req \<longleftrightarrow> rq_method req = DELETE \<and>
     (path_segment ''/contracts/'' (rq_path req) \<noteq> None \<or> path_segment ''/events/'' (rq_path req) \<noteq> None)"

definition body_route :: "http_request \<Rightarrow> bool" where
  "body_route req \<longleftrightarrow> payload_request req \<and> \<not> bulk_delete req"

lemma body_route_payload: "body_route req \<Longrightarrow> payload_request req"
  by (simp add: body_route_def)

lemma body_route_body [simp]: "body_route (req\<lparr>rq_body := b\<rparr>) = body_route req"
  by (simp add: body_route_def payload_request_def verified_get_def bulk_delete_def)

lemma serve_payload:
  assumes "payload_request req" "rq_auth req = Some header" "header_to_str e header = Some h"
  shows "serve e req s = verify_payload e (srv_nonces s) h req s"
  using assms by (auto simp: serve_def verifier_def payload_request_def verified_get_def Let_def)

text \<open>With no document for a body, the handlers of these routes answer without a statement.\<close>

lemma empty_body_route:
  assumes "body_route req" "jparse e [] = None" "rq_body req = Some []"
  shows "\<exists>res. route e req s = (Ok res, s)"
proof -
  have answers: "\<exists>res. create_contract e req s = (Ok res, s)" "\<exists>res. create_event e req s = (Ok res, s)"
    "\<exists>res. update_contract e req s = (Ok res, s)" "\<exists>res. update_event e req s = (Ok res, s)"
    "\<exists>res. delete_contract e req s = (Ok res, s)" "\<exists>res. delete_event e req s = (Ok res, s)"
    using assms(2,3)
    by (simp_all add: ret_def json_body_def create_contract_def create_event_def update_contract_def
        update_event_def delete_contract_def delete_event_def)
  have "rq_path req \<notin> set [''/request_nonce'', ''/health'', ''/contracts'', ''/events'']" if "rq_method req = GET"
    using assms(1) that
    by (auto simp: body_route_def payload_request_def unprotected_paths_def verified_get_def starts_with_def)
  moreover have "path_param e ''/contracts/'' (rq_path req) = None" "path_param e ''/events/'' (rq_path req) = None"
    if "rq_method req = DELETE"
    using assms(1) that by (auto simp: body_route_def bulk_delete_def path_param_def)
  ultimately show ?thesis
    using answers by (cases "rq_method req") (simp_all add: route_def route_delete_def Let_def, simp_all add: ret_def)
qed

lemma empty_body_layer:
  assumes "body_route req" "jparse e [] = None"
  shows "\<exists>res. nonce_layer e (req\<lparr>rq_body := Some []\<rparr>) s = (Ok res, s)
    \<or> (\<exists>n. nonce_layer e (req\<lparr>rq_body := Some []\<rparr>) s = (Ok res, use_nonce n s))"
proof -
  have "body_route (req\<lparr>rq_body := Some []\<rparr>)" using assms(1) by simp
  from empty_body_route [OF this assms(2)] show ?thesis
    by (cases "rq_auth req") (auto simp: nonce_layer_def, metis)
qed

lemma use_nonce_simps [simp]:
  "srv_pg (use_nonce n s) = srv_pg s" "srv_rng (use_nonce n s) = srv_rng s"
  "srv_draws (use_nonce n s) = srv_draws s" "srv_pool (use_nonce n s) = srv_pool s"
  "set (srv_nonces (use_nonce n s)) = set (srv_nonces s) - {n}"
  by (auto simp: use_nonce_def)

text \<open>The answer is 403; there is none only where the middleware cannot read the body and panics.\<close>

definition denied :: "http_request \<Rightarrow> (http_response, unit) outcome \<Rightarrow> bool" where
  "denied req r \<longleftrightarrow> (case r of Ok res \<Rightarrow> rs_status res = 403 | Panic \<Rightarrow> rq_body req = None | Err _ \<Rightarrow> False)"

lemma forbid_run: "m s = (Ok res, s') \<Longrightarrow> forbid m s = (Ok (res\<lparr>rs_status := 403\<rparr>), s')"
  by (simp add: forbid_def and_then_def ret_def)

lemma denied_payload:
  assumes "body_route req" "jparse e [] = None"
  shows "denied req (fst (forbid (nonce_layer e (req\<lparr>rq_body := Some []\<rparr>)) s))
    \<and> srv_pg (snd (forbid (nonce_layer e (req\<lparr>rq_body := Some []\<rparr>)) s)) = srv_pg s"
  using empty_body_layer [OF assms, of s] by (auto simp: forbid_run denied_def)

section \<open>Properties of the payload endpoints\<close>

text \<open>
  C13. A payload request with a readable authorization header, other than a bulk delete
  (\<open>DELETE /contracts/{ckey}\<close> and \<open>DELETE /events/{ckey}\<close>, of which C20 shows the contrary), changes no
  table unless it carries a message, signed by the key it names, whose nonce is the header's and
  is live in the ring; it is answered 403, or not at all when its body cannot be read.
\<close>

theorem unsigned_request_refused:
  assumes "web_ok e" "body_route req" "rq_auth req = Some header" "header_to_str e header = Some h"
    and "\<not> signed_request e (srv_nonces s) req"
  shows "denied req (fst (serve e req s)) \<and> srv_pg (snd (serve e req s)) = srv_pg s"
proof -
  note refuse = denied_payload [OF assms(2) jparse_empty [OF assms(1)], of s]
  have run: "serve e req s = verify_payload e (srv_nonces s) h req s"
    using serve_payload [OF body_route_payload [OF assms(2)] assms(3,4)] .
  show ?thesis
    using assms(3-5) refuse unfolding run verify_payload_def signed_request_def signed_message_def
    by (auto simp: Let_def panic_def denied_def [of _ Panic] split: option.split)
qed

section \<open>Concrete requests for the witnesses\<close>

definition demo_server :: "string list \<Rightarrow> server" where
  "demo_server nonces = \<lparr>srv_pg = demo_pg, srv_nonces = nonces, srv_rng = (\<lambda>_. ''n1''),
     srv_draws = 0, srv_pool = []\<rparr>"

definition demo_event :: "string \<Rightarrow> json" where
  "demo_event nonce = JObj [(''event_id'', JStr ''e''), (''content'', JStr ''c''),
     (''key'', JStr ''k''), (''nonce'', JStr nonce)]"

definition demo_signed :: "json \<Rightarrow> json" where
  "demo_signed m = JObj [(''message'', m), (''public_key'', JStr (text_of [7])),
     (''signature'', JStr (text_of ([7] @ bytes_of (enc (json_canon m)))))]"

definition demo_request :: "string \<Rightarrow> json \<Rightarrow> http_request" where
  "demo_request nonce b = \<lparr>rq_method = POST, rq_path = ''/events'', rq_query = [],
     rq_auth = Some nonce, rq_is_json = True, rq_body = Some (enc b)\<rparr>"

lemmas demo_defs = demo_server_def demo_pg_def demo_event_def demo_signed_def demo_request_def

lemma demo_routes:
  "body_route (demo_request n b)" "payload_request (demo_request n b)"
  "rq_auth (demo_request n b) = Some n"
  by (auto simp: demo_request_def body_route_def bulk_delete_def payload_request_def unprotected_paths_def verified_get_def)

lemma demo_server_nonces [simp]: "srv_nonces (demo_server ns) = ns"
  by (simp add: demo_server_def)

lemma demo_server_rng: "srv_rng (demo_server ns) = (\<lambda>_. ''n1'')"
  by (simp add: demo_server_def)

lemma demo_wf: "json_wf (demo_event n)" "json_wf (demo_signed (demo_event n))"
  by (simp_all add: demo_event_def demo_signed_def)

lemma message_of_canon:
  "json_wf j \<Longrightarrow> authenticated_message_of_json (json_canon j)
     = map_option (\<lambda>m. m\<lparr>am_message := json_canon (am_message m)\<rparr>) (authenticated_message_of_json j)"
  by (simp add: authenticated_message_of_json_def read_canon split: option.split)

lemma demo_unsigned: "\<not> signed_request ref_web ns (demo_request n (demo_event n))"
  by (simp add: demo_request_def signed_request_def signed_message_def message_of_canon demo_wf)
    (simp add: demo_event_def authenticated_message_of_json_def)

lemma demo_signed_message:
  "signed_message ref_web (demo_request n (demo_signed (demo_event n')))
     = Some \<lparr>am_message = json_canon (demo_event n'), am_public_key = text_of [7],
         am_signature = text_of ([7] @ bytes_of (enc (json_canon (demo_event n'))))\<rparr>"
  by (simp add: demo_request_def signed_message_def message_of_canon demo_wf)
    (simp add: demo_signed_def authenticated_message_of_json_def)

lemma demo_is_signed:
  "header_to_str ref_web n = Some n \<Longrightarrow>
     signed_request ref_web ns (demo_request n (demo_signed (demo_event n))) \<longleftrightarrow> n \<in> set ns"
  by (simp add: signed_request_def demo_signed_message demo_routes verify_body_def verify_text_def
      read_canon demo_wf)
    (simp add: demo_event_def)

theorem unsigned_request_refused_witness:
  "denied (demo_request ''n1'' (demo_event ''n1''))
      (fst (serve ref_web (demo_request ''n1'' (demo_event ''n1'')) (demo_server [''n1''])))
   \<and> srv_pg (snd (serve ref_web (demo_request ''n1'' (demo_event ''n1'')) (demo_server [''n1''])))
       = srv_pg (demo_server [''n1''])"
  by (rule unsigned_request_refused [of ref_web _ "''n1''" "''n1''"])
    (simp_all add: ref_web_ok demo_routes demo_unsigned)

section \<open>Accepted requests and the life of a nonce\<close>

lemma signed_reaches_handler:
  assumes "web_ok e" "payload_request req" "rq_auth req = Some h" "signed_request e (srv_nonces s) req"
  shows "\<exists>m. signed_message e req = Some m \<and>
     serve e req s = route e (req\<lparr>rq_body := Some (jprint e (am_message m))\<rparr>) (use_nonce h s)"
proof -
  obtain h' m where msg: "header_to_str e h = Some h'" "signed_message e req = Some m" "verify_body e m"
    "h' \<in> set (srv_nonces s)" "as_str (json_index (am_message m) ''nonce'') = Some h'"
    using assms(3,4) by (auto simp: signed_request_def split: option.splits)
  have "h' = h" using header_same [OF assms(1) msg(1)] .
  obtain b where "rq_body req = Some b" "Option.bind (jparse e b) authenticated_message_of_json = Some m"
    using msg(2) by (auto simp: signed_message_def bind_eq_Some_conv)
  with msg assms \<open>h' = h\<close> show ?thesis
    by (simp add: serve_payload verify_payload_def nonce_layer_def)
qed

text \<open>
  C14. A signed request reaches the handler of its route with exactly the signed message as
  its body, after its nonce was taken out of the ring.
\<close>

theorem signed_request_accepted:
  assumes "web_ok e" "payload_request req" "rq_auth req = Some h" "signed_request e (srv_nonces s) req"
  shows "\<exists>m. signed_message e req = Some m \<and>
     serve e req s = route e (req\<lparr>rq_body := Some (jprint e (am_message m))\<rparr>) (use_nonce h s)"
  using signed_reaches_handler [OF assms] .

theorem signed_request_accepted_witness:
  "\<exists>m. signed_message ref_web (demo_request ''n1'' (demo_signed (demo_event ''n1''))) = Some m \<and>
     serve ref_web (demo_request ''n1'' (demo_signed (demo_event ''n1''))) (demo_server [''n1''])
     = route ref_web ((demo_request ''n1'' (demo_signed (demo_event ''n1'')))
         \<lparr>rq_body := Some (jprint ref_web (am_message m))\<rparr>) (use_nonce ''n1'' (demo_server [''n1'']))"
  by (rule signed_request_accepted)
    (simp_all add: ref_web_ok demo_routes demo_is_signed)

text \<open>Nonces enter the ring only by the random draws of the server.\<close>

definition fresh_only :: "server \<Rightarrow> server \<Rightarrow> bool" where
  "fresh_only s s' \<longleftrightarrow> srv_rng s' = srv_rng s \<and> srv_draws s \<le> srv_draws s'
     \<and> set (srv_nonces s') \<subseteq> set (srv_nonces s) \<union> {srv_rng s i |i. srv_draws s \<le> i}"

lemma fresh_only_trans:
  assumes "fresh_only s t" "fresh_only t u"
  shows "fresh_only s u"
proof -
  have "{srv_rng s i |i. srv_draws t \<le> i} \<subseteq> {srv_rng s i |i. srv_draws s \<le> i}"
    using assms(1) by (auto simp: fresh_only_def intro: le_trans)
  with assms show ?thesis by (simp add: fresh_only_def) blast
qed

lemma fresh_only_absent:
  "fresh_only s t \<Longrightarrow> h \<notin> set (srv_nonces s) \<Longrightarrow> \<forall>i \<ge> srv_draws s. srv_rng s i \<noteq> h \<Longrightarrow>
     h \<notin> set (srv_nonces t) \<and> (\<forall>i \<ge> srv_draws t. srv_rng t i \<noteq> h)"
  by (auto simp: fresh_only_def dest: le_trans)

interpretation srv_fresh: server_relation fresh_only "\<lambda>_ _. True"
proof
  show "moves fresh_only request_nonce"
    using set_trim_nonces by (auto simp: moves_def request_nonce_def Let_def fresh_only_def)
  show "transp fresh_only"
    using fresh_only_trans by (rule transpI)
qed (auto simp: fresh_only_def reflp_def moves_def)

lemma served_nonce_gone:
  assumes "web_ok e" "rq_auth req = Some h" "fst (serve e req s) = Ok res"
    and "\<forall>i \<ge> srv_draws s. srv_rng s i \<noteq> h"
  shows "h \<notin> set (srv_nonces (snd (serve e req s)))"
proof -
  have layer: "h \<notin> set (srv_nonces (snd (nonce_layer e req' s)))" if "rq_auth req' = Some h" for req'
  proof -
    have "fresh_only (use_nonce h s) (snd (nonce_layer e req' s))"
      using srv_fresh.route_moves that by (simp add: moves_def nonce_layer_def)
    with assms(4) show ?thesis by (auto simp: fresh_only_def)
  qed
  have forbidden: "snd (forbid m s) = snd (m s)" for m
    by (simp add: forbid_def and_then_def ret_def split: prod.split outcome.split)
  show ?thesis
    using assms(2,3) layer
    by (auto simp: serve_def verifier_def verify_get_def verify_payload_def Let_def forbidden panic_def
        split: if_splits option.splits)
qed

lemma unsigned_without_nonce: "web_ok e \<Longrightarrow> rq_auth req = Some h \<Longrightarrow> h \<notin> set ns \<Longrightarrow> \<not> signed_request e ns req"
  by (auto simp: signed_request_def split: option.splits dest: header_same)

text \<open>
  C15. Of requests served one after the other, a nonce serves one: once a request with nonce h was
  answered, and as long as the server does not draw h again, no later payload request with that
  nonce other than a bulk delete changes a table, whatever requests came in between and whoever
  signed it; it is answered 403. Requests in flight together are the subject of C17, bulk deletes
  of C20.
\<close>

theorem nonce_single_use:
  assumes "web_ok e" "rq_auth req = Some h" "fst (serve e req s) = Ok res"
    and "\<forall>i \<ge> srv_draws s. srv_rng s i \<noteq> h"
    and "body_route req'" "rq_auth req' = Some h" "header_to_str e h = Some h"
    and "s' = serve_all e reqs (snd (serve e req s))"
  shows "denied req' (fst (serve e req' s')) \<and> srv_pg (snd (serve e req' s')) = srv_pg s'"
proof (rule unsigned_request_refused)
  let ?s = "snd (serve e req s)"
  have first: "fresh_only s ?s" using srv_fresh.serve_moves by (simp add: moves_def)
  have absent: "h \<notin> set (srv_nonces ?s)" by (rule served_nonce_gone [OF assms(1-4)])
  have undrawn: "\<forall>i \<ge> srv_draws ?s. srv_rng ?s i \<noteq> h"
    using first assms(4) by (auto simp: fresh_only_def dest: le_trans)
  have "h \<notin> set (srv_nonces s')"
    using fresh_only_absent [OF srv_fresh.run_moves absent undrawn] assms(8) by simp
  then show "\<not> signed_request e (srv_nonces s') req'"
    by (rule unsigned_without_nonce [OF assms(1,6)])
qed (use assms in simp_all)

lemma demo_signed_Ok:
  "fst (serve ref_web (demo_request ''n2'' (demo_signed (demo_event ''n2''))) (demo_server [''n2'']))
     = Ok (ok_json ref_web (event_to_json \<lparr>e_id = 1, e_event_id = ''e'', e_content = ''c'', e_key = ''k''\<rparr>))"
proof -
  obtain m where m: "signed_message ref_web (demo_request ''n2'' (demo_signed (demo_event ''n2''))) = Some m"
    and run: "serve ref_web (demo_request ''n2'' (demo_signed (demo_event ''n2''))) (demo_server [''n2''])
      = route ref_web ((demo_request ''n2'' (demo_signed (demo_event ''n2'')))
          \<lparr>rq_body := Some (jprint ref_web (am_message m))\<rparr>) (use_nonce ''n2'' (demo_server [''n2'']))"
    using signed_reaches_handler [of ref_web "demo_request ''n2'' (demo_signed (demo_event ''n2''))" "''n2''"
        "demo_server [''n2'']"]
    by (auto simp: ref_web_ok demo_routes demo_is_signed)
  have "am_message m = json_canon (demo_event ''n2'')"
    using m by (auto simp: demo_signed_message)
  moreover have "new_event_of_json (json_canon (demo_event ''n2''))
      = Some \<lparr>ne_event_id = ''e'', ne_content = ''c'', ne_key = ''k''\<rparr>"
    by (simp add: new_event_of_json_def read_canon demo_wf) (simp add: demo_event_def)
  ultimately show ?thesis
    using run
    by (simp add: demo_request_def demo_server_def demo_pg_def json_canon_idem route_def create_event_def json_body_def and_then_def
        pool_get_def handle_def on_pg_def on_part_def ret_def crate_defs db_create_event_def stmt_def
        sql_insert_def use_nonce_def event_ident_def i32_max_def Let_def)
qed

theorem nonce_single_use_witness:
  "let req = demo_request ''n2'' (demo_signed (demo_event ''n2''));
       s' = snd (serve ref_web req (demo_server [''n2'']))
   in denied req (fst (serve ref_web req s')) \<and> srv_pg (snd (serve ref_web req s')) = srv_pg s'"
  using nonce_single_use [OF ref_web_ok demo_routes(3) demo_signed_Ok _ demo_routes(1) demo_routes(3)
      _ refl, of "demo_signed (demo_event ''n2'')" "[]"]
  by (simp add: demo_server_rng Let_def)

section \<open>What the layering does not give\<close>

text \<open>
  C20. The middleware calls the service before it decides: a DELETE of all contracts of a key
  takes effect although the request is not signed and is answered 403.
\<close>

theorem bulk_delete_before_verdict:
  assumes "rq_method req = DELETE" "path_param e ''/contracts/'' (rq_path req) = Some ckey"
    and "rq_auth req = Some header" "header_to_str e header = Some h" "rq_body req = Some b"
    and "\<not> signed_request e (srv_nonces s) req"
    and "pg_ok (srv_pg s)" "srv_pool s = []" "pg_faults (srv_pg s) = []"
  shows "\<exists>res. fst (serve e req s) = Ok res \<and> rs_status res = 403
    \<and> contract_view (srv_pg (snd (serve e req s)))
        = (\<lambda>k. if fst k = ckey then None else contract_view (srv_pg s) k)"
proof -
  let ?taken = "req\<lparr>rq_body := Some []\<rparr>" and ?s = "use_nonce header s"
  have path: "rq_path req \<noteq> ''/contract''" "rq_path req \<noteq> ''/event''"
    "payload_request req"
    using assms(1,2)
    by (auto simp: path_param_def path_segment_def Let_def starts_with_def payload_request_def unprotected_paths_def
        verified_get_def split: if_splits)
  have run: "serve e req s = forbid (nonce_layer e ?taken) s"
    using serve_payload [OF path(3) assms(3,4)] assms(3-6)
    by (auto simp: verify_payload_def Let_def signed_request_def signed_message_def split: option.split)
  have handler: "nonce_layer e ?taken s = delete_contracts e ckey ?s"
    using assms(1-3) path by (simp add: nonce_layer_def route_def route_delete_def)
  obtain n c where del: "writer_delete_all_contracts ckey (srv_pg s) = (Ok n, c)"
    using assms(9) by (simp add: crate_defs db_delete_all_contracts_def stmt_def on_part_def sql_delete_def)
  have "contract_view c = (\<lambda>k. if fst k = ckey then None else contract_view (srv_pg s) k)"
    using delete_all_contracts_law [OF assms(7), of ckey] del by (simp add: wp_def crate_defs)
  with del assms(8) show ?thesis
    by (simp add: run handler delete_contracts_def and_then_def pool_get_def handle_def on_pg_def
        on_part_def ret_def forbid_def)
qed

definition demo_delete :: http_request where
  "demo_delete = \<lparr>rq_method = DELETE, rq_path = ''/contracts/k'', rq_query = [],
     rq_auth = Some ''zz'', rq_is_json = False, rq_body = Some []\<rparr>"

definition demo_stocked :: server where
  "demo_stocked = (demo_server [])\<lparr>srv_pg := demo_stocked_pg\<rparr>"

lemma demo_stocked_ok: "pg_ok (srv_pg demo_stocked)"
  by (simp add: demo_stocked_def demo_pg_ok)

theorem bulk_delete_before_verdict_witness:
  "\<exists>res. fst (serve ref_web demo_delete demo_stocked) = Ok res \<and> rs_status res = 403
    \<and> contract_view (srv_pg (snd (serve ref_web demo_delete demo_stocked)))
        = (\<lambda>k. if fst k = ''k'' then None else contract_view (srv_pg demo_stocked) k)"
  by (rule bulk_delete_before_verdict [where header = "''zz''" and h = "''zz''" and b = "[]"])
    (simp_all add: demo_stocked_ok, simp_all add: demo_delete_def path_param_def path_segment_def starts_with_def
      signed_request_def signed_message_def demo_stocked_def demo_server_def demo_stocked_pg_def demo_pg_def)

text \<open>
  A read whose signature does not verify, or whose nonce is not live, is answered with the
  same body as a verified one; only the status says 403.
\<close>

theorem unverified_get_body:
  assumes "rq_method req = GET" "rq_path req = ''/contracts''"
    and "rq_auth req = Some header" "header_to_str e header = Some h"
    and "contract_auth_query (rq_query req) = Some (key, sg)"
    and "\<not> verify_query_params e sg key h \<or> h \<notin> set (srv_nonces s)"
    and "get_contracts e req (use_nonce header s) = (Ok res, s')"
  shows "serve e req s = (Ok (res\<lparr>rs_status := 403\<rparr>), s')"
  using assms
  by (auto simp: serve_def verifier_def verify_get_def unprotected_paths_def starts_with_def
      nonce_layer_def route_def intro!: forbid_run)

definition demo_get :: http_request where
  "demo_get = \<lparr>rq_method = GET, rq_path = ''/contracts'',
     rq_query = [(''key'', ''k''), (''signature'', ''zz'')],
     rq_auth = Some ''zz'', rq_is_json = False, rq_body = Some []\<rparr>"

lemma demo_get_runs:
  "get_contracts ref_web demo_get (use_nonce ''zz'' demo_stocked)
     = (Ok (ok_json ref_web (JArr [contract_to_json demo_row])), demo_stocked)"
  by (simp add: demo_get_def get_contracts_def contract_params_of_query_def q_req_def and_then_def
      pool_get_def handle_def on_pg_def on_part_def ret_def crate_defs db_get_contracts_def stmt_def
      sql_select_def use_nonce_def demo_stocked_def demo_server_def demo_stocked_pg_def demo_pg_def demo_row_def opt_filter_def)

theorem unverified_get_body_witness:
  "serve ref_web demo_get demo_stocked
     = (Ok (ok_json ref_web (JArr [contract_to_json demo_row])\<lparr>rs_status := 403\<rparr>), demo_stocked)"
  by (rule unverified_get_body [OF _ _ _ _ _ _ demo_get_runs, where key = "''k''" and sg = "''zz''" and h = "''zz''"])
    (simp_all add: demo_get_def contract_auth_query_def q_req_def demo_stocked_def demo_server_def)

text \<open>A request without an authorization header is not checked at all.\<close>

lemma missing_header_unchecked: "rq_auth req = None \<Longrightarrow> serve e req s = route e req s"
  by (simp add: serve_def verifier_def nonce_layer_def)

section \<open>The invariant over any traffic\<close>

text \<open>
  Whatever requests arrive, in whatever order and with whatever faults of the database and
  the pool, the tables keep their unique identities and serials and the ring of nonces holds
  at most NONCE_VEC_LENGTH entries.
\<close>

theorem service_invariant:
  assumes "srv_ok s"
  shows "srv_ok (serve_all e reqs s)"
  using srv_inv.run_moves assms by blast

theorem service_invariant_witness:
  "srv_ok (serve_all ref_web [demo_delete, demo_get] demo_stocked)"
  by (rule service_invariant)
    (simp add: srv_ok_def demo_stocked_ok, simp add: demo_stocked_def demo_server_def)

end
