(* ===== verification/Dlc_Types.thy ===== *)
theory Dlc_Types
  imports Prelude
begin

text \<open>
  The data of the rust-dlc library that the stack's code reads and builds. The library is a
  git dependency: of its structs only the fields the code touches are fields here, the others
  are one opaque byte string (\<open>_rest\<close>), and its functions are fields of the record
  \<open>dlc_ext\<close>. \<open>dlc_ok\<close> states what their documentation promises: which id each state of a
  contract carries, and that serialization can be undone.
\<close>

section \<open>Transactions and oracle messages\<close>

record transaction =
  tx_lock_time :: u32
  tx_body :: bytes

record digit_descriptor =
  dd_base :: u16
  dd_is_signed :: bool
  dd_unit :: string
  dd_precision :: int
  dd_nb_digits :: u16

datatype event_descriptor = EnumEvent "string list" | DigitDecompositionEvent digit_descriptor

record oracle_event =
  oe_nonces :: "bytes list"
  oe_maturity_epoch :: u32
  oe_descriptor :: event_descriptor
  oe_event_id :: string

record announcement =
  ann_signature :: bytes
  ann_oracle_public_key :: bytes
  ann_oracle_event :: oracle_event

record attestation =
  att_oracle_public_key :: bytes
  att_signatures :: "bytes list"
  att_outcomes :: "string list"

section \<open>Contracts\<close>

record contract_info =
  ci_oracle_announcements :: "announcement list"
  ci_threshold :: nat
  ci_rest :: bytes

record offered_contract =
  oc_id :: bytes
  oc_counter_party :: bytes
  oc_contract_info :: "contract_info list"
  oc_rest :: bytes

record accepted_contract =
  ac_offered_contract :: offered_contract
  ac_adaptor_infos :: "bytes list"
  ac_fund :: transaction
  ac_refund :: transaction
  ac_funding_script_pubkey :: bytes
  ac_accept_collateral :: u64
  ac_rest :: bytes

record signed_contract =
  sc_accepted_contract :: accepted_contract
  sc_channel_id :: "bytes option"
  sc_rest :: bytes

record preclosed_contract =
  pc_signed_contract :: signed_contract
  pc_attestations :: "attestation list option"
  pc_signed_cet :: transaction

record closed_contract =
  cl_attestations :: "attestation list option"
  cl_signed_cet :: "transaction option"
  cl_contract_id :: bytes
  cl_temporary_contract_id :: bytes
  cl_counter_party_id :: bytes
  cl_pnl :: int

record offer_dlc =
  od_temporary_contract_id :: bytes
  od_rest :: bytes

record accept_dlc =
  ad_temporary_contract_id :: bytes
  ad_rest :: bytes

record sign_dlc =
  sd_contract_id :: bytes
  sd_rest :: bytes

datatype dlc_message =
    OfferMsg offer_dlc | AcceptMsg accept_dlc | SignMsg sign_dlc | OtherMsg bytes

record failed_accept_contract =
  fa_offered_contract :: offered_contract
  fa_accept_message :: accept_dlc
  fa_error_message :: string

record failed_sign_contract =
  fs_accepted_contract :: accepted_contract
  fs_sign_message :: sign_dlc
  fs_error_message :: string

datatype dlc_contract =
    Offered offered_contract
  | Accepted accepted_contract
  | Signed signed_contract
  | Confirmed signed_contract
  | PreClosed preclosed_contract
  | Closed closed_contract
  | Refunded signed_contract
  | FailedAccept failed_accept_contract
  | FailedSign failed_sign_contract
  | Rejected offered_contract

datatype dlc_error =
    InvalidParameters string
  | InvalidState string
  | StorageError string
  | WalletError string
  | OracleError string
  | BlockchainError string
  | IOError string
  | LibError string

section \<open>Functions of the library\<close>

record dlc_ext =
  get_id :: "dlc_contract \<Rightarrow> bytes"
  get_temporary_id :: "dlc_contract \<Rightarrow> bytes"
  get_counter_party_id :: "dlc_contract \<Rightarrow> bytes"
  accepted_id :: "accepted_contract \<Rightarrow> bytes"
  txid :: "transaction \<Rightarrow> bytes"
  compute_pnl :: "accepted_contract \<Rightarrow> transaction \<Rightarrow> int"
  dlc_error_text :: "dlc_error \<Rightarrow> string"
  ser_offered :: "offered_contract \<Rightarrow> (bytes, string) outcome"
  ser_accepted :: "accepted_contract \<Rightarrow> (bytes, string) outcome"
  ser_signed :: "signed_contract \<Rightarrow> (bytes, string) outcome"
  ser_preclosed :: "preclosed_contract \<Rightarrow> (bytes, string) outcome"
  ser_closed :: "closed_contract \<Rightarrow> (bytes, string) outcome"
  ser_failed_accept :: "failed_accept_contract \<Rightarrow> (bytes, string) outcome"
  ser_failed_sign :: "failed_sign_contract \<Rightarrow> (bytes, string) outcome"
  de_offered :: "bytes \<Rightarrow> (offered_contract, string) outcome"
  de_accepted :: "bytes \<Rightarrow> (accepted_contract, string) outcome"
  de_signed :: "bytes \<Rightarrow> (signed_contract, string) outcome"
  de_preclosed :: "bytes \<Rightarrow> (preclosed_contract, string) outcome"
  de_closed :: "bytes \<Rightarrow> (closed_contract, string) outcome"
  de_failed_accept :: "bytes \<Rightarrow> (failed_accept_contract, string) outcome"
  de_failed_sign :: "bytes \<Rightarrow> (failed_sign_contract, string) outcome"

definition ids_ok :: "dlc_ext \<Rightarrow> bool" where
  "ids_ok D \<longleftrightarrow>
     (\<forall>oc. get_id D (Offered oc) = oc_id oc \<and> get_id D (Rejected oc) = oc_id oc) \<and>
     (\<forall>ac. get_id D (Accepted ac) = accepted_id D ac) \<and>
     (\<forall>sc. get_id D (Signed sc) = accepted_id D (sc_accepted_contract sc)
        \<and> get_id D (Confirmed sc) = accepted_id D (sc_accepted_contract sc)
        \<and> get_id D (Refunded sc) = accepted_id D (sc_accepted_contract sc)) \<and>
     (\<forall>pc. get_id D (PreClosed pc) = accepted_id D (sc_accepted_contract (pc_signed_contract pc))) \<and>
     (\<forall>cl. get_id D (Closed cl) = cl_contract_id cl) \<and>
     (\<forall>fa. get_id D (FailedAccept fa) = oc_id (fa_offered_contract fa)) \<and>
     (\<forall>fs. get_id D (FailedSign fs) = accepted_id D (fs_accepted_contract fs)) \<and>
     (\<forall>ac. get_temporary_id D (Accepted ac) = oc_id (ac_offered_contract ac)) \<and>
     (\<forall>sc. get_temporary_id D (Signed sc) = oc_id (ac_offered_contract (sc_accepted_contract sc))) \<and>
     (\<forall>oc. get_counter_party_id D (Offered oc) = oc_counter_party oc) \<and>
     (\<forall>ac. get_counter_party_id D (Accepted ac) = oc_counter_party (ac_offered_contract ac))"

definition undoes :: "('b \<Rightarrow> ('a, 'e) outcome) \<Rightarrow> ('a \<Rightarrow> ('b, 'e) outcome) \<Rightarrow> bool" where
  "undoes de ser \<longleftrightarrow> (\<forall>x b. ser x = Ok b \<longrightarrow> de b = Ok x)"

definition ser_ok :: "dlc_ext \<Rightarrow> bool" where
  "ser_ok D \<longleftrightarrow> undoes (de_offered D) (ser_offered D) \<and> undoes (de_accepted D) (ser_accepted D)
     \<and> undoes (de_signed D) (ser_signed D) \<and> undoes (de_preclosed D) (ser_preclosed D)
     \<and> undoes (de_closed D) (ser_closed D) \<and> undoes (de_failed_accept D) (ser_failed_accept D)
     \<and> undoes (de_failed_sign D) (ser_failed_sign D)"

definition dlc_ok :: "dlc_ext \<Rightarrow> bool" where
  "dlc_ok D \<longleftrightarrow> ids_ok D \<and> ser_ok D"

lemma id_simps [simp]:
  assumes "dlc_ok D"
  shows "get_id D (Offered oc) = oc_id oc" "get_id D (Rejected oc) = oc_id oc"
    "get_id D (Accepted ac) = accepted_id D ac"
    "get_id D (Signed sc) = accepted_id D (sc_accepted_contract sc)"
    "get_id D (Confirmed sc) = accepted_id D (sc_accepted_contract sc)"
    "get_id D (Refunded sc) = accepted_id D (sc_accepted_contract sc)"
    "get_id D (PreClosed pc) = accepted_id D (sc_accepted_contract (pc_signed_contract pc))"
    "get_id D (Closed cl) = cl_contract_id cl"
    "get_id D (FailedAccept fa) = oc_id (fa_offered_contract fa)"
    "get_id D (FailedSign fs) = accepted_id D (fs_accepted_contract fs)"
    "get_temporary_id D (Accepted ac) = oc_id (ac_offered_contract ac)"
    "get_temporary_id D (Signed sc) = oc_id (ac_offered_contract (sc_accepted_contract sc))"
    "get_counter_party_id D (Offered oc) = oc_counter_party oc"
    "get_counter_party_id D (Accepted ac) = oc_counter_party (ac_offered_contract ac)"
  using assms by (auto simp: dlc_ok_def ids_ok_def)

lemma ser_undone:
  assumes "dlc_ok D"
  shows "ser_offered D x1 = Ok b \<Longrightarrow> de_offered D b = Ok x1"
    "ser_accepted D x2 = Ok b \<Longrightarrow> de_accepted D b = Ok x2"
    "ser_signed D x3 = Ok b \<Longrightarrow> de_signed D b = Ok x3"
    "ser_preclosed D x4 = Ok b \<Longrightarrow> de_preclosed D b = Ok x4"
    "ser_closed D x5 = Ok b \<Longrightarrow> de_closed D b = Ok x5"
    "ser_failed_accept D x6 = Ok b \<Longrightarrow> de_failed_accept D b = Ok x6"
    "ser_failed_sign D x7 = Ok b \<Longrightarrow> de_failed_sign D b = Ok x7"
  using assms by (auto simp: dlc_ok_def ser_ok_def undoes_def)

end
