(* ===== verification/Hex.thy ===== *)
theory Hex
  imports Prelude
begin

text \<open>
  Hexadecimal text: the \<open>{:02x}\<close> formatting that names contracts
  (\<open>get_contract_id_string\<close>, \<open>hex_str\<close>) and \<open>decode_hex\<close> of the attestor client. A Rust
  string is its UTF-8 bytes, one \<open>char\<close> each; slicing a string inside a character panics.
\<close>

section \<open>Formatting\<close>

definition hex_digit :: "nat \<Rightarrow> char" where
  "hex_digit n = (if n < 10 then char_of (48 + n) else char_of (87 + n))"

definition byte_hex :: "u8 \<Rightarrow> string" where
  "byte_hex b = [hex_digit (unat b div 16), hex_digit (unat b mod 16)]"

definition hex_str :: "bytes \<Rightarrow> string" where
  "hex_str value = concat (map byte_hex value)"

definition get_contract_id_string :: "bytes \<Rightarrow> string" where
  "get_contract_id_string contract_id = ''0x'' @ hex_str contract_id"

section \<open>Parsing\<close>

datatype DecodeHexError = OddLength | ParseInt string

text \<open>A byte at which a UTF-8 character starts.\<close>

definition char_start :: "char \<Rightarrow> bool" where
  "char_start c \<longleftrightarrow> \<not> (128 \<le> (of_char c :: nat) \<and> (of_char c :: nat) < 192)"

definition is_char_boundary :: "string \<Rightarrow> nat \<Rightarrow> bool" where
  "is_char_boundary s i \<longleftrightarrow> i = 0 \<or> i = length s \<or> i < length s \<and> char_start (s ! i)"

definition str_slice :: "string \<Rightarrow> nat \<Rightarrow> nat \<Rightarrow> (string, 'e) outcome" where
  "str_slice s i j =
     (if i \<le> j \<and> is_char_boundary s i \<and> is_char_boundary s j
      then Ok (take (j - i) (drop i s)) else Panic)"

definition to_digit16 :: "char \<Rightarrow> nat option" where
  "to_digit16 c = (let n = of_char c in
     if 48 \<le> n \<and> n \<le> 57 then Some (n - 48)
     else if 65 \<le> n \<and> n \<le> 70 then Some (n - 55)
     else if 97 \<le> n \<and> n \<le> 102 then Some (n - 87)
     else None)"

fun radix16_digits :: "nat \<Rightarrow> string \<Rightarrow> (u8, string) outcome" where
  "radix16_digits acc [] = Ok (word_of_nat acc)"
| "radix16_digits acc (c # cs) =
     (case to_digit16 c of
        None \<Rightarrow> Err ''invalid digit found in string''
      | Some d \<Rightarrow>
          if 255 < acc * 16 + d then Err ''number too large to fit in target type''
          else radix16_digits (acc * 16 + d) cs)"

text \<open>\<open>u8::from_str_radix(s, 16)\<close>: an optional plus sign, then digits.\<close>

definition u8_from_str_radix16 :: "string \<Rightarrow> (u8, string) outcome" where
  "u8_from_str_radix16 s =
     (case s of
        [] \<Rightarrow> Err ''cannot parse integer from empty string''
      | [c] \<Rightarrow> if c = CHR ''+'' \<or> c = CHR ''-'' then Err ''invalid digit found in string''
               else radix16_digits 0 [c]
      | c # cs \<Rightarrow> if c = CHR ''+'' then radix16_digits 0 cs else radix16_digits 0 (c # cs))"

definition decode_hex :: "string \<Rightarrow> (bytes, DecodeHexError) outcome" where
  "decode_hex s =
     (if length s mod 2 \<noteq> 0 then Err OddLength
      else outcome_collect
        (\<lambda>i. outcome_bind (str_slice s i (i + 2)) (\<lambda>t. outcome_map_err ParseInt (u8_from_str_radix16 t)))
        (map (\<lambda>k. 2 * k) [0..<length s div 2]))"

section \<open>Round trip\<close>

lemma hex_digit_simps:
  assumes "n < 16"
  shows "to_digit16 (hex_digit n) = Some n" "char_start (hex_digit n)" "hex_digit n \<noteq> CHR ''+''"
proof -
  have code: "(of_char (hex_digit n) :: nat) = (if n < 10 then 48 + n else 87 + n)"
    using assms by (simp add: hex_digit_def)
  have "(of_char (hex_digit n) :: nat) \<noteq> of_char (CHR ''+'')"
    using assms unfolding code by auto
  then have "hex_digit n \<noteq> CHR ''+''" by metis
  with assms have "to_digit16 (hex_digit n) = Some n \<and> char_start (hex_digit n) \<and> hex_digit n \<noteq> CHR ''+''"
    by (simp add: to_digit16_def char_start_def code Let_def)
  then show "to_digit16 (hex_digit n) = Some n" "char_start (hex_digit n)" "hex_digit n \<noteq> CHR ''+''"
    by auto
qed

lemma unat_u8: "unat (b :: u8) < 256"
  using unsigned_less [of b, where ?'a = nat] by simp

lemma unat_u8_nibbles: "unat (b :: u8) div 16 < 16" "unat b mod 16 < 16"
  using unat_u8 [of b] by auto

lemma from_radix_byte_hex: "u8_from_str_radix16 (byte_hex b) = Ok b"
proof -
  have "unat b div 16 * 16 + unat b mod 16 = unat b" by simp
  then show ?thesis
    using hex_digit_simps [OF unat_u8_nibbles(1), of b] hex_digit_simps [OF unat_u8_nibbles(2), of b]
      unat_u8 [of b] unat_u8_nibbles [of b]
    by (simp add: u8_from_str_radix16_def byte_hex_def)
qed

lemma length_hex_str [simp]: "length (hex_str bs) = 2 * length bs"
  by (induction bs) (auto simp: hex_str_def byte_hex_def)

lemma drop_hex_str: "drop (2 * k) (hex_str bs) = hex_str (drop k bs)"
proof (induction bs arbitrary: k)
  case (Cons b bs)
  then show ?case by (cases k) (auto simp: hex_str_def byte_hex_def)
qed (simp add: hex_str_def)

lemma char_start_hex_str: "c \<in> set (hex_str bs) \<Longrightarrow> char_start c"
  using hex_digit_simps(2) [OF unat_u8_nibbles(1)] hex_digit_simps(2) [OF unat_u8_nibbles(2)]
  by (auto simp: hex_str_def byte_hex_def)

lemma slice_hex_str:
  assumes "k < length bs"
  shows "str_slice (hex_str bs) (2 * k) (2 * k + 2) = Ok (byte_hex (bs ! k))"
proof -
  have "take 2 (hex_str (drop k bs)) = byte_hex (bs ! k)"
    using assms by (simp add: Cons_nth_drop_Suc [symmetric] hex_str_def byte_hex_def)
  moreover have "is_char_boundary (hex_str bs) i" if "i \<le> length (hex_str bs)" for i
    using that char_start_hex_str [OF nth_mem, of i bs] by (auto simp: is_char_boundary_def)
  ultimately show ?thesis
    using assms by (simp add: str_slice_def drop_hex_str)
qed

lemma decode_hex_str: "decode_hex (hex_str bs) = Ok bs"
proof -
  have "outcome_collect (\<lambda>i. outcome_bind (str_slice (hex_str bs) i (i + 2))
        (\<lambda>t. outcome_map_err ParseInt (u8_from_str_radix16 t))) (map (\<lambda>k. 2 * k) [0..<length bs])
      = Ok (map (\<lambda>i. bs ! (i div 2)) (map (\<lambda>k. 2 * k) [0..<length bs]))"
    by (rule outcome_collect_all) (auto simp: slice_hex_str [simplified] from_radix_byte_hex)
  then show ?thesis
    by (simp add: decode_hex_def comp_def map_nth)
qed

lemma hex_str_inj: "hex_str a = hex_str b \<longleftrightarrow> a = b"
  by (metis decode_hex_str outcome.inject(1))

lemma contract_id_string_inj: "get_contract_id_string a = get_contract_id_string b \<longleftrightarrow> a = b"
  by (simp add: get_contract_id_string_def hex_str_inj)

end
