(* ===== verification/Contract_Codec.thy ===== *)
theory Contract_Codec
  imports Dlc_Types Hex
begin

text \<open>
  \<open>clients/src/utils.rs\<close>: the stored form of a contract is one prefix byte for its state
  followed by the library's serialization, and a column holds the state as a word. The
  \<open>convertible_enum!\<close> macro numbers the prefixes from 1 in the order of its list.
\<close>

definition to_storage_error :: "('e \<Rightarrow> string) \<Rightarrow> 'e \<Rightarrow> dlc_error" where
  "to_storage_error show e = StorageError (show e)"

datatype ContractPrefix =
    POffered | PAccepted | PSigned | PConfirmed | PPreClosed | PClosed | PFailedAccept
  | PFailedSign | PRefunded | PRejected

fun prefix_u8 :: "ContractPrefix \<Rightarrow> u8" where
  "prefix_u8 POffered = 1"
| "prefix_u8 PAccepted = 2"
| "prefix_u8 PSigned = 3"
| "prefix_u8 PConfirmed = 4"
| "prefix_u8 PPreClosed = 5"
| "prefix_u8 PClosed = 6"
| "prefix_u8 PFailedAccept = 7"
| "prefix_u8 PFailedSign = 8"
| "prefix_u8 PRefunded = 9"
| "prefix_u8 PRejected = 10"

definition prefix_try_from :: "u8 \<Rightarrow> (ContractPrefix, dlc_error) outcome" where
  "prefix_try_from x =
     (if x = prefix_u8 POffered then Ok POffered
      else if x = prefix_u8 PAccepted then Ok PAccepted
      else if x = prefix_u8 PSigned then Ok PSigned
      else if x = prefix_u8 PConfirmed then Ok PConfirmed
      else if x = prefix_u8 PPreClosed then Ok PPreClosed
      else if x = prefix_u8 PClosed then Ok PClosed
      else if x = prefix_u8 PFailedAccept then Ok PFailedAccept
      else if x = prefix_u8 PFailedSign then Ok PFailedSign
      else if x = prefix_u8 PRefunded then Ok PRefunded
      else if x = prefix_u8 PRejected then Ok PRejected
      else Err (StorageError ''Unknown prefix''))"

fun prefix_of :: "dlc_contract \<Rightarrow> ContractPrefix" where
  "prefix_of (Offered _) = POffered"
| "prefix_of (Accepted _) = PAccepted"
| "prefix_of (Signed _) = PSigned"
| "prefix_of (Confirmed _) = PConfirmed"
| "prefix_of (PreClosed _) = PPreClosed"
| "prefix_of (Closed _) = PClosed"
| "prefix_of (FailedAccept _) = PFailedAccept"
| "prefix_of (FailedSign _) = PFailedSign"
| "prefix_of (Refunded _) = PRefunded"
| "prefix_of (Rejected _) = PRejected"

definition get_prefix :: "dlc_contract \<Rightarrow> u8" where
  "get_prefix c = prefix_u8 (prefix_of c)"

fun serialize_inner :: "dlc_ext \<Rightarrow> dlc_contract \<Rightarrow> (bytes, string) outcome" where
  "serialize_inner D (Offered c) = ser_offered D c"
| "serialize_inner D (Accepted c) = ser_accepted D c"
| "serialize_inner D (Signed c) = ser_signed D c"
| "serialize_inner D (Confirmed c) = ser_signed D c"
| "serialize_inner D (Refunded c) = ser_signed D c"
| "serialize_inner D (FailedAccept c) = ser_failed_accept D c"
| "serialize_inner D (FailedSign c) = ser_failed_sign D c"
| "serialize_inner D (PreClosed c) = ser_preclosed D c"
| "serialize_inner D (Closed c) = ser_closed D c"
| "serialize_inner D (Rejected c) = ser_offered D c"

definition serialize_contract :: "dlc_ext \<Rightarrow> dlc_contract \<Rightarrow> (bytes, string) outcome" where
  "serialize_contract D contract =
     outcome_bind (serialize_inner D contract) (\<lambda>serialized. Ok (get_prefix contract # serialized))"

text \<open>Reads the rest of the buffer as the struct the prefix names.\<close>

fun deserialize_inner :: "dlc_ext \<Rightarrow> ContractPrefix \<Rightarrow> bytes \<Rightarrow> (dlc_contract, string) outcome" where
  "deserialize_inner D POffered r = outcome_bind (de_offered D r) (\<lambda>c. Ok (Offered c))"
| "deserialize_inner D PAccepted r = outcome_bind (de_accepted D r) (\<lambda>c. Ok (Accepted c))"
| "deserialize_inner D PSigned r = outcome_bind (de_signed D r) (\<lambda>c. Ok (Signed c))"
| "deserialize_inner D PConfirmed r = outcome_bind (de_signed D r) (\<lambda>c. Ok (Confirmed c))"
| "deserialize_inner D PPreClosed r = outcome_bind (de_preclosed D r) (\<lambda>c. Ok (PreClosed c))"
| "deserialize_inner D PClosed r = outcome_bind (de_closed D r) (\<lambda>c. Ok (Closed c))"
| "deserialize_inner D PFailedAccept r = outcome_bind (de_failed_accept D r) (\<lambda>c. Ok (FailedAccept c))"
| "deserialize_inner D PFailedSign r = outcome_bind (de_failed_sign D r) (\<lambda>c. Ok (FailedSign c))"
| "deserialize_inner D PRefunded r = outcome_bind (de_signed D r) (\<lambda>c. Ok (Refunded c))"
| "deserialize_inner D PRejected r = outcome_bind (de_offered D r) (\<lambda>c. Ok (Rejected c))"

definition deserialize_contract :: "dlc_ext \<Rightarrow> bytes \<Rightarrow> (dlc_contract, dlc_error) outcome" where
  "deserialize_contract D buff =
     (case buff of
        [] \<Rightarrow> Err (IOError ''failed to fill whole buffer'')
      | prefix # rest \<Rightarrow>
          outcome_bind (prefix_try_from prefix) (\<lambda>contract_prefix.
          outcome_map_err (to_storage_error (\<lambda>t. t)) (deserialize_inner D contract_prefix rest)))"

fun get_contract_state_str :: "dlc_contract \<Rightarrow> string" where
  "get_contract_state_str (Offered _) = ''offered''"
| "get_contract_state_str (Accepted _) = ''accepted''"
| "get_contract_state_str (Signed _) = ''signed''"
| "get_contract_state_str (Confirmed _) = ''confirmed''"
| "get_contract_state_str (PreClosed _) = ''pre_closed''"
| "get_contract_state_str (Closed _) = ''closed''"
| "get_contract_state_str (Refunded _) = ''refunded''"
| "get_contract_state_str (FailedAccept _) = ''failed_accept''"
| "get_contract_state_str (FailedSign _) = ''failed_sign''"
| "get_contract_state_str (Rejected _) = ''rejected''"

section \<open>Laws\<close>

lemma prefix_roundtrip: "prefix_try_from (prefix_u8 p) = Ok p"
  by (cases p) (simp_all add: prefix_try_from_def)

lemma deserialize_serialize:
  assumes "dlc_ok D" "serialize_contract D c = Ok b"
  shows "deserialize_contract D b = Ok c"
proof -
  obtain r where r: "serialize_inner D c = Ok r" "b = get_prefix c # r"
    using assms(2) by (auto simp: serialize_contract_def)
  have "deserialize_inner D (prefix_of c) r = Ok c"
    using r(1) by (cases c) (auto dest: ser_undone [OF assms(1)])
  with r(2) show ?thesis
    by (simp add: deserialize_contract_def get_prefix_def prefix_roundtrip)
qed

text \<open>The state column tells the constructor: the two ways to record the state agree.\<close>

lemma state_str_prefix:
  "get_contract_state_str a = get_contract_state_str b \<longleftrightarrow> prefix_of a = prefix_of b"
  by (cases a; cases b) simp_all

end
