(* ===== verification/Contract_Store.thy ===== *)
theory Contract_Store
  imports Contract_Codec
begin

text \<open>
  The interface between the DLC manager and its contract store: the operations of the trait
  \<open>AsyncStorage\<close> (\<open>dlc-link-manager/src/lib.rs\<close>) as a record of effectful calls, and the
  locale \<open>contract_store\<close> with the laws the manager relies on, stated over a view that maps
  contract ids to contracts. A failed call may or may not have taken effect (the reply of a
  remote store can be lost), so the laws leave both open.
\<close>

record 'w async_storage =
  as_get_contract :: "bytes \<Rightarrow> ('w, dlc_contract option, dlc_error) io"
  as_get_contracts :: "('w, dlc_contract list, dlc_error) io"
  as_create_contract :: "offered_contract \<Rightarrow> ('w, unit, dlc_error) io"
  as_delete_contract :: "bytes \<Rightarrow> ('w, unit, dlc_error) io"
  as_update_contract :: "dlc_contract \<Rightarrow> ('w, unit, dlc_error) io"
  as_get_contract_offers :: "('w, offered_contract list, dlc_error) io"
  as_get_signed_contracts :: "('w, signed_contract list, dlc_error) io"
  as_get_confirmed_contracts :: "('w, signed_contract list, dlc_error) io"
  as_get_preclosed_contracts :: "('w, preclosed_contract list, dlc_error) io"

text \<open>
  What an update may leave behind. \<open>Accepted\<close> and \<open>Signed\<close> contracts replace the record under
  the temporary id by one under the final id and are created when missing; the other states
  only overwrite a record that exists.
\<close>

definition replaces :: "dlc_contract \<Rightarrow> bool" where
  "replaces c \<longleftrightarrow> (case c of Accepted _ \<Rightarrow> True | Signed _ \<Rightarrow> True | _ \<Rightarrow> False)"

lemma replaces_simps [simp]:
  "replaces (Offered oc) = False" "replaces (Accepted ac) = True" "replaces (Signed sc) = True"
  "replaces (Confirmed sc) = False" "replaces (PreClosed pc) = False" "replaces (Closed cl) = False"
  "replaces (Refunded sc) = False" "replaces (FailedAccept fa) = False" "replaces (FailedSign fs) = False"
  "replaces (Rejected oc) = False"
  by (simp_all add: replaces_def)

text \<open>The view after the record of the temporary id may have been removed.\<close>

definition vacated :: "dlc_ext \<Rightarrow> dlc_contract \<Rightarrow> (bytes \<Rightarrow> dlc_contract option) \<Rightarrow> (bytes \<Rightarrow> dlc_contract option) \<Rightarrow> bool" where
  "vacated D c v u \<longleftrightarrow> u = v \<or> replaces c \<and> u = v(get_temporary_id D c := None)"

definition stored :: "dlc_ext \<Rightarrow> dlc_contract \<Rightarrow> (bytes \<Rightarrow> dlc_contract option) \<Rightarrow> (bytes \<Rightarrow> dlc_contract option) \<Rightarrow> bool" where
  "stored D c v v' \<longleftrightarrow> (\<exists>u. vacated D c v u \<and> (\<not> replaces c \<longrightarrow> v (get_id D c) \<noteq> None)
     \<and> v' = u(get_id D c \<mapsto> c))"

definition listed :: "dlc_ext \<Rightarrow> (bytes \<Rightarrow> dlc_contract option) \<Rightarrow> ('a \<Rightarrow> dlc_contract) \<Rightarrow> 'a list \<Rightarrow> bool" where
  "listed D v C xs \<longleftrightarrow> distinct (map (\<lambda>x. get_id D (C x)) xs)
     \<and> set xs = {x. v (get_id D (C x)) = Some (C x)}"

locale contract_store =
  fixes D :: dlc_ext
    and st :: "'w async_storage"
    and view :: "'w \<Rightarrow> bytes \<Rightarrow> dlc_contract option"
    and inv :: "'w \<Rightarrow> bool"
  assumes view_id: "inv w \<Longrightarrow> view w i = Some c \<Longrightarrow> get_id D c = i"
    and get_law: "inv w \<Longrightarrow> wp (as_get_contract st i)
      (\<lambda>r w'. inv w' \<and> view w' = view w \<and> (\<forall>x. r = Ok x \<longrightarrow> x = view w i)) w"
    and create_law: "inv w \<Longrightarrow> wp (as_create_contract st oc)
      (\<lambda>r w'. inv w' \<and>
         (if r = Ok () then view w (oc_id oc) = None \<and> view w' = (view w)(oc_id oc \<mapsto> Offered oc)
          else view w' = view w \<or> view w (oc_id oc) = None \<and> view w' = (view w)(oc_id oc \<mapsto> Offered oc))) w"
    and delete_law: "inv w \<Longrightarrow> wp (as_delete_contract st i)
      (\<lambda>r w'. inv w' \<and>
         (if r = Ok () then view w i \<noteq> None \<and> view w' = (view w)(i := None)
          else view w' = view w \<or> view w' = (view w)(i := None))) w"
    and update_law: "inv w \<Longrightarrow> wp (as_update_contract st c)
      (\<lambda>r w'. inv w' \<and>
         (if r = Ok () then stored D c (view w) (view w')
          else vacated D c (view w) (view w') \<or> stored D c (view w) (view w'))) w"
    and offers_law: "inv w \<Longrightarrow> wp (as_get_contract_offers st)
      (\<lambda>r w'. inv w' \<and> view w' = view w \<and> (\<forall>xs. r = Ok xs \<longrightarrow> listed D (view w) Offered xs)) w"
    and signed_law: "inv w \<Longrightarrow> wp (as_get_signed_contracts st)
      (\<lambda>r w'. inv w' \<and> view w' = view w \<and> (\<forall>xs. r = Ok xs \<longrightarrow> listed D (view w) Signed xs)) w"
    and confirmed_law: "inv w \<Longrightarrow> wp (as_get_confirmed_contracts st)
      (\<lambda>r w'. inv w' \<and> view w' = view w \<and> (\<forall>xs. r = Ok xs \<longrightarrow> listed D (view w) Confirmed xs)) w"
    and preclosed_law: "inv w \<Longrightarrow> wp (as_get_preclosed_contracts st)
      (\<lambda>r w'. inv w' \<and> view w' = view w \<and> (\<forall>xs. r = Ok xs \<longrightarrow> listed D (view w) PreClosed xs)) w"
begin

text \<open>A stored contract is found under its id; an update touches no id but its own two.\<close>

lemma stored_at: "stored D c v v' \<Longrightarrow> v' (get_id D c) = Some c"
  by (auto simp: stored_def)

lemma stored_frame:
  "stored D c v v' \<Longrightarrow> i \<noteq> get_id D c \<Longrightarrow> (replaces c \<Longrightarrow> i \<noteq> get_temporary_id D c) \<Longrightarrow> v' i = v i"
  by (auto simp: stored_def vacated_def)

lemma update_then_get:
  assumes "inv w" "as_update_contract st c w = (Ok (), w1)" "as_get_contract st (get_id D c) w1 = (Ok x, w2)"
  shows "x = Some c"
  using wp_run [OF update_law [OF assms(1)] assms(2)] wp_run [OF get_law assms(3)] stored_at by auto

lemma create_then_get:
  assumes "inv w" "as_create_contract st oc w = (Ok (), w1)" "as_get_contract st (oc_id oc) w1 = (Ok x, w2)"
  shows "x = Some (Offered oc)"
  using wp_run [OF create_law [OF assms(1)] assms(2)] wp_run [OF get_law assms(3)] by auto

lemma create_only_new:
  assumes "inv w" "view w (oc_id oc) = Some c" "as_create_contract st oc w = (r, w1)"
  shows "r \<noteq> Ok () \<and> view w1 = view w"
  using wp_run [OF create_law [OF assms(1)] assms(3)] assms(2) by (auto split: if_splits)

lemma update_missing:
  assumes "inv w" "\<not> replaces c" "view w (get_id D c) = None" "as_update_contract st c w = (r, w1)"
  shows "r \<noteq> Ok () \<and> view w1 = view w"
  using wp_run [OF update_law [OF assms(1)] assms(4)] assms(2,3)
  by (auto simp: stored_def vacated_def split: if_splits)

end

end
