(* ===== verification/Storage_Client.thy ===== *)
theory Storage_Client
  imports Storage_Db Http
begin

text \<open>
  \<open>clients/src/lib.rs\<close>: the storage API client. The HTTP transport is the parameter
  \<open>sac_send\<close> of the client record, a call on an arbitrary world, so that the client can be
  linked to the model of the server or to any other network. Every operation requests a nonce
  first; the mutating ones sign the message with the nonce inside, the reading ones sign the
  nonce.
\<close>

section \<open>Transport\<close>

record reqwest_error =
  rqe_text :: string
  rqe_status :: "nat option"

text \<open>A response whose body is still to be read; reading it may fail.\<close>

record reply =
  rp_status :: nat
  rp_body :: "(string, reqwest_error) outcome"

record ApiError =
  ae_message :: string
  ae_status :: nat

record 'w StorageApiClient =
  sac_host :: string
  sac_send :: "string \<Rightarrow> http_request \<Rightarrow> ('w, reply, reqwest_error) io"

definition api_error_of_reqwest :: "reqwest_error \<Rightarrow> ApiError" where
  "api_error_of_reqwest x =
     \<lparr>ae_message = rqe_text x, ae_status = (case rqe_status x of Some s \<Rightarrow> s | None \<Rightarrow> 400)\<rparr>"

definition api_error_text :: "ApiError \<Rightarrow> string" where
  "api_error_text x = ''ApiError: '' @ show_nat (ae_status x) @ '' - '' @ ae_message x"

text \<open>\<open>send().await?\<close>\<close>

definition send_request :: "'w StorageApiClient \<Rightarrow> http_request \<Rightarrow> ('w, reply, ApiError) io" where
  "send_request c req = map_err api_error_of_reqwest (sac_send c (sac_host c) req)"

text \<open>\<open>res.json::<T>()\<close>\<close>

definition reply_json :: "web_ext \<Rightarrow> (json \<Rightarrow> 'a option) \<Rightarrow> reply \<Rightarrow> ('a, reqwest_error) outcome" where
  "reply_json e f res =
     outcome_bind (rp_body res) (\<lambda>b.
     ok_or (Option.bind (jparse e b) f) \<lparr>rqe_text = display_error e ''decode body'', rqe_status = None\<rparr>)"

definition json_or_api_error ::
  "web_ext \<Rightarrow> (json \<Rightarrow> 'a option) \<Rightarrow> string \<Rightarrow> reply \<Rightarrow> ('w, 'a, ApiError) io" where
  "json_or_api_error e f msg res =
     of_outcome (outcome_map_err
       (\<lambda>x. \<lparr>ae_message = msg @ rqe_text x, ae_status = rp_status res\<rparr>) (reply_json e f res))"

section \<open>Structs\<close>

record ClientContract =
  cc_id :: int
  cc_uuid :: string
  cc_state :: string
  cc_content :: string

record ClientEvent =
  ce_id :: int
  ce_event_id :: string
  ce_content :: string
  ce_key :: string

record ClientContractRequest =
  ccr_key :: string
  ccr_uuid :: string

record ClientEventRequest =
  cer_key :: string
  cer_event_id :: string

record SignedMessage =
  sm_message :: json
  sm_public_key :: string
  sm_signature :: string

definition client_contract_of_json :: "json \<Rightarrow> ClientContract option" where
  "client_contract_of_json j =
     (case (req_int (- i32_max - 1) i32_max j ''id'', req_str j ''uuid'', req_str j ''state'', req_str j ''content'') of
        (Some i, Some u, Some s, Some t) \<Rightarrow> Some \<lparr>cc_id = i, cc_uuid = u, cc_state = s, cc_content = t\<rparr>
      | _ \<Rightarrow> None)"

definition client_event_of_json :: "web_ext \<Rightarrow> json \<Rightarrow> ClientEvent option" where
  "client_event_of_json e j =
     (case (req_int 0 (usize_max e) j ''id'', req_str j ''event_id'', req_str j ''content'', req_str j ''key'') of
        (Some i, Some u, Some t, Some k) \<Rightarrow> Some \<lparr>ce_id = i, ce_event_id = u, ce_content = t, ce_key = k\<rparr>
      | _ \<Rightarrow> None)"

definition effected_num_of_json :: "json \<Rightarrow> int option" where
  "effected_num_of_json j = req_int 0 u32_max j ''effected_num''"

text \<open>\<open>json!(x)\<close> of the request structs.\<close>

definition new_contract_json :: "NewContract \<Rightarrow> json" where
  "new_contract_json r = json_canon (JObj [(''uuid'', JStr (nc_uuid r)), (''state'', JStr (nc_state r)),
     (''content'', JStr (nc_content r)), (''key'', JStr (nc_key r))])"

definition update_contract_json :: "UpdateContract \<Rightarrow> json" where
  "update_contract_json r = json_canon (JObj [(''uuid'', JStr (uc_uuid r)), (''state'', opt_json (uc_state r)),
     (''content'', opt_json (uc_content r)), (''key'', JStr (uc_key r))])"

definition contract_request_json :: "ClientContractRequest \<Rightarrow> json" where
  "contract_request_json r = json_canon (JObj [(''key'', JStr (ccr_key r)), (''uuid'', JStr (ccr_uuid r))])"

definition new_event_json :: "NewEvent \<Rightarrow> json" where
  "new_event_json r = json_canon (JObj [(''event_id'', JStr (ne_event_id r)),
     (''content'', JStr (ne_content r)), (''key'', JStr (ne_key r))])"

definition update_event_json :: "UpdateEvent \<Rightarrow> json" where
  "update_event_json r = json_canon (JObj [(''event_id'', JStr (ue_event_id r)),
     (''content'', JStr (ue_content r)), (''key'', JStr (ue_key r))])"

definition event_request_json :: "ClientEventRequest \<Rightarrow> json" where
  "event_request_json r = json_canon (JObj [(''key'', JStr (cer_key r)), (''event_id'', JStr (cer_event_id r))])"

definition signed_message_json :: "SignedMessage \<Rightarrow> json" where
  "signed_message_json m = JObj [(''message'', sm_message m), (''public_key'', JStr (sm_public_key m)),
     (''signature'', JStr (sm_signature m))]"

section \<open>Nonces and signatures\<close>

definition sign_text :: "web_ext \<Rightarrow> bytes \<Rightarrow> string \<Rightarrow> bytes \<times> bytes" where
  "sign_text e secret_key message =
     (ecdsa_sign e (sha256 e message) secret_key, pk_of_sk e secret_key)"

definition get_request :: "string \<Rightarrow> (string \<times> string) list \<Rightarrow> string option \<Rightarrow> http_request" where
  "get_request path q auth = \<lparr>rq_method = GET, rq_path = path, rq_query = q, rq_auth = auth,
     rq_is_json = False, rq_body = Some []\<rparr>"

definition body_request :: "web_ext \<Rightarrow> http_method \<Rightarrow> string \<Rightarrow> string \<Rightarrow> json \<Rightarrow> http_request" where
  "body_request e meth path nonce body = \<lparr>rq_method = meth, rq_path = path, rq_query = [],
     rq_auth = Some nonce, rq_is_json = True, rq_body = Some (jprint e body)\<rparr>"

definition client_request_nonce :: "'w StorageApiClient \<Rightarrow> ('w, string, ApiError) io" where
  "client_request_nonce c =
     and_then (send_request c (get_request ''/request_nonce'' [] None)) (\<lambda>res.
     of_outcome (outcome_map_err api_error_of_reqwest (rp_body res)))"

definition build_signed_message ::
  "web_ext \<Rightarrow> 'w StorageApiClient \<Rightarrow> bytes \<Rightarrow> json \<Rightarrow> ('w, string \<times> SignedMessage, ApiError) io" where
  "build_signed_message e c secret_key message =
     and_then (client_request_nonce c) (\<lambda>nonce.
     and_then (of_outcome (json_set message ''nonce'' (JStr nonce))) (\<lambda>message.
     case sign_text e secret_key (jprint e message) of (sig, pub_key) \<Rightarrow>
       ret (nonce, \<lparr>sm_message = message, sm_public_key = pk_to_string e pub_key,
         sm_signature = sig_to_string e sig\<rparr>)))"

text \<open>The steps the mutating operations share: sign, send, and hand on the response.\<close>

definition signed_send ::
  "web_ext \<Rightarrow> 'w StorageApiClient \<Rightarrow> bytes \<Rightarrow> http_method \<Rightarrow> string \<Rightarrow> json \<Rightarrow> ('w, reply, ApiError) io" where
  "signed_send e c secret_key meth path message =
     and_then (build_signed_message e c secret_key message) (\<lambda>(nonce, message_body).
     send_request c (body_request e meth path nonce (signed_message_json message_body)))"

section \<open>Operations\<close>

fun query_opt :: "string \<Rightarrow> string option \<Rightarrow> (string \<times> string) list" where
  "query_opt k None = []"
| "query_opt k (Some v) = [(k, v)]"

definition client_get_contracts ::
  "web_ext \<Rightarrow> 'w StorageApiClient \<Rightarrow> ContractRequestParams \<Rightarrow> bytes \<Rightarrow> ('w, ClientContract list, ApiError) io" where
  "client_get_contracts e c contract_req secret_key =
     and_then (client_request_nonce c) (\<lambda>nonce.
     case sign_text e secret_key nonce of (sig, _) \<Rightarrow>
     and_then (send_request c (get_request ''/contracts''
        ([(''key'', crp_key contract_req), (''signature'', sig_to_string e sig)]
           @ query_opt ''state'' (crp_state contract_req) @ query_opt ''uuid'' (crp_uuid contract_req))
        (Some nonce))) (\<lambda>res.
     json_or_api_error e (json_list client_contract_of_json)
       ''get contracts failed, response from API not a list of contract objects, error: '' res))"

definition client_get_contract ::
  "web_ext \<Rightarrow> 'w StorageApiClient \<Rightarrow> ClientContractRequest \<Rightarrow> bytes \<Rightarrow> ('w, ClientContract option, ApiError) io" where
  "client_get_contract e c contract_req secret_key =
     and_then (client_get_contracts e c
        \<lparr>crp_key = ccr_key contract_req, crp_uuid = Some (ccr_uuid contract_req), crp_state = None\<rparr> secret_key)
     (\<lambda>cs. ret (case cs of [] \<Rightarrow> None | x # _ \<Rightarrow> Some x))"

definition client_get_events ::
  "web_ext \<Rightarrow> 'w StorageApiClient \<Rightarrow> EventRequestParams \<Rightarrow> bytes \<Rightarrow> ('w, ClientEvent list, ApiError) io" where
  "client_get_events e c event_req secret_key =
     and_then (client_request_nonce c) (\<lambda>nonce.
     case sign_text e secret_key nonce of (sig, _) \<Rightarrow>
     and_then (send_request c (get_request ''/events''
        ([(''key'', erp_key event_req)] @ query_opt ''event_id'' (erp_event_id event_req)
           @ [(''signature'', sig_to_string e sig)]) (Some nonce))) (\<lambda>res.
     json_or_api_error e (json_list (client_event_of_json e))
       ''get events failed, response from API not a list of event objects, error: '' res))"

definition client_get_event ::
  "web_ext \<Rightarrow> 'w StorageApiClient \<Rightarrow> ClientEventRequest \<Rightarrow> bytes \<Rightarrow> ('w, ClientEvent option, ApiError) io" where
  "client_get_event e c event_req secret_key =
     and_then (client_get_events e c
        \<lparr>erp_key = cer_key event_req, erp_event_id = Some (cer_event_id event_req)\<rparr> secret_key)
     (\<lambda>evs. ret (case evs of [] \<Rightarrow> None | x # _ \<Rightarrow> Some x))"

definition client_create_contract ::
  "web_ext \<Rightarrow> 'w StorageApiClient \<Rightarrow> NewContract \<Rightarrow> bytes \<Rightarrow> ('w, ClientContract, ApiError) io" where
  "client_create_contract e c contract secret_key =
     and_then (signed_send e c secret_key POST ''/contracts'' (new_contract_json contract)) (\<lambda>res.
     json_or_api_error e client_contract_of_json
       ''Create contract failed, response from API not an contract object, error: '' res)"

definition client_create_event ::
  "web_ext \<Rightarrow> 'w StorageApiClient \<Rightarrow> NewEvent \<Rightarrow> bytes \<Rightarrow> ('w, ClientEvent, ApiError) io" where
  "client_create_event e c event secret_key =
     and_then (signed_send e c secret_key POST ''/events'' (new_event_json event)) (\<lambda>res.
     json_or_api_error e (client_event_of_json e)
       ''Create event failed, response from API not an event object, error: '' res)"

text \<open>The \<open>match\<close> on \<open>effected_num\<close> that ends updates and deletes: only 0 is an error.\<close>

definition effected_one :: "web_ext \<Rightarrow> string \<Rightarrow> string \<Rightarrow> reply \<Rightarrow> ('w, unit, ApiError) io" where
  "effected_one e parse_msg none_msg res =
     and_then (json_or_api_error e effected_num_of_json parse_msg res) (\<lambda>n.
     if n = 0 then throw \<lparr>ae_message = none_msg, ae_status = rp_status res\<rparr> else ret ())"

definition client_update_event ::
  "web_ext \<Rightarrow> 'w StorageApiClient \<Rightarrow> UpdateEvent \<Rightarrow> bytes \<Rightarrow> ('w, unit, ApiError) io" where
  "client_update_event e c event secret_key =
     and_then (signed_send e c secret_key PUT ''/events'' (update_event_json event))
       (effected_one e ''Updating event failed, response from API not a number, error: '' ''No event updated'')"

definition client_update_contract ::
  "web_ext \<Rightarrow> 'w StorageApiClient \<Rightarrow> UpdateContract \<Rightarrow> bytes \<Rightarrow> ('w, unit, ApiError) io" where
  "client_update_contract e c contract secret_key =
     and_then (signed_send e c secret_key PUT ''/contracts'' (update_contract_json contract))
       (effected_one e ''Updating contract failed, response from API not a number, error: '' ''No contract updated'')"

definition client_delete_event ::
  "web_ext \<Rightarrow> 'w StorageApiClient \<Rightarrow> ClientEventRequest \<Rightarrow> bytes \<Rightarrow> ('w, unit, ApiError) io" where
  "client_delete_event e c event secret_key =
     and_then (signed_send e c secret_key DELETE ''/event'' (event_request_json event))
       (effected_one e ''Deleting event failed, response from API not a number, error: '' ''No event deleted'')"

definition client_delete_contract ::
  "web_ext \<Rightarrow> 'w StorageApiClient \<Rightarrow> ClientContractRequest \<Rightarrow> bytes \<Rightarrow> ('w, unit, ApiError) io" where
  "client_delete_contract e c contract secret_key =
     and_then (signed_send e c secret_key DELETE ''/contract'' (contract_request_json contract))
       (effected_one e ''Deleting contract failed, response from API not a number, error: '' ''No contract deleted'')"

end
