(* ===== verification/Storage_Link.thy ===== *)
theory Storage_Link
  imports Storage_Auth Storage_Client
begin

text \<open>
  The client of \<open>Storage_Client\<close> linked to the server of \<open>Storage_Api\<close> by a lossy network:
  a request may be lost, its reply may be lost, or the body of the reply may break off, as a
  schedule of the environment says. The laws of this theory give, for each operation, what
  its answer tells the caller about the database: a success means that the statement ran with
  that result; a failure leaves both cases open.
\<close>

section \<open>The network\<close>

datatype delivery =
  Deliver | DropRequest reqwest_error | DropReply reqwest_error | BreakBody reqwest_error

record link =
  lk_server :: server
  lk_net :: "delivery list"

definition closed_connection :: "web_ext \<Rightarrow> reqwest_error" where
  "closed_connection e = \<lparr>rqe_text = display_error e ''connection closed'', rqe_status = None\<rparr>"

fun answer :: "web_ext \<Rightarrow> delivery \<Rightarrow> (http_response, unit) outcome \<Rightarrow> (reply, reqwest_error) outcome" where
  "answer e (DropRequest x) r = Err x"
| "answer e (DropReply x) r = Err x"
| "answer e (BreakBody x) (Ok res) = Ok \<lparr>rp_status = rs_status res, rp_body = Err x\<rparr>"
| "answer e Deliver (Ok res) = Ok \<lparr>rp_status = rs_status res, rp_body = Ok (rs_body res)\<rparr>"
| "answer e d r = Err (closed_connection e)"

definition transport :: "web_ext \<Rightarrow> string \<Rightarrow> http_request \<Rightarrow> (link, reply, reqwest_error) io" where
  "transport e host req = (\<lambda>w.
     let d = (case lk_net w of [] \<Rightarrow> Deliver | d # _ \<Rightarrow> d);
         w1 = w\<lparr>lk_net := tl (lk_net w)\<rparr>
     in case d of
          DropRequest x \<Rightarrow> (Err x, w1)
        | _ \<Rightarrow> (case serve e req (lk_server w) of
                 (r, s) \<Rightarrow> (answer e d r, w1\<lparr>lk_server := s\<rparr>)))"

definition link_client :: "web_ext \<Rightarrow> string \<Rightarrow> link StorageApiClient" where
  "link_client e host = \<lparr>sac_host = host, sac_send = transport e\<rparr>"

lemma link_client_simps [simp]:
  "sac_host (link_client e host) = host" "sac_send (link_client e host) = transport e"
  by (simp_all add: link_client_def)

text \<open>A reply that arrives is the server's answer, except for a body that breaks off.\<close>

definition reply_of :: "reply \<Rightarrow> http_response \<Rightarrow> bool" where
  "reply_of rep res \<longleftrightarrow> rp_status rep = rs_status res
     \<and> (rp_body rep = Ok (rs_body res) \<or> (\<exists>x. rp_body rep = Err x))"

lemma answer_cases:
  "answer e d r = Ok rep \<Longrightarrow> \<exists>res. r = Ok res \<and> reply_of rep res"
  "answer e d r \<noteq> Panic"
  by (cases d; cases r; auto simp: reply_of_def)+

lemma wp_transport:
  assumes "\<And>x net. lk_net w \<noteq> [] \<Longrightarrow> Q (Err x) (w\<lparr>lk_net := net\<rparr>)"
    and "\<And>ans net. ans \<noteq> Panic \<Longrightarrow>
      (\<And>rep. ans = Ok rep \<Longrightarrow> \<exists>res. fst (serve e req (lk_server w)) = Ok res \<and> reply_of rep res) \<Longrightarrow>
      (lk_net w = [] \<Longrightarrow> net = [] \<and> ans = answer e Deliver (fst (serve e req (lk_server w)))) \<Longrightarrow>
      Q ans (w\<lparr>lk_net := net, lk_server := snd (serve e req (lk_server w))\<rparr>)"
  shows "wp (transport e host req) Q w"
proof -
  obtain r s where run: "serve e req (lk_server w) = (r, s)" by fastforce
  have "Q (answer e d r) (w\<lparr>lk_net := net, lk_server := s\<rparr>)"
    if "lk_net w = [] \<Longrightarrow> d = Deliver \<and> net = []" for d net
    using assms(2) [of "answer e d r" net] answer_cases [of e d r] run that by auto
  then show ?thesis
    using assms(1) run
    by (auto simp: wp_def transport_def Let_def simp del: answer.simps split: list.split delivery.split)
qed

section \<open>The state the client relies on\<close>

definition link_ok :: "link \<Rightarrow> bool" where
  "link_ok w \<longleftrightarrow> srv_ok (lk_server w) \<and> (\<forall>i. list_all alphanumeric (srv_rng (lk_server w) i))"

definition link_pg :: "link \<Rightarrow> pg" where
  "link_pg w = srv_pg (lk_server w)"

definition kept :: "link \<Rightarrow> link \<Rightarrow> bool" where
  "kept w w' \<longleftrightarrow> (link_ok w \<longrightarrow> link_ok w')"

lemma kept_order: "reflp kept" "transp kept"
  by (auto simp: kept_def reflp_def transp_def)

lemma transport_moves: "moves kept (transport e host req)"
  unfolding moves_wp
proof (intro allI wp_transport)
  fix w :: link and ans :: "(reply, reqwest_error) outcome" and net
  have "fresh_only (lk_server w) (snd (serve e req (lk_server w)))"
    using srv_fresh.serve_moves by (simp add: moves_def)
  moreover have "srv_ok (lk_server w) \<longrightarrow> srv_ok (snd (serve e req (lk_server w)))"
    using srv_inv.serve_moves unfolding moves_def by blast
  ultimately show "kept w (w\<lparr>lk_net := net, lk_server := snd (serve e req (lk_server w))\<rparr>)"
    by (simp add: kept_def link_ok_def fresh_only_def)
qed (simp add: kept_def link_ok_def)

text \<open>
  A relation between links that the transport respects is respected by every operation of the
  client, which only combines requests.
\<close>

locale link_relation =
  fixes R :: "link \<Rightarrow> link \<Rightarrow> bool" and e :: web_ext and host :: string
  assumes R_order: "reflp R" "transp R"
    and R_transport: "moves R (transport e url req)"
begin

lemma send_moves: "moves R (send_request (link_client e host) req)"
  unfolding send_request_def by (simp add: moves_map_err R_transport)

lemmas client_moves = moves_intros [of R] R_order send_moves

end

interpretation link_kept: link_relation kept e host for e host
  by unfold_locales (rule kept_order transport_moves)+

section \<open>A signed request reaches its handler\<close>

lemma serve_request_nonce: "serve e (get_request ''/request_nonce'' [] None) s = request_nonce s"
  by (simp add: serve_def verifier_def unprotected_paths_def nonce_layer_def route_def get_request_def)

lemma client_nonce_law:
  "wp (client_request_nonce (link_client e host)) (\<lambda>r w'. link_pg w' = link_pg w \<and> r \<noteq> Panic \<and>
     (lk_net w = [] \<longrightarrow> lk_net w' = [] \<and> is_ok r) \<and> srv_pool (lk_server w') = srv_pool (lk_server w) \<and>
     (\<forall>n. r = Ok n \<longrightarrow> n \<in> set (srv_nonces (lk_server w')) \<and> (link_ok w \<longrightarrow> list_all alphanumeric n))) w"
  unfolding client_request_nonce_def send_request_def wp_simps link_client_simps
  by (rule wp_transport)
    (auto simp: wp_simps serve_request_nonce request_nonce_def Let_def link_pg_def reply_of_def link_ok_def
      split: outcome.split)

definition nonce_message :: "(string \<times> json) list \<Rightarrow> string \<Rightarrow> json" where
  "nonce_message kvs n = JObj (obj_put ''nonce'' (JStr n) (sort_key fst (canon_members kvs)))"

lemma nonce_message:
  assumes "json_wf (JObj kvs)"
  shows "json_wf (nonce_message kvs n)" "json_canon (nonce_message kvs n) = nonce_message kvs n"
    "json_index (nonce_message kvs n) ''nonce'' = JStr n"
  using assms wf_obj_put [of kvs "JStr n" "''nonce''"] canon_obj_put [of kvs "JStr n" "''nonce''"]
  by (simp_all add: nonce_message_def)

lemma client_message_accepted:
  assumes "web_ok e" "json_wf (JObj kvs)" "list_all alphanumeric n"
    and "sm = \<lparr>sm_message = nonce_message kvs n, sm_public_key = pk_to_string e (pk_of_sk e sk),
       sm_signature = sig_to_string e (ecdsa_sign e (sha256 e (jprint e (nonce_message kvs n))) sk)\<rparr>"
    and "req = body_request e meth path n (signed_message_json sm)"
  shows "n \<in> set ns \<Longrightarrow> signed_request e ns req" "\<exists>m. signed_message e req = Some m \<and> am_message m = nonce_message kvs n"
proof -
  note msg = nonce_message [OF assms(2), of n]
  have wf: "json_wf (signed_message_json sm)"
    using msg by (simp add: signed_message_json_def assms(4))
  have message: "signed_message e req = Some \<lparr>am_message = nonce_message kvs n,
      am_public_key = sm_public_key sm, am_signature = sm_signature sm\<rparr>"
    using jparse_jprint [OF assms(1) wf] msg
    by (simp add: signed_message_def assms(5) body_request_def message_of_canon [OF wf])
      (simp add: signed_message_json_def authenticated_message_of_json_def assms(4))
  then show "\<exists>m. signed_message e req = Some m \<and> am_message m = nonce_message kvs n" by simp
  show "signed_request e ns req" if "n \<in> set ns"
    using that message msg header_alphanumeric [OF assms(1,3)] crypto_roundtrips [OF assms(1)]
    by (simp add: signed_request_def assms(5) body_request_def verify_body_def verify_text_def assms(4))
qed

definition mutating :: "http_method \<Rightarrow> string \<Rightarrow> bool" where
  "mutating meth path \<longleftrightarrow> meth \<in> {POST, PUT, DELETE} \<and> path \<notin> set unprotected_paths"

lemma mutating_payload: "mutating meth path \<Longrightarrow> payload_request (body_request e meth path n b)"
  by (auto simp: mutating_def payload_request_def body_request_def verified_get_def)

text \<open>
  Either the request was lost before the handler ran, and the caller gets an error, or the
  handler ran once on the message with a nonce, and a reply, if there is one, is its answer.
\<close>

definition full_reply :: "http_response \<Rightarrow> reply" where
  "full_reply res = \<lparr>rp_status = rs_status res, rp_body = Ok (rs_body res)\<rparr>"

definition handled ::
  "web_ext \<Rightarrow> http_method \<Rightarrow> string \<Rightarrow> (string \<times> json) list \<Rightarrow> link \<Rightarrow> (reply, ApiError) outcome \<Rightarrow> link \<Rightarrow> bool" where
  "handled e meth path kvs w r w' \<longleftrightarrow>
     (\<exists>n s0 hr s1. srv_pg s0 = link_pg w \<and> srv_pool s0 = srv_pool (lk_server w)
        \<and> route e (body_request e meth path n (nonce_message kvs n)) s0 = (hr, s1)
        \<and> lk_server w' = s1 \<and> r \<noteq> Panic \<and> (\<forall>rep. r = Ok rep \<longrightarrow> (\<exists>res. hr = Ok res \<and> reply_of rep res))
        \<and> (lk_net w = [] \<longrightarrow> lk_net w' = [] \<and> (\<forall>res. hr = Ok res \<longrightarrow> r = Ok (full_reply res))))"

lemma signed_send_law:
  assumes "web_ok e" "link_ok w" "json_wf (JObj kvs)" "mutating meth path"
  shows "wp (signed_send e (link_client e host) sk meth path (json_canon (JObj kvs)))
     (\<lambda>r w'. lk_net w \<noteq> [] \<and> link_pg w' = link_pg w \<and> (\<exists>x. r = Err x) \<or> handled e meth path kvs w r w') w"
    (is "wp _ ?Q w")
proof -
  have send: "wp (send_request (link_client e host) (body_request e meth path n (signed_message_json sm))) ?Q w1"
    if w1: "link_pg w1 = link_pg w" "lk_net w = [] \<longrightarrow> lk_net w1 = []"
        "srv_pool (lk_server w1) = srv_pool (lk_server w)" "n \<in> set (srv_nonces (lk_server w1))" "list_all alphanumeric n"
      and sm: "sm = \<lparr>sm_message = nonce_message kvs n, sm_public_key = pk_to_string e (pk_of_sk e sk),
         sm_signature = sig_to_string e (ecdsa_sign e (sha256 e (jprint e (nonce_message kvs n))) sk)\<rparr>"
    for w1 n sm
  proof -
    let ?req = "body_request e meth path n (signed_message_json sm)"
    have auth: "rq_auth ?req = Some n" by (simp add: body_request_def)
    obtain m where m: "signed_message e ?req = Some m" "am_message m = nonce_message kvs n"
      using client_message_accepted(2) [OF assms(1,3) w1(5) sm refl] by blast
    have run: "serve e ?req (lk_server w1)
        = route e (body_request e meth path n (nonce_message kvs n)) (use_nonce n (lk_server w1))"
      using signed_reaches_handler [OF assms(1) mutating_payload [OF assms(4)] auth
          client_message_accepted(1) [OF assms(1,3) w1(5) sm refl w1(4)]] m
      by (simp add: body_request_def)
    obtain hr s1 where hr: "route e (body_request e meth path n (nonce_message kvs n)) (use_nonce n (lk_server w1)) = (hr, s1)"
      by fastforce
    show ?thesis
      unfolding send_request_def wp_simps link_client_simps
    proof (rule wp_transport)
      fix ans :: "(reply, reqwest_error) outcome" and net :: "delivery list"
      assume ans: "ans \<noteq> Panic"
        "\<And>rep. ans = Ok rep \<Longrightarrow> \<exists>res. fst (serve e ?req (lk_server w1)) = Ok res \<and> reply_of rep res"
        "lk_net w1 = [] \<Longrightarrow> net = [] \<and> ans = answer e Deliver (fst (serve e ?req (lk_server w1)))"
      have "handled e meth path kvs w (outcome_map_err api_error_of_reqwest ans)
          (w1\<lparr>lk_net := net, lk_server := snd (serve e ?req (lk_server w1))\<rparr>)"
        unfolding handled_def run hr
        using ans(1) ans(2,3) [unfolded run hr] w1(1-3) hr
        by (intro exI [of _ n] exI [of _ "use_nonce n (lk_server w1)"] exI [of _ hr] exI [of _ s1])
          (cases ans; auto simp: link_pg_def full_reply_def)
      then show "?Q (outcome_map_err api_error_of_reqwest ans)
          (w1\<lparr>lk_net := net, lk_server := snd (serve e ?req (lk_server w1))\<rparr>)" by blast
    qed (use w1(1,2) in \<open>auto simp: link_pg_def\<close>)
  qed
  show ?thesis
    unfolding signed_send_def build_signed_message_def wp_simps
    by (rule wp_mono [OF client_nonce_law])
      (use assms(2) in \<open>auto simp: wp_simps sign_text_def nonce_message_def [symmetric]
         split: outcome.split intro!: send\<close>)
qed

section \<open>Operations seen from the caller\<close>

definition lost :: "link \<Rightarrow> ('b, ApiError) outcome \<Rightarrow> link \<Rightarrow> bool" where
  "lost w r w' \<longleftrightarrow> link_pg w' = link_pg w \<and> (\<exists>x. r = Err x)
     \<and> (lk_net w \<noteq> [] \<or> srv_pool (lk_server w) \<noteq> [])"

text \<open>The statement \<open>m\<close> ran; an answer \<open>Ok b\<close> is its result as the client shows it.\<close>

definition ran ::
  "(pg, 'a, db_error) io \<Rightarrow> ('a \<Rightarrow> 'b option) \<Rightarrow> link \<Rightarrow> ('b, ApiError) outcome \<Rightarrow> link \<Rightarrow> bool" where
  "ran m shown w r w' \<longleftrightarrow>
     (\<exists>dr. m (link_pg w) = (dr, link_pg w') \<and> r \<noteq> Panic
        \<and> (\<forall>b. r = Ok b \<longrightarrow> (\<exists>a. dr = Ok a \<and> shown a = Some b))
        \<and> (lk_net w = [] \<and> srv_pool (lk_server w) = [] \<longrightarrow> (\<forall>a b. dr = Ok a \<and> shown a = Some b \<longrightarrow> r = Ok b)))"

definition db_handler ::
  "(pg, 'a, db_error) io \<Rightarrow> ('a \<Rightarrow> http_response) \<Rightarrow> (db_error \<Rightarrow> http_response option) \<Rightarrow> handler" where
  "db_handler m F G = and_then pool_get (\<lambda>_. handle (on_pg m) (\<lambda>a. ret (F a)) (\<lambda>x. of_outcome (expect (G x))))"

lemma db_handler_run:
  assumes "db_handler m F G s0 = (hr, s1)"
  shows "hr = Panic \<and> srv_pg s1 = srv_pg s0 \<and> srv_pool s0 \<noteq> []
    \<or> (\<exists>dr. m (srv_pg s0) = (dr, srv_pg s1) \<and>
         hr = (case dr of Ok a \<Rightarrow> Ok (F a) | Err x \<Rightarrow> expect (G x) | Panic \<Rightarrow> Panic))"
proof -
  obtain dr c where m: "m (srv_pg s0) = (dr, c)" by fastforce
  show ?thesis
    using assms m
    by (cases dr) (auto simp: db_handler_def and_then_def pool_get_def handle_def on_pg_def on_part_def ret_def
        of_outcome_def split: list.splits bool.splits)
qed

lemma handler_seen:
  assumes run: "db_handler m F G s0 = (hr, s1)" and s0: "srv_pg s0 = link_pg w" "srv_pool s0 = srv_pool (lk_server w)"
    and w': "lk_server w' = s1"
    and r: "r \<noteq> Panic" "\<And>rep. r = Ok rep \<Longrightarrow> \<exists>res. hr = Ok res \<and> reply_of rep res"
      "\<And>res. lk_net w = [] \<Longrightarrow> hr = Ok res \<Longrightarrow> r = Ok (full_reply res)"
    and err: "\<And>rep x res. G x = Some res \<Longrightarrow> reply_of rep res \<Longrightarrow> \<exists>y. P rep = Err y"
    and ok: "\<And>rep a. reply_of rep (F a) \<Longrightarrow> P rep \<noteq> Panic \<and> (\<forall>b. P rep = Ok b \<longrightarrow> shown a = Some b)"
    and full: "\<And>a b. shown a = Some b \<Longrightarrow> P (full_reply (F a)) = Ok b"
  shows "lost w (outcome_bind r P) w' \<or> ran m shown w (outcome_bind r P) w'"
  using db_handler_run [OF run]
proof (elim disjE exE conjE)
  assume "hr = Panic" "srv_pg s1 = srv_pg s0" "srv_pool s0 \<noteq> []"
  then show ?thesis using r s0 w' by (cases r) (auto simp: lost_def link_pg_def)
next
  fix dr assume m: "m (srv_pg s0) = (dr, srv_pg s1)"
    and hr: "hr = (case dr of Ok a \<Rightarrow> Ok (F a) | Err x \<Rightarrow> expect (G x) | Panic \<Rightarrow> Panic)"
  have "outcome_bind r P \<noteq> Panic \<and> (\<forall>b. outcome_bind r P = Ok b \<longrightarrow> (\<exists>a. dr = Ok a \<and> shown a = Some b))"
  proof (cases r)
    case (Ok rep)
    then obtain res where res: "hr = Ok res" "reply_of rep res" using r(2) by blast
    show ?thesis
    proof (cases dr)
      case (Ok a)
      with hr res ok [of rep a] \<open>r = Ok rep\<close> show ?thesis by auto
    next
      case (Err x)
      with hr res have "G x = Some res" by simp
      from err [OF this res(2)] \<open>r = Ok rep\<close> show ?thesis by auto
    qed (use hr res in simp)
  qed (use r(1) in simp_all)
  moreover have "outcome_bind r P = Ok b" if "lk_net w = []" "dr = Ok a" "shown a = Some b" for a b
    using r(3) [OF that(1)] hr full [OF that(3)] that(2) by simp
  ultimately show ?thesis
    using m s0 w' unfolding ran_def link_pg_def by metis
qed

lemma mutating_op:
  assumes "web_ok e" "link_ok w" "json_wf (JObj kvs)" "mutating meth path"
    and route: "\<And>n s. route e (body_request e meth path n (nonce_message kvs n)) s = db_handler m F G s"
    and post: "\<And>rep. post rep = of_outcome (P rep)"
    and err: "\<And>rep x res. G x = Some res \<Longrightarrow> reply_of rep res \<Longrightarrow> \<exists>y. P rep = Err y"
    and ok: "\<And>rep a. reply_of rep (F a) \<Longrightarrow> P rep \<noteq> Panic \<and> (\<forall>b. P rep = Ok b \<longrightarrow> shown a = Some b)"
    and full: "\<And>a b. shown a = Some b \<Longrightarrow> P (full_reply (F a)) = Ok b"
  shows "wp (and_then (signed_send e (link_client e host) sk meth path (json_canon (JObj kvs))) post)
     (\<lambda>r w'. lost w r w' \<or> ran m shown w r w') w"
    (is "wp _ ?Q w")
  unfolding wp_and_then
proof (rule wp_mono [OF signed_send_law [OF assms(1-4)]])
  fix r w'
  assume "lk_net w \<noteq> [] \<and> link_pg w' = link_pg w \<and> (\<exists>x. r = Err x) \<or> handled e meth path kvs w r w'"
  then have "lost w (outcome_bind r P) w' \<or> ran m shown w (outcome_bind r P) w'"
  proof (elim disjE)
    assume "handled e meth path kvs w r w'"
    then obtain s0 hr s1 where h: "db_handler m F G s0 = (hr, s1)" "srv_pg s0 = link_pg w"
      "srv_pool s0 = srv_pool (lk_server w)" "lk_server w' = s1" "r \<noteq> Panic"
      and answer: "\<forall>rep. r = Ok rep \<longrightarrow> (\<exists>res. hr = Ok res \<and> reply_of rep res)"
      "lk_net w = [] \<longrightarrow> (\<forall>res. hr = Ok res \<longrightarrow> r = Ok (full_reply res))"
      unfolding handled_def route by (elim exE conjE) metis
    show ?thesis
      by (rule handler_seen [OF h]; (erule err | erule ok | erule full | (insert answer, blast)))
  qed (auto simp: lost_def)
  then show "case r of Ok a \<Rightarrow> wp (post a) ?Q w' | Err x \<Rightarrow> ?Q (Err x) w' | Panic \<Rightarrow> ?Q Panic w'"
    by (cases r) (simp_all add: post wp_simps)
qed

section \<open>Reads\<close>

text \<open>The verdict on a read only touches the status, which the client does not look at.\<close>

abbreviation with_status :: "nat \<Rightarrow> http_response \<Rightarrow> http_response" where
  "with_status st res \<equiv> res\<lparr>rs_status := st\<rparr>"

lemma expect_map_option:
  "expect (map_option f x) = outcome_bind (expect x) (\<lambda>a. Ok (f a))"
  by (cases x) simp_all

lemma forbid_db_handler:
  "forbid (db_handler m F G) = db_handler m (\<lambda>a. with_status 403 (F a)) (\<lambda>x. map_option (with_status 403) (G x))"
  by (rule ext)
    (auto simp: forbid_def db_handler_def and_then_def handle_def ret_def of_outcome_def expect_map_option
      split: prod.split outcome.split)

definition read_request :: "web_ext \<Rightarrow> string \<Rightarrow> (string \<times> string) list \<Rightarrow> bool" where
  "read_request e path q \<longleftrightarrow>
     path = ''/contracts'' \<and> contract_auth_query q \<noteq> None \<or> path = ''/events'' \<and> event_auth_query q \<noteq> None"

lemma serve_read:
  assumes "read_request e path q" "header_to_str e n = Some n"
    and route: "\<And>s. route e (get_request path q (Some n)) s = db_handler m F G s"
  obtains st where "serve e (get_request path q (Some n)) s
    = (if st then db_handler m F G (use_nonce n s)
       else db_handler m (\<lambda>a. with_status 403 (F a)) (\<lambda>x. map_option (with_status 403) (G x)) (use_nonce n s))"
proof -
  have auth: "rq_auth (get_request path q (Some n)) = Some n" by (simp add: get_request_def)
  have layer: "nonce_layer e (get_request path q (Some n)) = (\<lambda>s. db_handler m F G (use_nonce n s))"
    using auth by (intro ext) (simp add: nonce_layer_def route)
  have forbidden: "forbid (\<lambda>s. db_handler m F G (use_nonce n s)) s
      = db_handler m (\<lambda>a. with_status 403 (F a)) (\<lambda>x. map_option (with_status 403) (G x)) (use_nonce n s)"
    by (simp add: forbid_db_handler [symmetric]) (simp add: forbid_def and_then_def)
  have paths: "\<not> contains ''/contracts'' ''/event''" "contains ''/contracts'' ''/contract''"
    "contains ''/events'' ''/event''" "''/contracts'' \<notin> set unprotected_paths" "''/events'' \<notin> set unprotected_paths"
    by (simp_all add: starts_with_def unprotected_paths_def)
  have "serve e (get_request path q (Some n)) s = nonce_layer e (get_request path q (Some n)) s
      \<or> serve e (get_request path q (Some n)) s = forbid (nonce_layer e (get_request path q (Some n))) s"
    if "rq_auth r = Some n" "rq_query r = q" "rq_method r = GET" "rq_path r = path"
      "r = get_request path q (Some n)" for r
    using assms(1,2) that(1-4) unfolding that(5) [symmetric]
    by (auto simp: read_request_def serve_def verifier_def verify_get_def paths Let_def simp del: contains.simps)
  then have "serve e (get_request path q (Some n)) s = nonce_layer e (get_request path q (Some n)) s
      \<or> serve e (get_request path q (Some n)) s = forbid (nonce_layer e (get_request path q (Some n))) s"
    by (simp add: get_request_def)
  then show thesis
    using that [of True] that [of False] unfolding layer forbidden by auto
qed

lemma reading_op:
  assumes "web_ok e" "link_ok w" "\<And>sg. read_request e path (q sg)"
    and route: "\<And>n s sg. route e (get_request path (q sg) (Some n)) s = db_handler m F G s"
    and post: "\<And>rep. post rep = of_outcome (P rep)"
    and err: "\<And>rep x st res. G x = Some res \<Longrightarrow> reply_of rep (with_status st res) \<Longrightarrow> \<exists>y. P rep = Err y"
    and ok: "\<And>rep a st. reply_of rep (with_status st (F a)) \<Longrightarrow>
      P rep \<noteq> Panic \<and> (\<forall>b. P rep = Ok b \<longrightarrow> shown a = Some b)"
    and full: "\<And>a b st. shown a = Some b \<Longrightarrow> P (full_reply (with_status st (F a))) = Ok b"
  shows "wp (and_then (client_request_nonce (link_client e host)) (\<lambda>nonce.
       case sign_text e sk nonce of (sg, _) \<Rightarrow>
       and_then (send_request (link_client e host) (get_request path (q sg) (Some nonce))) post))
     (\<lambda>r w'. lost w r w' \<or> ran m shown w r w') w"
    (is "wp _ ?Q w")
proof -
  have plain: "with_status (rs_status res) res = res" for res :: http_response by simp
  have read: "wp (and_then (send_request (link_client e host) (get_request path (q sg) (Some n))) post) ?Q w1"
    if w1: "link_pg w1 = link_pg w" "lk_net w = [] \<longrightarrow> lk_net w1 = []"
      "srv_pool (lk_server w1) = srv_pool (lk_server w)" "list_all alphanumeric n" for w1 n sg
  proof -
    obtain st where run: "serve e (get_request path (q sg) (Some n)) (lk_server w1)
        = (if st then db_handler m F G (use_nonce n (lk_server w1))
           else db_handler m (\<lambda>a. with_status 403 (F a)) (\<lambda>x. map_option (with_status 403) (G x)) (use_nonce n (lk_server w1)))"
      using serve_read [OF assms(3) header_alphanumeric [OF assms(1) w1(4)] route] .
    obtain F' G' where run: "serve e (get_request path (q sg) (Some n)) (lk_server w1)
          = db_handler m F' G' (use_nonce n (lk_server w1))"
      and F': "\<And>a. \<exists>st. F' a = with_status st (F a)" "\<And>x. \<exists>st. G' x = map_option (with_status st) (G x)"
    proof (cases st)
      case True
      have "\<exists>st. G x = map_option (with_status st) (G x)" for x
        by (cases "G x") (simp_all, metis plain)
      moreover have "\<exists>st. F a = with_status st (F a)" for a using plain by metis
      ultimately show thesis using that [of F G] run True by simp
    next
      case False
      show thesis
        by (rule that [of "\<lambda>a. with_status 403 (F a)" "\<lambda>x. map_option (with_status 403) (G x)"]) (use run False in auto)
    qed
    obtain hr s1 where hr: "db_handler m F' G' (use_nonce n (lk_server w1)) = (hr, s1)"
      by fastforce
    have seen: "?Q (outcome_bind (outcome_map_err api_error_of_reqwest ans) P) (w1\<lparr>lk_net := net, lk_server := s1\<rparr>)"
      if ans: "ans \<noteq> Panic" "\<And>rep. ans = Ok rep \<Longrightarrow> \<exists>res. hr = Ok res \<and> reply_of rep res"
        "lk_net w1 = [] \<Longrightarrow> net = [] \<and> ans = answer e Deliver hr"
      for ans :: "(reply, reqwest_error) outcome" and net
    proof (rule handler_seen [OF hr])
      show "G' x = Some res \<Longrightarrow> reply_of rep res \<Longrightarrow> \<exists>y. P rep = Err y" for rep x res
        using err [of x] F'(2) [of x] by (cases "G x") auto
      show "reply_of rep (F' a) \<Longrightarrow> P rep \<noteq> Panic \<and> (\<forall>b. P rep = Ok b \<longrightarrow> shown a = Some b)" for rep a
        using ok F'(1) [of a] by metis
      show "shown a = Some b \<Longrightarrow> P (full_reply (F' a)) = Ok b" for a b
        using full F'(1) [of a] by metis
    qed (use w1 ans in \<open>auto simp: link_pg_def full_reply_def\<close>)
    have rep: "outcome_bind (outcome_map_err api_error_of_reqwest ans) P
        = (case outcome_map_err api_error_of_reqwest ans of Ok a \<Rightarrow> P a | Err x \<Rightarrow> Err x | Panic \<Rightarrow> Panic)" for ans
      by (cases ans) simp_all
    show ?thesis
      unfolding send_request_def wp_simps link_client_simps
    proof (rule wp_transport)
      fix ans :: "(reply, reqwest_error) outcome" and net :: "delivery list"
      assume "ans \<noteq> Panic"
        "\<And>rep. ans = Ok rep \<Longrightarrow> \<exists>res. fst (serve e (get_request path (q sg) (Some n)) (lk_server w1)) = Ok res \<and> reply_of rep res"
        "lk_net w1 = [] \<Longrightarrow> net = [] \<and> ans = answer e Deliver (fst (serve e (get_request path (q sg) (Some n)) (lk_server w1)))"
      then have "?Q (outcome_bind (outcome_map_err api_error_of_reqwest ans) P) (w1\<lparr>lk_net := net, lk_server := s1\<rparr>)"
        unfolding run hr by (intro seen) simp_all
      then show "case outcome_map_err api_error_of_reqwest ans of
          Ok a \<Rightarrow> wp (post a) ?Q (w1\<lparr>lk_net := net, lk_server := snd (serve e (get_request path (q sg) (Some n)) (lk_server w1))\<rparr>)
        | Err x \<Rightarrow> ?Q (Err x) (w1\<lparr>lk_net := net, lk_server := snd (serve e (get_request path (q sg) (Some n)) (lk_server w1))\<rparr>)
        | Panic \<Rightarrow> ?Q Panic (w1\<lparr>lk_net := net, lk_server := snd (serve e (get_request path (q sg) (Some n)) (lk_server w1))\<rparr>)"
        unfolding run hr by (cases ans) (simp_all add: post wp_simps)
    qed (use w1 in \<open>auto simp: lost_def link_pg_def\<close>)
  qed
  show ?thesis
    unfolding wp_and_then [of "client_request_nonce _"]
  proof (rule wp_mono [OF client_nonce_law])
    fix r :: "(string, ApiError) outcome" and w1
    assume n: "link_pg w1 = link_pg w \<and> r \<noteq> Panic \<and> (lk_net w = [] \<longrightarrow> lk_net w1 = [] \<and> is_ok r)
       \<and> srv_pool (lk_server w1) = srv_pool (lk_server w)
       \<and> (\<forall>n. r = Ok n \<longrightarrow> n \<in> set (srv_nonces (lk_server w1)) \<and> (link_ok w \<longrightarrow> list_all alphanumeric n))"
    show "case r of Ok nonce \<Rightarrow> wp (case sign_text e sk nonce of (sg, _) \<Rightarrow>
          and_then (send_request (link_client e host) (get_request path (q sg) (Some nonce))) post) ?Q w1
      | Err x \<Rightarrow> ?Q (Err x) w1 | Panic \<Rightarrow> ?Q Panic w1"
    proof (cases r)
      case (Ok n)
      with n assms(2) show ?thesis by (simp add: sign_text_def read)
    next
      case (Err x)
      with n show ?thesis by (auto simp: lost_def)
    qed (use n in simp)
  qed
qed

section \<open>The operations\<close>

lemma req_str_nonce:
  assumes "json_wf (JObj kvs)" "k \<noteq> ''nonce''"
  shows "req_str (nonce_message kvs n) k = req_str (JObj kvs) k"
    and "opt_str (nonce_message kvs n) k = opt_str (JObj kvs) k"
  using read_canon(1,2) [OF assms(1), of k] assms(2) by (simp_all add: nonce_message_def)

lemma json_body_nonce:
  assumes "web_ok e" "json_wf (JObj kvs)"
  shows "json_body e f (body_request e meth path n (nonce_message kvs n)) = f (nonce_message kvs n)"
  using jparse_jprint [OF assms(1) nonce_message(1) [OF assms(2)]] nonce_message(2) [OF assms(2)]
  by (simp add: json_body_def body_request_def)

lemma reply_json_plain:
  "reply_of rep res \<Longrightarrow> jparse e (rs_body res) = None \<Longrightarrow> \<exists>y. reply_json e f rep = Err y"
  by (auto simp: reply_of_def reply_json_def)

lemma reply_json_doc:
  assumes "jparse e (rs_body res) = Some j"
  shows "reply_of rep res \<Longrightarrow> reply_json e f rep \<noteq> Panic \<and> (\<forall>b. reply_json e f rep = Ok b \<longrightarrow> f j = Some b)"
    and "f j = Some b \<Longrightarrow> reply_json e f (full_reply res) = Ok b"
  using assms by (auto simp: reply_of_def reply_json_def full_reply_def) (cases "f j"; simp)+

lemma ok_json_body:
  assumes "web_ok e" "json_wf j"
  shows "jparse e (rs_body (with_status st (ok_json e j))) = Some (json_canon j)"
    and "jparse e (rs_body (ok_json e j)) = Some (json_canon j)"
  using jparse_jprint [OF assms] by (simp_all add: ok_json_def)

lemma bad_request_body:
  assumes "web_ok e"
  shows "jparse e (rs_body (with_status st (db_bad_request e x))) = None"
    and "jparse e (rs_body (db_bad_request e x)) = None"
  using plain_text(3) [OF assms] by (simp_all add: db_bad_request_def)

definition client_contract :: "Contract \<Rightarrow> ClientContract" where
  "client_contract r = \<lparr>cc_id = c_id r, cc_uuid = c_uuid r, cc_state = c_state r, cc_content = c_content r\<rparr>"

definition client_event :: "Event \<Rightarrow> ClientEvent" where
  "client_event r = \<lparr>ce_id = e_id r, ce_event_id = e_event_id r, ce_content = e_content r, ce_key = e_key r\<rparr>"

definition shown_contract :: "Contract \<Rightarrow> ClientContract option" where
  "shown_contract r = (if - i32_max - 1 \<le> c_id r \<and> c_id r \<le> i32_max then Some (client_contract r) else None)"

definition shown_event :: "web_ext \<Rightarrow> Event \<Rightarrow> ClientEvent option" where
  "shown_event e r = (if 0 \<le> e_id r \<and> e_id r \<le> usize_max e then Some (client_event r) else None)"

definition shown_count :: "nat \<Rightarrow> unit option" where
  "shown_count n = (if n \<noteq> 0 \<and> int n \<le> u32_max then Some () else None)"

lemma row_wf: "json_wf (contract_to_json r)" "json_wf (event_to_json v)"
  by (simp_all add: contract_to_json_def event_to_json_def)

lemma rows_wf: "json_wf (JArr (map contract_to_json rs))" "json_wf (JArr (map event_to_json vs))"
  by (simp_all add: list_all_iff row_wf)

lemma row_shown:
  "client_contract_of_json (json_canon (contract_to_json r)) = shown_contract r"
  "client_event_of_json e (json_canon (event_to_json v)) = shown_event e v"
  by (simp_all only: client_contract_of_json_def client_event_of_json_def read_canon row_wf)
    (simp_all add: contract_to_json_def event_to_json_def shown_contract_def shown_event_def
      client_contract_def client_event_def)

lemma json_list_canon: "json_list f (json_canon (JArr xs)) = those (map (\<lambda>x. f (json_canon x)) xs)"
  by (simp add: comp_def)

lemma rows_shown:
  "json_list client_contract_of_json (json_canon (JArr (map contract_to_json rs))) = those (map shown_contract rs)"
  "json_list (client_event_of_json e) (json_canon (JArr (map event_to_json vs))) = those (map (shown_event e) vs)"
  unfolding json_list_canon by (simp_all add: comp_def row_shown)

definition parsed_reply :: "web_ext \<Rightarrow> (json \<Rightarrow> 'a option) \<Rightarrow> string \<Rightarrow> reply \<Rightarrow> ('a, ApiError) outcome" where
  "parsed_reply e f msg rep =
     outcome_map_err (\<lambda>x. \<lparr>ae_message = msg @ rqe_text x, ae_status = rp_status rep\<rparr>) (reply_json e f rep)"

lemma json_or_api_error_outcome: "json_or_api_error e f msg = (\<lambda>rep. of_outcome (parsed_reply e f msg rep))"
  by (rule ext) (simp add: json_or_api_error_def parsed_reply_def)

definition effected_outcome :: "web_ext \<Rightarrow> string \<Rightarrow> string \<Rightarrow> reply \<Rightarrow> (unit, ApiError) outcome" where
  "effected_outcome e parse_msg none_msg rep =
     outcome_bind (outcome_map_err (\<lambda>x. \<lparr>ae_message = parse_msg @ rqe_text x, ae_status = rp_status rep\<rparr>)
        (reply_json e effected_num_of_json rep))
       (\<lambda>n. if n = 0 then Err \<lparr>ae_message = none_msg, ae_status = rp_status rep\<rparr> else Ok ())"

lemma effected_one_outcome:
  "effected_one e parse_msg none_msg rep = of_outcome (effected_outcome e parse_msg none_msg rep)"
proof -
  have "and_then (of_outcome r) (\<lambda>n. if P n then throw (f n) else ret (g n))
      = of_outcome (outcome_bind r (\<lambda>n. if P n then Err (f n) else Ok (g n)))" for r P f g
    by (rule ext, cases r) (auto simp: and_then_def of_outcome_def throw_def ret_def)
  then show ?thesis
    by (simp add: effected_one_def effected_outcome_def json_or_api_error_def)
qed

lemma effected_wf: "json_wf (JObj [(''effected_num'', JNum i)])"
  by simp

lemma effected_num_effected: "effected_num_of_json (json_canon (JObj [(''effected_num'', JNum (int n))]))
    = (if int n \<le> u32_max then Some (int n) else None)"
  by (simp only: effected_num_of_json_def read_canon effected_wf) simp

text \<open>The answer of an update or a delete, read by the client.\<close>

definition count_response :: "web_ext \<Rightarrow> string \<Rightarrow> nat \<Rightarrow> http_response" where
  "count_response e none n = (if n = 0 then respond 404 none else effected e n)"

lemma count_seen:
  assumes "web_ok e" "jparse e none = None"
  shows "reply_of rep (count_response e none n) \<Longrightarrow>
      effected_outcome e pm nm rep \<noteq> Panic \<and> (\<forall>b. effected_outcome e pm nm rep = Ok b \<longrightarrow> shown_count n = Some b)"
    and "shown_count n = Some b \<Longrightarrow> effected_outcome e pm nm (full_reply (count_response e none n)) = Ok b"
proof -
  have doc: "n \<noteq> 0 \<Longrightarrow> jparse e (rs_body (count_response e none n))
      = Some (json_canon (JObj [(''effected_num'', JNum (int n))]))"
    using ok_json_body(2) [OF assms(1) effected_wf] by (simp add: count_response_def effected_def)
  show "effected_outcome e pm nm rep \<noteq> Panic \<and> (\<forall>b. effected_outcome e pm nm rep = Ok b \<longrightarrow> shown_count n = Some b)"
    if "reply_of rep (count_response e none n)"
  proof (cases "n = 0")
    case True
    then have "jparse e (rs_body (count_response e none n)) = None"
      using assms(2) by (simp add: count_response_def)
    from reply_json_plain [OF that this, of effected_num_of_json] show ?thesis
      by (auto simp: effected_outcome_def)
  next
    case False
    from reply_json_doc(1) [OF doc [OF False] that, of effected_num_of_json] show ?thesis
      by (cases "reply_json e effected_num_of_json rep")
        (use False in \<open>auto simp: effected_outcome_def effected_num_effected [simplified] shown_count_def
           split: if_splits\<close>)
  qed
  show "effected_outcome e pm nm (full_reply (count_response e none n)) = Ok b" if "shown_count n = Some b"
  proof -
    from that have n: "n \<noteq> 0" "int n \<le> u32_max" by (auto simp: shown_count_def split: if_splits)
    have "effected_num_of_json (json_canon (JObj [(''effected_num'', JNum (int n))])) = Some (int n)"
      using n(2) by (simp only: effected_num_effected if_True)
    from reply_json_doc(2) [OF doc [OF n(1)], of effected_num_of_json, OF this] n(1) show ?thesis
      by (simp add: effected_outcome_def)
  qed
qed

end
