(* ===== verification/Storage_Ops.thy ===== *)
theory Storage_Ops
  imports Storage_Link
begin

text \<open>
  The operations of the storage client over the lossy link, one law each: either nothing
  happened and the caller has an error, or the statement of the operation ran once on the
  server's database and an \<open>Ok\<close> answer is its result; over a network and a pool without
  losses the answer is \<open>Ok\<close> whenever the statement's result has a client form.
\<close>

section \<open>Mutations\<close>

lemma mutating_paths:
  "mutating POST ''/contracts''" "mutating PUT ''/contracts''" "mutating DELETE ''/contract''"
  "mutating POST ''/events''" "mutating PUT ''/events''" "mutating DELETE ''/event''"
  by (simp_all add: mutating_def unprotected_paths_def)

lemma create_seen:
  assumes "web_ok e" "json_wf (J a)" and view: "\<And>a. f (json_canon (J a)) = shown a"
  shows "reply_of rep (ok_json e (J a)) \<Longrightarrow> parsed_reply e f msg rep \<noteq> Panic \<and> (\<forall>b. parsed_reply e f msg rep = Ok b \<longrightarrow> shown a = Some b)"
    and "Some (db_bad_request e x) = Some res \<Longrightarrow> reply_of rep res \<Longrightarrow> \<exists>y. parsed_reply e f msg rep = Err y"
    and "shown a = Some b \<Longrightarrow> parsed_reply e f msg (full_reply (ok_json e (J a))) = Ok b"
    and "reply_of rep (with_status st (ok_json e (J a))) \<Longrightarrow> parsed_reply e f msg rep \<noteq> Panic \<and> (\<forall>b. parsed_reply e f msg rep = Ok b \<longrightarrow> shown a = Some b)"
    and "Some (db_bad_request e x) = Some res \<Longrightarrow> reply_of rep (with_status st res) \<Longrightarrow> \<exists>y. parsed_reply e f msg rep = Err y"
    and "shown a = Some b \<Longrightarrow> parsed_reply e f msg (full_reply (with_status st (ok_json e (J a)))) = Ok b"
  using reply_json_doc(1) [OF ok_json_body(2) [OF assms(1,2)], of rep f]
    reply_json_doc(1) [OF ok_json_body(1) [OF assms(1,2)], of rep st f]
    reply_json_doc(2) [OF ok_json_body(2) [OF assms(1,2)], of f b]
    reply_json_doc(2) [OF ok_json_body(1) [OF assms(1,2)], of f b st]
    reply_json_plain [OF _ bad_request_body(1) [OF assms(1)], of rep st x f]
    reply_json_plain [OF _ bad_request_body(2) [OF assms(1)], of rep x f]
  by (auto simp: parsed_reply_def view)

lemmas contract_seen =
  create_seen [where J = contract_to_json and f = client_contract_of_json and shown = shown_contract,
    OF _ row_wf(1) row_shown(1)]
lemmas event_seen =
  create_seen [where J = event_to_json and f = "client_event_of_json e" and shown = "shown_event e",
    OF _ row_wf(2) row_shown(2)] for e
lemmas contracts_seen =
  create_seen [where J = "\<lambda>rs. JArr (map contract_to_json rs)" and f = "json_list client_contract_of_json"
    and shown = "\<lambda>rs. those (map shown_contract rs)", OF _ rows_wf(1) rows_shown(1)]
lemmas events_seen =
  create_seen [where J = "\<lambda>rs. JArr (map event_to_json rs)" and f = "json_list (client_event_of_json e)"
    and shown = "\<lambda>rs. those (map (shown_event e) rs)", OF _ rows_wf(2) rows_shown(2)] for e

lemma client_create_contract_law:
  assumes "web_ok e" "link_ok w"
  shows "wp (client_create_contract e (link_client e host) nc sk)
     (\<lambda>r w'. lost w r w' \<or> ran (db_create_contract nc) shown_contract w r w') w"
proof -
  define kvs where "kvs = [(''uuid'', JStr (nc_uuid nc)), (''state'', JStr (nc_state nc)),
     (''content'', JStr (nc_content nc)), (''key'', JStr (nc_key nc))]"
  have wf: "json_wf (JObj kvs)" by (simp add: kvs_def)
  have read: "new_contract_of_json (nonce_message kvs n) = Some nc" for n
    by (simp add: new_contract_of_json_def req_str_nonce [OF wf]) (simp add: kvs_def)
  show ?thesis
    unfolding client_create_contract_def new_contract_json_def kvs_def [symmetric] json_or_api_error_outcome
  proof (rule mutating_op [OF assms wf mutating_paths(1)])
    show "route e (body_request e POST ''/contracts'' n (nonce_message kvs n)) s
        = db_handler (db_create_contract nc) (\<lambda>c. ok_json e (contract_to_json c)) (\<lambda>x. Some (db_bad_request e x)) s" for n s
      using json_body_nonce [OF assms(1) wf, of new_contract_of_json POST "''/contracts''" n] read
      by (simp add: route_def create_contract_def db_handler_def crate_defs body_request_def of_outcome_ret)
  qed (erule (1) contract_seen [OF assms(1)] | erule contract_seen [OF assms(1)] | rule refl)+
qed

lemma client_create_event_law:
  assumes "web_ok e" "link_ok w"
  shows "wp (client_create_event e (link_client e host) ne sk)
     (\<lambda>r w'. lost w r w' \<or> ran (db_create_event ne) (shown_event e) w r w') w"
proof -
  define kvs where "kvs = [(''event_id'', JStr (ne_event_id ne)), (''content'', JStr (ne_content ne)),
     (''key'', JStr (ne_key ne))]"
  have wf: "json_wf (JObj kvs)" by (simp add: kvs_def)
  have read: "new_event_of_json (nonce_message kvs n) = Some ne" for n
    by (simp add: new_event_of_json_def req_str_nonce [OF wf]) (simp add: kvs_def)
  show ?thesis
    unfolding client_create_event_def new_event_json_def kvs_def [symmetric] json_or_api_error_outcome
  proof (rule mutating_op [OF assms wf mutating_paths(4)])
    show "route e (body_request e POST ''/events'' n (nonce_message kvs n)) s
        = db_handler (db_create_event ne) (\<lambda>c. ok_json e (event_to_json c)) (\<lambda>x. Some (db_bad_request e x)) s" for n s
      using json_body_nonce [OF assms(1) wf, of new_event_of_json POST "''/events''" n] read
      by (simp add: route_def create_event_def db_handler_def crate_defs body_request_def of_outcome_ret)
  qed (erule (1) event_seen [OF assms(1)] | erule event_seen [OF assms(1)] | rule refl)+
qed

lemma error_seen:
  assumes "web_ok e" "Some (db_bad_request e x) = Some res" "reply_of rep res"
  shows "\<exists>y. effected_outcome e pm nm rep = Err y"
  using assms(2) reply_json_plain [OF assms(3), of e effected_num_of_json] bad_request_body(2) [OF assms(1), of x]
  by (auto simp: effected_outcome_def)

lemma handler_counts:
  "update_contract e req s = (case json_body e update_contract_of_json req of
      None \<Rightarrow> ret (json_bad_request e) s
    | Some u \<Rightarrow> db_handler (db_update_contract u) (count_response e ''No contract found'') (\<lambda>x. Some (db_bad_request e x)) s)"
  "delete_contract e req s = (case json_body e delete_contract_of_json req of
      None \<Rightarrow> ret (json_bad_request e) s
    | Some d \<Rightarrow> db_handler (db_delete_contract d) (count_response e ''No contract found'') (\<lambda>x. Some (db_bad_request e x)) s)"
  "update_event e req s = (case json_body e update_event_of_json req of
      None \<Rightarrow> ret (json_bad_request e) s
    | Some v \<Rightarrow> db_handler (db_update_event v) (count_response e ''No event found'') (\<lambda>x. Some (db_bad_request e x)) s)"
  "delete_event e req s = (case json_body e delete_event_of_json req of
      None \<Rightarrow> ret (json_bad_request e) s
    | Some v \<Rightarrow> db_handler (db_delete_event v) (count_response e ''No event found'') (\<lambda>x. Some (db_bad_request e x)) s)"
  by (auto simp: update_contract_def delete_contract_def update_event_def delete_event_def db_handler_def
      crate_defs count_response_def of_outcome_ret split: option.split)

lemma client_update_contract_law:
  assumes "web_ok e" "link_ok w"
  shows "wp (client_update_contract e (link_client e host) uc sk)
     (\<lambda>r w'. lost w r w' \<or> ran (db_update_contract uc) shown_count w r w') w"
proof -
  define kvs where "kvs = [(''uuid'', JStr (uc_uuid uc)), (''state'', opt_json (uc_state uc)),
     (''content'', opt_json (uc_content uc)), (''key'', JStr (uc_key uc))]"
  have wf: "json_wf (JObj kvs)" by (cases "uc_state uc"; cases "uc_content uc") (simp_all add: kvs_def)
  have read: "update_contract_of_json (nonce_message kvs n) = Some uc" for n
    unfolding update_contract_of_json_def
    by (cases "uc_state uc"; cases "uc_content uc"; simp add: req_str_nonce [OF wf]; simp add: kvs_def)
  show ?thesis
    unfolding client_update_contract_def update_contract_json_def kvs_def [symmetric]
  proof (rule mutating_op [OF assms wf mutating_paths(2) _ effected_one_outcome])
    show "route e (body_request e PUT ''/contracts'' n (nonce_message kvs n)) s
        = db_handler (db_update_contract uc) (count_response e ''No contract found'') (\<lambda>x. Some (db_bad_request e x)) s" for n s
      using json_body_nonce [OF assms(1) wf, of update_contract_of_json PUT "''/contracts''" n] read
      by (simp add: route_def handler_counts body_request_def)
  qed (erule count_seen [OF assms(1) plain_text(1) [OF assms(1)]] | erule (1) error_seen [OF assms(1)])+
qed

lemma client_delete_contract_law:
  assumes "web_ok e" "link_ok w"
  shows "wp (client_delete_contract e (link_client e host) cr sk)
     (\<lambda>r w'. lost w r w' \<or> ran (db_delete_contract \<lparr>dc_uuid = ccr_uuid cr, dc_key = ccr_key cr\<rparr>) shown_count w r w') w"
proof -
  define kvs where "kvs = [(''key'', JStr (ccr_key cr)), (''uuid'', JStr (ccr_uuid cr))]"
  have wf: "json_wf (JObj kvs)" by (simp add: kvs_def)
  have read: "delete_contract_of_json (nonce_message kvs n) = Some \<lparr>dc_uuid = ccr_uuid cr, dc_key = ccr_key cr\<rparr>" for n
    by (simp add: delete_contract_of_json_def req_str_nonce [OF wf]) (simp add: kvs_def)
  show ?thesis
    unfolding client_delete_contract_def contract_request_json_def kvs_def [symmetric]
  proof (rule mutating_op [OF assms wf mutating_paths(3) _ effected_one_outcome])
    show "route e (body_request e DELETE ''/contract'' n (nonce_message kvs n)) s
        = db_handler (db_delete_contract \<lparr>dc_uuid = ccr_uuid cr, dc_key = ccr_key cr\<rparr>)
            (count_response e ''No contract found'') (\<lambda>x. Some (db_bad_request e x)) s" for n s
      using json_body_nonce [OF assms(1) wf, of delete_contract_of_json DELETE "''/contract''" n] read
      by (simp add: route_def route_delete_def handler_counts body_request_def)
  qed (erule count_seen [OF assms(1) plain_text(1) [OF assms(1)]] | erule (1) error_seen [OF assms(1)])+
qed

lemma client_update_event_law:
  assumes "web_ok e" "link_ok w"
  shows "wp (client_update_event e (link_client e host) ue sk)
     (\<lambda>r w'. lost w r w' \<or> ran (db_update_event ue) shown_count w r w') w"
proof -
  define kvs where "kvs = [(''event_id'', JStr (ue_event_id ue)), (''content'', JStr (ue_content ue)),
     (''key'', JStr (ue_key ue))]"
  have wf: "json_wf (JObj kvs)" by (simp add: kvs_def)
  have read: "update_event_of_json (nonce_message kvs n) = Some ue" for n
    by (simp add: update_event_of_json_def req_str_nonce [OF wf]) (simp add: kvs_def)
  show ?thesis
    unfolding client_update_event_def update_event_json_def kvs_def [symmetric]
  proof (rule mutating_op [OF assms wf mutating_paths(5) _ effected_one_outcome])
    show "route e (body_request e PUT ''/events'' n (nonce_message kvs n)) s
        = db_handler (db_update_event ue) (count_response e ''No event found'') (\<lambda>x. Some (db_bad_request e x)) s" for n s
      using json_body_nonce [OF assms(1) wf, of update_event_of_json PUT "''/events''" n] read
      by (simp add: route_def handler_counts body_request_def)
  qed (erule count_seen [OF assms(1) plain_text(2) [OF assms(1)]] | erule (1) error_seen [OF assms(1)])+
qed

lemma client_delete_event_law:
  assumes "web_ok e" "link_ok w"
  shows "wp (client_delete_event e (link_client e host) er sk)
     (\<lambda>r w'. lost w r w' \<or> ran (db_delete_event \<lparr>de_event_id = cer_event_id er, de_key = cer_key er\<rparr>) shown_count w r w') w"
proof -
  define kvs where "kvs = [(''key'', JStr (cer_key er)), (''event_id'', JStr (cer_event_id er))]"
  have wf: "json_wf (JObj kvs)" by (simp add: kvs_def)
  have read: "delete_event_of_json (nonce_message kvs n) = Some \<lparr>de_event_id = cer_event_id er, de_key = cer_key er\<rparr>" for n
    by (simp add: delete_event_of_json_def req_str_nonce [OF wf]) (simp add: kvs_def)
  show ?thesis
    unfolding client_delete_event_def event_request_json_def kvs_def [symmetric]
  proof (rule mutating_op [OF assms wf mutating_paths(6) _ effected_one_outcome])
    show "route e (body_request e DELETE ''/event'' n (nonce_message kvs n)) s
        = db_handler (db_delete_event \<lparr>de_event_id = cer_event_id er, de_key = cer_key er\<rparr>)
            (count_response e ''No event found'') (\<lambda>x. Some (db_bad_request e x)) s" for n s
      using json_body_nonce [OF assms(1) wf, of delete_event_of_json DELETE "''/event''" n] read
      by (simp add: route_def route_delete_def handler_counts body_request_def)
  qed (erule count_seen [OF assms(1) plain_text(2) [OF assms(1)]] | erule (1) error_seen [OF assms(1)])+
qed

section \<open>Reads\<close>

lemma query_params:
  "contract_params_of_query ([(''key'', k), (''signature'', sg)] @ query_opt ''state'' st @ query_opt ''uuid'' u)
     = Some \<lparr>crp_key = k, crp_uuid = u, crp_state = st\<rparr>"
  "contract_auth_query ([(''key'', k), (''signature'', sg)] @ query_opt ''state'' st @ query_opt ''uuid'' u)
     = Some (k, sg)"
  "event_params_of_query ([(''key'', k)] @ query_opt ''event_id'' u @ [(''signature'', sg)])
     = Some \<lparr>erp_key = k, erp_event_id = u\<rparr>"
  "event_auth_query ([(''key'', k)] @ query_opt ''event_id'' u @ [(''signature'', sg)]) = Some (k, sg)"
  by (cases st; cases u; simp add: contract_params_of_query_def contract_auth_query_def event_params_of_query_def
      event_auth_query_def q_req_def)+

lemma client_get_contracts_law:
  assumes "web_ok e" "link_ok w"
  shows "wp (client_get_contracts e (link_client e host) q sk)
     (\<lambda>r w'. lost w r w' \<or> ran (db_get_contracts q) (\<lambda>rs. those (map shown_contract rs)) w r w') w"
  unfolding client_get_contracts_def json_or_api_error_outcome
proof (rule reading_op [OF assms])
  let ?q = "\<lambda>sg. [(''key'', crp_key q), (''signature'', sig_to_string e sg)]
      @ query_opt ''state'' (crp_state q) @ query_opt ''uuid'' (crp_uuid q)"
  have q: "\<lparr>crp_key = crp_key q, crp_uuid = crp_uuid q, crp_state = crp_state q\<rparr> = q" by simp
  show "read_request e ''/contracts'' (?q sg)" for sg
    by (simp add: read_request_def query_params del: append.simps)
  show "route e (get_request ''/contracts'' (?q sg) (Some n)) s
      = db_handler (db_get_contracts q) (\<lambda>cs. ok_json e (JArr (map contract_to_json cs))) (\<lambda>x. Some (db_bad_request e x)) s" for n s sg
    by (simp add: route_def get_contracts_def get_request_def query_params q db_handler_def crate_defs
        of_outcome_ret del: append.simps)
qed (erule (1) contracts_seen [OF assms(1)] | erule contracts_seen [OF assms(1)] | rule refl)+

lemma client_get_events_law:
  assumes "web_ok e" "link_ok w"
  shows "wp (client_get_events e (link_client e host) q sk)
     (\<lambda>r w'. lost w r w' \<or> ran (db_get_events q) (\<lambda>rs. those (map (shown_event e) rs)) w r w') w"
  unfolding client_get_events_def json_or_api_error_outcome
proof (rule reading_op [OF assms])
  let ?q = "\<lambda>sg. [(''key'', erp_key q)] @ query_opt ''event_id'' (erp_event_id q)
      @ [(''signature'', sig_to_string e sg)]"
  have q: "\<lparr>erp_key = erp_key q, erp_event_id = erp_event_id q\<rparr> = q" by simp
  show "read_request e ''/events'' (?q sg)" for sg
    by (simp add: read_request_def query_params del: append.simps)
  show "route e (get_request ''/events'' (?q sg) (Some n)) s
      = db_handler (db_get_events q) (\<lambda>cs. ok_json e (JArr (map event_to_json cs))) (\<lambda>x. None) s" for n s sg
    by (simp add: route_def get_events_def get_request_def query_params q db_handler_def crate_defs
        of_outcome_ret del: append.simps)
qed (erule events_seen [OF assms(1)] | rule refl | simp)+

text \<open>\<open>first().cloned()\<close> of the rows of one identity.\<close>

definition first_of :: "'a list \<Rightarrow> 'a option" where
  "first_of xs = (case xs of [] \<Rightarrow> None | x # _ \<Rightarrow> Some x)"

lemma read_first:
  assumes "wp m (\<lambda>r w'. lost w r w' \<or> ran q shown w r w') w"
  shows "wp (and_then m (\<lambda>cs. ret (first_of cs)))
     (\<lambda>r w'. lost w r w' \<or> ran q (\<lambda>rs. map_option first_of (shown rs)) w r w') w"
    (is "wp _ ?Q w")
proof -
  have "?Q (outcome_bind r (\<lambda>cs. Ok (first_of cs))) w'" if "lost w r w' \<or> ran q shown w r w'" for r w'
    using that
  proof (elim disjE)
    assume "lost w r w'"
    then show ?thesis by (auto simp: lost_def)
  next
    assume "ran q shown w r w'"
    then obtain dr where dr: "q (link_pg w) = (dr, link_pg w')" "r \<noteq> Panic"
      and ok: "\<forall>b. r = Ok b \<longrightarrow> (\<exists>a. dr = Ok a \<and> shown a = Some b)"
      and full: "lk_net w = [] \<and> srv_pool (lk_server w) = [] \<longrightarrow> (\<forall>a b. dr = Ok a \<and> shown a = Some b \<longrightarrow> r = Ok b)"
      unfolding ran_def by (elim exE conjE) (rule that; assumption)
    have "outcome_bind r (\<lambda>cs. Ok (first_of cs)) \<noteq> Panic" using dr(2) by (cases r) auto
    then have "ran q (\<lambda>rs. map_option first_of (shown rs)) w (outcome_bind r (\<lambda>cs. Ok (first_of cs))) w'"
      unfolding ran_def using dr(1) ok full by (intro exI [of _ dr]) auto
    then show ?thesis ..
  qed
  moreover have "(case r of Ok a \<Rightarrow> wp (ret (first_of a)) ?Q w' | Err x \<Rightarrow> ?Q (Err x) w' | Panic \<Rightarrow> ?Q Panic w')
      = ?Q (outcome_bind r (\<lambda>cs. Ok (first_of cs))) w'" for r w'
    by (cases r) (simp_all add: wp_simps)
  ultimately show ?thesis
    unfolding wp_and_then by (intro wp_mono [OF assms]) simp
qed

lemma client_get_contract_law:
  assumes "web_ok e" "link_ok w"
  shows "wp (client_get_contract e (link_client e host) cr sk)
     (\<lambda>r w'. lost w r w' \<or> ran (select_contract (ccr_key cr, ccr_uuid cr))
        (\<lambda>rs. map_option first_of (those (map shown_contract rs))) w r w') w"
  using read_first [OF client_get_contracts_law [OF assms]]
  by (simp add: client_get_contract_def select_contract_def first_of_def)

lemma client_get_event_law:
  assumes "web_ok e" "link_ok w"
  shows "wp (client_get_event e (link_client e host) er sk)
     (\<lambda>r w'. lost w r w' \<or> ran (select_event (cer_key er, cer_event_id er))
        (\<lambda>rs. map_option first_of (those (map (shown_event e) rs))) w r w') w"
  using read_first [OF client_get_events_law [OF assms]]
  by (simp add: client_get_event_def select_event_def first_of_def)

section \<open>The client operations keep the link\<close>

context link_relation begin

lemma nonce_kept: "moves R (client_request_nonce (link_client e host))"
  unfolding client_request_nonce_def by (intro client_moves)

lemma signed_send_kept: "moves R (signed_send e (link_client e host) sk meth path j)"
  unfolding signed_send_def build_signed_message_def
  by (intro client_moves nonce_kept) (simp_all add: case_prod_beta client_moves)

lemma json_kept: "moves R (json_or_api_error e f msg res)"
  unfolding json_or_api_error_def by (intro client_moves)

lemma effected_kept: "moves R (effected_one e pm nm res)"
  unfolding effected_one_def by (intro client_moves json_kept)

lemma get_contracts_kept: "moves R (client_get_contracts e (link_client e host) q sk)"
  unfolding client_get_contracts_def
  by (intro client_moves nonce_kept) (simp_all add: case_prod_beta client_moves json_kept)

lemma client_kept:
  "moves R (client_create_contract e (link_client e host) nc sk)"
  "moves R (client_update_contract e (link_client e host) uc sk)"
  "moves R (client_delete_contract e (link_client e host) cr sk)"
  "moves R (client_get_contract e (link_client e host) cr sk)"
  unfolding client_create_contract_def client_update_contract_def client_delete_contract_def client_get_contract_def
  by (intro client_moves signed_send_kept json_kept effected_kept get_contracts_kept)+

lemma get_events_kept: "moves R (client_get_events e (link_client e host) eq sk)"
  unfolding client_get_events_def
  by (intro client_moves nonce_kept) (simp_all add: case_prod_beta client_moves json_kept)

lemma client_event_kept:
  "moves R (client_create_event e (link_client e host) ne sk)"
  "moves R (client_update_event e (link_client e host) ue sk)"
  "moves R (client_delete_event e (link_client e host) er sk)"
  "moves R (client_get_event e (link_client e host) er sk)"
  unfolding client_create_event_def client_update_event_def client_delete_event_def client_get_event_def
  by (intro client_moves signed_send_kept json_kept effected_kept get_events_kept)+

end

lemmas client_kept = link_kept.client_kept
lemmas client_event_kept = link_kept.client_event_kept
lemmas get_contracts_kept = link_kept.get_contracts_kept
lemmas get_events_kept = link_kept.get_events_kept

lemma wp_kept: "moves kept m \<Longrightarrow> link_ok w \<Longrightarrow> wp m Q w \<Longrightarrow> wp m (\<lambda>r w'. link_ok w' \<and> Q r w') w"
  by (simp add: moves_def wp_def kept_def)

end
