(* ===== verification/Provider_Laws.thy ===== *)
theory Provider_Laws
  imports Storage_Provider
begin

text \<open>
  The provider over the lossy link keeps the contract of a contract store: rows of the
  provider's key hold serialized contracts under the hexadecimal id, and the view from ids to
  contracts moves as \<open>contract_store\<close> says.
\<close>

section \<open>The rows of a key as a map of contracts\<close>

definition rows_ok :: "web_ext \<Rightarrow> dlc_ext \<Rightarrow> string \<Rightarrow> pg \<Rightarrow> bool" where
  "rows_ok e D key c \<longleftrightarrow> (\<forall>u r. contract_view c (key, u) = Some r \<longrightarrow>
     (\<exists>k. encode_contract e D k = Ok (c_content r) \<and> c_state r = get_contract_state_str k
        \<and> u = get_contract_id_string (get_id D k)))"

definition row_contract :: "web_ext \<Rightarrow> dlc_ext \<Rightarrow> Contract \<Rightarrow> dlc_contract option" where
  "row_contract e D r = (case decode_content e D (c_content r) of Ok k \<Rightarrow> Some k | _ \<Rightarrow> None)"

definition stored_contracts :: "web_ext \<Rightarrow> dlc_ext \<Rightarrow> string \<Rightarrow> pg \<Rightarrow> bytes \<Rightarrow> dlc_contract option" where
  "stored_contracts e D key c i =
     Option.bind (contract_view c (key, get_contract_id_string i)) (row_contract e D)"

definition store_inv :: "web_ext \<Rightarrow> dlc_ext \<Rightarrow> string \<Rightarrow> link \<Rightarrow> bool" where
  "store_inv e D key w \<longleftrightarrow> web_ok e \<and> dlc_ok D \<and> link_ok w \<and> rows_ok e D key (link_pg w)"

definition store_view :: "web_ext \<Rightarrow> dlc_ext \<Rightarrow> string \<Rightarrow> link \<Rightarrow> bytes \<Rightarrow> dlc_contract option" where
  "store_view e D key w = stored_contracts e D key (link_pg w)"

lemma decode_encode:
  assumes "web_ok e" "dlc_ok D" "encode_contract e D k = Ok t"
  shows "decode_content e D t = Ok k"
  using assms deserialize_serialize [OF assms(2)]
  by (auto simp: encode_contract_def decode_content_def b64_roundtrip)

lemma row_contract_encoded:
  "web_ok e \<Longrightarrow> dlc_ok D \<Longrightarrow> encode_contract e D k = Ok (c_content r) \<Longrightarrow> row_contract e D r = Some k"
  by (simp add: row_contract_def decode_encode)

lemma rows_okE:
  assumes "rows_ok e D key c" "contract_view c (key, u) = Some r"
  obtains k where "encode_contract e D k = Ok (c_content r)" "c_state r = get_contract_state_str k"
    "u = get_contract_id_string (get_id D k)"
proof -
  have "\<exists>k. encode_contract e D k = Ok (c_content r) \<and> c_state r = get_contract_state_str k
      \<and> u = get_contract_id_string (get_id D k)"
    using assms unfolding rows_ok_def by (elim allE impE) assumption+
  then show thesis using that by (elim exE conjE)
qed

lemma stored_row:
  assumes "web_ok e" "dlc_ok D" "rows_ok e D key c"
  shows "stored_contracts e D key c i = Some k \<longleftrightarrow>
    (\<exists>r. contract_view c (key, get_contract_id_string i) = Some r \<and> encode_contract e D k = Ok (c_content r)
       \<and> c_state r = get_contract_state_str k \<and> get_id D k = i)"
proof
  assume "stored_contracts e D key c i = Some k"
  then obtain r where r: "contract_view c (key, get_contract_id_string i) = Some r" "row_contract e D r = Some k"
    by (auto simp: stored_contracts_def bind_eq_Some_conv)
  obtain k' where k': "encode_contract e D k' = Ok (c_content r)" "c_state r = get_contract_state_str k'"
    "get_contract_id_string i = get_contract_id_string (get_id D k')"
    by (rule rows_okE [OF assms(3) r(1)])
  have "k' = k" using row_contract_encoded [OF assms(1,2) k'(1)] r(2) by simp
  with r k' show "\<exists>r. contract_view c (key, get_contract_id_string i) = Some r \<and> encode_contract e D k = Ok (c_content r)
       \<and> c_state r = get_contract_state_str k \<and> get_id D k = i"
    by (auto simp: contract_id_string_inj)
next
  assume "\<exists>r. contract_view c (key, get_contract_id_string i) = Some r \<and> encode_contract e D k = Ok (c_content r)
       \<and> c_state r = get_contract_state_str k \<and> get_id D k = i"
  then show "stored_contracts e D key c i = Some k"
    using row_contract_encoded [OF assms(1,2)] by (auto simp: stored_contracts_def)
qed

lemma stored_put:
  assumes "web_ok e" "dlc_ok D" "rows_ok e D key c"
    and "contract_view c' = (contract_view c)((key, get_contract_id_string (get_id D k)) \<mapsto> r)"
    and "encode_contract e D k = Ok (c_content r)" "c_state r = get_contract_state_str k"
  shows "rows_ok e D key c'" "stored_contracts e D key c' = (stored_contracts e D key c)(get_id D k \<mapsto> k)"
proof -
  show "rows_ok e D key c'" using assms(3-6) by (auto simp: rows_ok_def)
  show "stored_contracts e D key c' = (stored_contracts e D key c)(get_id D k \<mapsto> k)"
    using assms(4) row_contract_encoded [OF assms(1,2,5)]
    by (auto simp: stored_contracts_def contract_id_string_inj fun_eq_iff)
qed

lemma stored_remove:
  assumes "rows_ok e D key c" "contract_view c' = (contract_view c)((key, get_contract_id_string i) := None)"
  shows "rows_ok e D key c'" "stored_contracts e D key c' = (stored_contracts e D key c)(i := None)"
  using assms by (auto simp: rows_ok_def stored_contracts_def contract_id_string_inj fun_eq_iff)

lemma stored_same:
  assumes "contract_view c' = contract_view c"
  shows "rows_ok e D key c' = rows_ok e D key c" "stored_contracts e D key c' = stored_contracts e D key c"
  using assms by (simp_all add: rows_ok_def stored_contracts_def fun_eq_iff)

lemma stored_free:
  assumes "web_ok e" "dlc_ok D" "rows_ok e D key c"
  shows "stored_contracts e D key c i = None \<longleftrightarrow> contract_view c (key, get_contract_id_string i) = None"
proof -
  have "row_contract e D r \<noteq> None" if "contract_view c (key, get_contract_id_string i) = Some r" for r
    using that assms(3) row_contract_encoded [OF assms(1,2)] unfolding rows_ok_def by fastforce
  then show ?thesis
    by (cases "contract_view c (key, get_contract_id_string i)") (auto simp: stored_contracts_def)
qed

section \<open>The calls of the provider on the view\<close>

lemma store_invD:
  assumes "store_inv e D key w"
  shows "web_ok e" "dlc_ok D" "link_ok w" "rows_ok e D key (link_pg w)" "pg_ok (link_pg w)"
  using assms by (simp_all add: store_inv_def link_ok_def link_pg_def srv_ok_def)

lemma store_same:
  "contract_view (link_pg w') = contract_view (link_pg w) \<Longrightarrow> link_ok w' \<Longrightarrow> store_inv e D key w \<Longrightarrow>
     store_inv e D key w' \<and> store_view e D key w' = store_view e D key w"
  using stored_same [of "link_pg w'" "link_pg w" e D key] by (simp add: store_inv_def store_view_def)

definition put_row :: "string \<Rightarrow> dlc_ext \<Rightarrow> dlc_contract \<Rightarrow> string \<Rightarrow> NewContract" where
  "put_row key D k t = \<lparr>nc_uuid = get_contract_id_string (get_id D k), nc_state = get_contract_state_str k,
     nc_content = t, nc_key = key\<rparr>"

lemma create_effect:
  assumes inv: "store_inv e D key w" and enc: "encode_contract e D k = Ok t"
  shows "wp (client_create_contract e (link_client e host) (put_row key D k t) sk) (\<lambda>r w'.
     store_inv e D key w' \<and> r \<noteq> Panic \<and>
     (let new = store_view e D key w (get_id D k) = None
          \<and> store_view e D key w' = (store_view e D key w)(get_id D k \<mapsto> k)
      in if is_ok r then new else store_view e D key w' = store_view e D key w \<or> new)) w"
proof (rule wp_mono [OF wp_kept [OF client_kept(1) store_invD(3) [OF inv]
        client_create_contract_law [OF store_invD(1,3) [OF inv]]]])
  fix r w'
  assume "link_ok w' \<and> (lost w r w' \<or> ran (db_create_contract (put_row key D k t)) shown_contract w r w')"
  then have ok: "link_ok w'" and seen: "lost w r w' \<or> ran (db_create_contract (put_row key D k t)) shown_contract w r w'" by auto
  note same = store_same [OF _ ok inv]
  from seen show "store_inv e D key w' \<and> r \<noteq> Panic \<and>
     (let new = store_view e D key w (get_id D k) = None
          \<and> store_view e D key w' = (store_view e D key w)(get_id D k \<mapsto> k)
      in if is_ok r then new else store_view e D key w' = store_view e D key w \<or> new)"
  proof (elim disjE)
    assume "lost w r w'"
    with same show ?thesis by (auto simp: lost_def)
  next
    assume "ran (db_create_contract (put_row key D k t)) shown_contract w r w'"
    then obtain dr where dr: "db_create_contract (put_row key D k t) (link_pg w) = (dr, link_pg w')" "r \<noteq> Panic"
      "\<forall>b. r = Ok b \<longrightarrow> (\<exists>a. dr = Ok a \<and> shown_contract a = Some b)"
      by (auto simp: ran_def)
    note eff = contracts_tbl.create_run [OF store_invD(5) [OF inv] dr(1)]
    show ?thesis
    proof (cases dr)
      case (Ok row)
      have put: "contract_view (link_pg w') = (contract_view (link_pg w))((key, get_contract_id_string (get_id D k)) \<mapsto> row)"
        "contract_view (link_pg w) (key, get_contract_id_string (get_id D k)) = None"
        "encode_contract e D k = Ok (c_content row)" "c_state row = get_contract_state_str k"
        using eff Ok enc by (simp_all add: put_row_def made_contract_def)
      have "store_view e D key w (get_id D k) = None"
        using put(2) by (simp add: store_view_def stored_free [OF store_invD(1,2,4) [OF inv]])
      with stored_put [OF store_invD(1,2,4) [OF inv] put(1,3,4)] ok dr(2) inv show ?thesis
        by (simp add: store_inv_def store_view_def)
    next
      case (Err x)
      with dr eff same show ?thesis by (cases r) auto
    next
      case Panic
      with dr eff same show ?thesis by (cases r) auto
    qed
  qed
qed

lemma update_effect:
  assumes inv: "store_inv e D key w" and enc: "encode_contract e D k = Ok t"
  shows "wp (client_update_contract e (link_client e host)
       \<lparr>uc_uuid = get_contract_id_string (get_id D k), uc_state = Some (get_contract_state_str k),
        uc_content = Some t, uc_key = key\<rparr> sk) (\<lambda>r w'.
     store_inv e D key w' \<and> r \<noteq> Panic \<and>
     (let changed = store_view e D key w (get_id D k) \<noteq> None
          \<and> store_view e D key w' = (store_view e D key w)(get_id D k \<mapsto> k)
      in if is_ok r then changed else store_view e D key w' = store_view e D key w \<or> changed)) w"
    (is "wp (client_update_contract e _ ?u sk) _ w")
proof (rule wp_mono [OF wp_kept [OF client_kept(2) store_invD(3) [OF inv]
        client_update_contract_law [OF store_invD(1,3) [OF inv]]]])
  fix r w'
  assume "link_ok w' \<and> (lost w r w' \<or> ran (db_update_contract ?u) shown_count w r w')"
  then have ok: "link_ok w'" and seen: "lost w r w' \<or> ran (db_update_contract ?u) shown_count w r w'" by auto
  note same = store_same [OF _ ok inv]
  from seen show "store_inv e D key w' \<and> r \<noteq> Panic \<and>
     (let changed = store_view e D key w (get_id D k) \<noteq> None
          \<and> store_view e D key w' = (store_view e D key w)(get_id D k \<mapsto> k)
      in if is_ok r then changed else store_view e D key w' = store_view e D key w \<or> changed)"
  proof (elim disjE)
    assume "lost w r w'"
    with same show ?thesis by (auto simp: lost_def)
  next
    assume "ran (db_update_contract ?u) shown_count w r w'"
    then obtain dr where dr: "db_update_contract ?u (link_pg w) = (dr, link_pg w')" "r \<noteq> Panic"
      "\<forall>b. r = Ok b \<longrightarrow> (\<exists>a. dr = Ok a \<and> shown_count a = Some b)"
      by (auto simp: ran_def)
    note eff = contracts_tbl.update_run [OF store_invD(5) [OF inv] dr(1)]
    show ?thesis
    proof (cases "\<exists>n. dr = Ok n \<and> contract_view (link_pg w) (key, get_contract_id_string (get_id D k)) \<noteq> None")
      case True
      then obtain n row where n: "dr = Ok n"
        "contract_view (link_pg w) (key, get_contract_id_string (get_id D k)) = Some row" by auto
      let ?row = "contract_changeset ?u row"
      have put: "contract_view (link_pg w') = (contract_view (link_pg w))((key, get_contract_id_string (get_id D k)) \<mapsto> ?row)"
        "encode_contract e D k = Ok (c_content ?row)" "c_state ?row = get_contract_state_str k"
        using eff n enc by (simp_all add: contract_changeset_def)
      have "store_view e D key w (get_id D k) \<noteq> None"
        using n(2) by (simp add: store_view_def stored_free [OF store_invD(1,2,4) [OF inv]])
      with stored_put [OF store_invD(1,2,4) [OF inv] put] ok dr(2) inv show ?thesis
        by (simp add: store_inv_def store_view_def)
    next
      case False
      have "contract_view (link_pg w') = contract_view (link_pg w)"
        using eff False by (cases dr) auto
      moreover have "\<not> is_ok r"
        using dr False eff by (cases r; cases dr) (auto simp: shown_count_def)
      ultimately show ?thesis using same dr(2) by simp
    qed
  qed
qed

lemma delete_effect:
  assumes inv: "store_inv e D key w"
  shows "wp (client_delete_contract e (link_client e host)
       \<lparr>ccr_key = key, ccr_uuid = get_contract_id_string i\<rparr> sk) (\<lambda>r w'.
     store_inv e D key w' \<and> r \<noteq> Panic \<and>
     (let removed = store_view e D key w' = (store_view e D key w)(i := None)
      in if is_ok r then store_view e D key w i \<noteq> None \<and> removed
         else store_view e D key w' = store_view e D key w \<or> removed)) w"
    (is "wp (client_delete_contract e _ ?q sk) _ w")
proof (rule wp_mono [OF wp_kept [OF client_kept(3) store_invD(3) [OF inv]
        client_delete_contract_law [OF store_invD(1,3) [OF inv]]]])
  let ?d = "\<lparr>dc_uuid = ccr_uuid ?q, dc_key = ccr_key ?q\<rparr>"
  fix r w'
  assume "link_ok w' \<and> (lost w r w' \<or> ran (db_delete_contract ?d) shown_count w r w')"
  then have ok: "link_ok w'" and seen: "lost w r w' \<or> ran (db_delete_contract ?d) shown_count w r w'" by auto
  note same = store_same [OF _ ok inv]
  from seen show "store_inv e D key w' \<and> r \<noteq> Panic \<and>
     (let removed = store_view e D key w' = (store_view e D key w)(i := None)
      in if is_ok r then store_view e D key w i \<noteq> None \<and> removed
         else store_view e D key w' = store_view e D key w \<or> removed)"
  proof (elim disjE)
    assume "lost w r w'"
    with same show ?thesis by (auto simp: lost_def)
  next
    assume "ran (db_delete_contract ?d) shown_count w r w'"
    then obtain dr where dr: "db_delete_contract ?d (link_pg w) = (dr, link_pg w')" "r \<noteq> Panic"
      "\<forall>b. r = Ok b \<longrightarrow> (\<exists>a. dr = Ok a \<and> shown_count a = Some b)"
      by (auto simp: ran_def)
    note eff = contracts_tbl.delete_run [OF store_invD(5) [OF inv] dr(1)]
    show ?thesis
    proof (cases "\<exists>n. dr = Ok n")
      case True
      then obtain n where n: "dr = Ok n"
        "contract_view (link_pg w') = (contract_view (link_pg w))((key, get_contract_id_string i) := None)"
        "n = (if contract_view (link_pg w) (key, get_contract_id_string i) = None then 0 else 1)"
        using eff by auto
      have "is_ok r \<Longrightarrow> store_view e D key w i \<noteq> None"
        using dr(3) n by (cases r) (auto simp: store_view_def stored_free [OF store_invD(1,2,4) [OF inv]] shown_count_def
          split: if_splits)
      with stored_remove [OF store_invD(4) [OF inv] n(2)] ok dr(2) inv show ?thesis
        by (simp add: store_inv_def store_view_def)
    next
      case False
      then have "contract_view (link_pg w') = contract_view (link_pg w)" "\<not> is_ok r"
        using eff dr(3) by (cases dr; cases r; auto)+
      then show ?thesis using same dr(2) by simp
    qed
  qed
qed

lemma those_shown: "those (map shown_contract rs) = Some cs \<Longrightarrow> cs = map client_contract rs"
  by (induction rs arbitrary: cs) (auto simp: shown_contract_def split: if_splits option.splits)

lemma get_effect:
  assumes inv: "store_inv e D key w"
  shows "wp (client_get_contract e (link_client e host)
       \<lparr>ccr_key = key, ccr_uuid = get_contract_id_string i\<rparr> sk) (\<lambda>r w'.
     store_inv e D key w' \<and> store_view e D key w' = store_view e D key w \<and> r \<noteq> Panic \<and>
     (\<forall>x. r = Ok x \<longrightarrow> x = map_option client_contract (contract_view (link_pg w) (key, get_contract_id_string i)))) w"
    (is "wp (client_get_contract e _ ?q sk) _ w")
proof (rule wp_mono [OF wp_kept [OF client_kept(4) store_invD(3) [OF inv]
        client_get_contract_law [OF store_invD(1,3) [OF inv]]]])
  let ?shown = "\<lambda>rs. map_option first_of (those (map shown_contract rs))"
  fix r w'
  assume "link_ok w' \<and> (lost w r w' \<or> ran (select_contract (ccr_key ?q, ccr_uuid ?q)) ?shown w r w')"
  then have ok: "link_ok w'" and seen: "lost w r w' \<or> ran (select_contract (ccr_key ?q, ccr_uuid ?q)) ?shown w r w'" by auto
  note same = store_same [OF _ ok inv]
  from seen show "store_inv e D key w' \<and> store_view e D key w' = store_view e D key w \<and> r \<noteq> Panic \<and>
     (\<forall>x. r = Ok x \<longrightarrow> x = map_option client_contract (contract_view (link_pg w) (key, get_contract_id_string i)))"
  proof (elim disjE)
    assume "lost w r w'"
    with same show ?thesis by (auto simp: lost_def)
  next
    assume "ran (select_contract (ccr_key ?q, ccr_uuid ?q)) ?shown w r w'"
    then obtain dr where dr: "select_contract (key, get_contract_id_string i) (link_pg w) = (dr, link_pg w')" "r \<noteq> Panic"
      "\<forall>b. r = Ok b \<longrightarrow> (\<exists>a. dr = Ok a \<and> ?shown a = Some b)"
      by (auto simp: ran_def)
    note eff = contracts_tbl.select_run [OF store_invD(5) [OF inv] dr(1)]
    have "x = map_option client_contract (contract_view (link_pg w) (key, get_contract_id_string i))" if x: "r = Ok x" for x
    proof -
      obtain rs cs where rs: "dr = Ok rs" "those (map shown_contract rs) = Some cs" "x = first_of cs"
        using dr(3) x by auto
      have "cs = map client_contract (one_row (contract_view (link_pg w) (key, get_contract_id_string i)))"
        using those_shown [OF rs(2)] eff rs(1) by simp
      then show ?thesis
        unfolding rs(3) by (cases "contract_view (link_pg w) (key, get_contract_id_string i)")
          (simp_all add: first_of_def one_row_def)
    qed
    with same eff dr(2) show ?thesis by blast
  qed
qed

lemma list_effect:
  assumes inv: "store_inv e D key w"
  shows "wp (client_get_contracts e (link_client e host)
       \<lparr>crp_key = key, crp_uuid = None, crp_state = state\<rparr> sk) (\<lambda>r w'.
     store_inv e D key w' \<and> store_view e D key w' = store_view e D key w \<and> r \<noteq> Panic \<and>
     (\<forall>cs. r = Ok cs \<longrightarrow> (\<exists>rs. cs = map client_contract rs \<and> distinct rs \<and>
        set rs = {row. contract_view (link_pg w) (contract_ident row) = Some row \<and> c_key row = key
          \<and> (\<forall>s. state = Some s \<longrightarrow> c_state row = s)}))) w"
    (is "wp (client_get_contracts e _ ?q sk) _ w")
proof (rule wp_mono [OF wp_kept [OF get_contracts_kept store_invD(3) [OF inv]
        client_get_contracts_law [OF store_invD(1,3) [OF inv]]]])
  let ?shown = "\<lambda>rs. those (map shown_contract rs)"
  fix r w'
  assume "link_ok w' \<and> (lost w r w' \<or> ran (db_get_contracts ?q) ?shown w r w')"
  then have ok: "link_ok w'" and seen: "lost w r w' \<or> ran (db_get_contracts ?q) ?shown w r w'" by auto
  note same = store_same [OF _ ok inv]
  from seen show "store_inv e D key w' \<and> store_view e D key w' = store_view e D key w \<and> r \<noteq> Panic \<and>
     (\<forall>cs. r = Ok cs \<longrightarrow> (\<exists>rs. cs = map client_contract rs \<and> distinct rs \<and>
        set rs = {row. contract_view (link_pg w) (contract_ident row) = Some row \<and> c_key row = key
          \<and> (\<forall>s. state = Some s \<longrightarrow> c_state row = s)}))"
  proof (elim disjE)
    assume "lost w r w'"
    with same show ?thesis by (auto simp: lost_def)
  next
    assume "ran (db_get_contracts ?q) ?shown w r w'"
    then obtain dr where dr: "db_get_contracts ?q (link_pg w) = (dr, link_pg w')" "r \<noteq> Panic"
      "\<forall>b. r = Ok b \<longrightarrow> (\<exists>a. dr = Ok a \<and> ?shown a = Some b)"
      by (auto simp: ran_def)
    note eff = wp_run [OF get_contracts_law [OF store_invD(5) [OF inv]] dr(1)]
    have "\<exists>rs. cs = map client_contract rs \<and> distinct rs \<and>
        set rs = {row. contract_view (link_pg w) (contract_ident row) = Some row \<and> c_key row = key
          \<and> (\<forall>s. state = Some s \<longrightarrow> c_state row = s)}" if cs: "r = Ok cs" for cs
    proof -
      obtain rs where rs: "dr = Ok rs" "cs = map client_contract rs"
        using dr(3) cs by (auto dest: those_shown)
      with eff show ?thesis
        by (intro exI [of _ rs]) (auto simp: contract_matches_def opt_filter_def split: option.split)
    qed
    with same eff dr(2) show ?thesis by blast
  qed
qed

section \<open>Listing\<close>

lemma row_encoded:
  assumes inv: "store_inv e D key w" and row: "contract_view (link_pg w) (contract_ident r) = Some r" "c_key r = key"
  obtains k where "decode_content e D (c_content r) = Ok k" "store_view e D key w (get_id D k) = Some k"
    "c_state r = get_contract_state_str k" "c_uuid r = get_contract_id_string (get_id D k)"
proof -
  have view: "contract_view (link_pg w) (key, c_uuid r) = Some r"
    using row by (simp add: contract_ident_def)
  obtain k where k: "encode_contract e D k = Ok (c_content r)" "c_state r = get_contract_state_str k"
    "c_uuid r = get_contract_id_string (get_id D k)"
    by (rule rows_okE [OF store_invD(4) [OF inv] view])
  have "store_view e D key w (get_id D k) = Some k"
    unfolding store_view_def stored_row [OF store_invD(1,2,4) [OF inv]]
    using k view by auto
  with k decode_encode [OF store_invD(1,2) [OF inv] k(1)] that show thesis by blast
qed

lemma list_decodes:
  assumes inv: "store_inv e D key w" and rs: "distinct rs"
    "set rs = {row. contract_view (link_pg w) (contract_ident row) = Some row \<and> c_key row = key
       \<and> (\<forall>s. state = Some s \<longrightarrow> c_state row = s)}"
  obtains ks where "outcome_collect (decode_content e D) (map (cc_content \<circ> client_contract) rs) = Ok ks"
    "distinct (map (get_id D) ks)"
    "set ks = {k. store_view e D key w (get_id D k) = Some k \<and> (\<forall>s. state = Some s \<longrightarrow> get_contract_state_str k = s)}"
proof -
  define kf where "kf = (\<lambda>r :: Contract. case decode_content e D (c_content r) of Ok k \<Rightarrow> k)"
  have kf: "decode_content e D (c_content r) = Ok (kf r) \<and> store_view e D key w (get_id D (kf r)) = Some (kf r)
      \<and> c_state r = get_contract_state_str (kf r) \<and> c_uuid r = get_contract_id_string (get_id D (kf r))"
    if r: "r \<in> set rs" for r
  proof -
    have "contract_view (link_pg w) (contract_ident r) = Some r" "c_key r = key" using r rs(2) by auto
    then show ?thesis by (rule row_encoded [OF inv]) (simp add: kf_def)
  qed
  have collect: "outcome_collect (decode_content e D) (map (cc_content \<circ> client_contract) rs) = Ok (map kf rs)"
  proof -
    let ?kc = "\<lambda>t. case decode_content e D t of Ok k \<Rightarrow> k"
    have "outcome_collect (decode_content e D) (map (cc_content \<circ> client_contract) rs)
        = Ok (map ?kc (map (cc_content \<circ> client_contract) rs))"
      by (rule outcome_collect_all) (use kf in \<open>auto simp: client_contract_def\<close>)
    then show ?thesis by (simp add: kf_def client_contract_def comp_def)
  qed
  have "inj_on (\<lambda>r. get_id D (kf r)) (set rs)"
  proof
    fix a b assume ab: "a \<in> set rs" "b \<in> set rs" "get_id D (kf a) = get_id D (kf b)"
    have uuid: "c_uuid a = c_uuid b" using kf [OF ab(1)] kf [OF ab(2)] ab(3) by metis
    have view: "contract_view (link_pg w) (contract_ident a) = Some a" "c_key a = key"
      "contract_view (link_pg w) (contract_ident b) = Some b" "c_key b = key"
      using ab(1,2) unfolding rs(2) by blast+
    have "contract_ident a = contract_ident b" using uuid view(2,4) unfolding contract_ident_def by metis
    with view(1,3) show "a = b" by (metis option.inject)
  qed
  then have ids: "distinct (map (get_id D) (map kf rs))"
    using rs(1) by (simp add: distinct_map comp_def)
  have "k \<in> kf ` set rs" if k: "store_view e D key w (get_id D k) = Some k"
    "\<forall>s. state = Some s \<longrightarrow> get_contract_state_str k = s" for k
  proof -
    obtain r where r: "contract_view (link_pg w) (key, get_contract_id_string (get_id D k)) = Some r"
      "encode_contract e D k = Ok (c_content r)" "c_state r = get_contract_state_str k"
      using k(1) unfolding store_view_def stored_row [OF store_invD(1,2,4) [OF inv]] by auto
    have "contract_ident r = (key, get_contract_id_string (get_id D k))"
      using r(1) store_invD(5) [OF inv] by (auto simp: contract_view_def pg_ok_def tview_Some_iff)
    with r k(2) have "r \<in> set rs" using rs(2) by (auto simp: contract_ident_def)
    moreover have "kf r = k" using decode_encode [OF store_invD(1,2) [OF inv] r(2)] by (simp add: kf_def)
    ultimately show ?thesis by blast
  qed
  moreover have "store_view e D key w (get_id D (kf r)) = Some (kf r)"
    "\<forall>s. state = Some s \<longrightarrow> get_contract_state_str (kf r) = s" if r: "r \<in> set rs" for r
  proof -
    have "\<forall>s. state = Some s \<longrightarrow> c_state r = s" using r unfolding rs(2) by blast
    with kf [OF r] show "store_view e D key w (get_id D (kf r)) = Some (kf r)"
      "\<forall>s. state = Some s \<longrightarrow> get_contract_state_str (kf r) = s" by simp_all
  qed
  ultimately have "set (map kf rs) = {k. store_view e D key w (get_id D k) = Some k \<and> (\<forall>s. state = Some s \<longrightarrow> get_contract_state_str k = s)}"
    unfolding set_map by blast
  with collect ids that show thesis by blast
qed

end
