(* ===== verification/Provider_Store.thy ===== *)
theory Provider_Store
  imports Provider_Laws
begin

text \<open>
  The provider, linked over the lossy network to the storage service, is a contract store:
  the interpretation of \<open>contract_store\<close>, and the properties of the whole storage path that
  follow from it.
\<close>

section \<open>The operations of the provider\<close>

abbreviation link_provider :: "web_ext \<Rightarrow> string \<Rightarrow> string \<Rightarrow> bytes \<Rightarrow> link AsyncStorageApiProvider" where
  "link_provider e host key sk \<equiv>
     \<lparr>asp_client = link_client e host, asp_public_key = key, asp_secret_key = sk\<rparr>"

lemma provider_get_effect:
  assumes inv: "store_inv e D key w"
  shows "wp (provider_get_contract e D (link_provider e host key sk) i) (\<lambda>r w'.
     store_inv e D key w' \<and> store_view e D key w' = store_view e D key w \<and>
     (\<forall>x. r = Ok x \<longrightarrow> x = store_view e D key w i)) w"
  unfolding provider_get_contract_def wp_simps AsyncStorageApiProvider.simps
proof (rule wp_mono [OF get_effect [OF inv]])
  fix r :: "(ClientContract option, ApiError) outcome" and w'
  assume got: "store_inv e D key w' \<and> store_view e D key w' = store_view e D key w \<and> r \<noteq> Panic \<and>
     (\<forall>x. r = Ok x \<longrightarrow> x = map_option client_contract (contract_view (link_pg w) (key, get_contract_id_string i)))"
  have view: "store_view e D key w i
      = Option.bind (contract_view (link_pg w) (key, get_contract_id_string i)) (row_contract e D)"
    by (simp add: store_view_def stored_contracts_def)
  show "case outcome_map_err (to_storage_error api_error_text) r of
      Ok contract_res \<Rightarrow> wp (case contract_res of None \<Rightarrow> ret None
         | Some res \<Rightarrow> and_then (of_outcome (decode_content e D (cc_content res))) (\<lambda>contract. ret (Some contract)))
         (\<lambda>r w'. store_inv e D key w' \<and> store_view e D key w' = store_view e D key w \<and>
            (\<forall>x. r = Ok x \<longrightarrow> x = store_view e D key w i)) w'
    | Err x \<Rightarrow> store_inv e D key w' \<and> store_view e D key w' = store_view e D key w \<and>
        (\<forall>y. Err x = Ok y \<longrightarrow> y = store_view e D key w i)
    | Panic \<Rightarrow> store_inv e D key w' \<and> store_view e D key w' = store_view e D key w \<and>
        (\<forall>y. Panic = Ok y \<longrightarrow> y = store_view e D key w i)"
  proof (cases r)
    case (Ok x)
    with got view show ?thesis
      by (cases "contract_view (link_pg w) (key, get_contract_id_string i)")
        (auto simp: wp_simps client_contract_def row_contract_def split: outcome.split)
  qed (use got in auto)
qed

lemma create_row_effect:
  assumes inv: "store_inv e D key w" and enc: "encode_contract e D k = Ok t"
  shows "wp (and_then (map_err (to_storage_error api_error_text)
       (client_create_contract e (link_client e host) (put_row key D k t) sk)) (\<lambda>_. ret ())) (\<lambda>r w'.
     store_inv e D key w' \<and>
     (let new = store_view e D key w (get_id D k) = None
          \<and> store_view e D key w' = (store_view e D key w)(get_id D k \<mapsto> k)
      in if r = Ok () then new else store_view e D key w' = store_view e D key w \<or> new)) w"
  unfolding wp_simps
  by (rule wp_mono [OF create_effect [OF inv enc]]) (auto simp: wp_simps Let_def split: outcome.split if_splits)

lemma provider_create_effect:
  assumes inv: "store_inv e D key w"
  shows "wp (provider_create_contract e D (link_provider e host key sk) oc) (\<lambda>r w'.
     store_inv e D key w' \<and>
     (let new = store_view e D key w (oc_id oc) = None
          \<and> store_view e D key w' = (store_view e D key w)(oc_id oc \<mapsto> Offered oc)
      in if r = Ok () then new else store_view e D key w' = store_view e D key w \<or> new)) w"
proof -
  have id: "get_id D (Offered oc) = oc_id oc" using store_invD(2) [OF inv] by simp
  have row: "\<lparr>nc_uuid = get_contract_id_string (oc_id oc), nc_state = ''offered'', nc_content = t, nc_key = key\<rparr>
      = put_row key D (Offered oc) t" for t
    by (simp add: put_row_def id)
  show ?thesis
  proof (cases "encode_contract e D (Offered oc)")
    case (Ok t)
    have "wp (provider_create_contract e D (link_provider e host key sk) oc) Q w
        = wp (and_then (map_err (to_storage_error api_error_text)
           (client_create_contract e (link_client e host) (put_row key D (Offered oc) t) sk)) (\<lambda>_. ret ())) Q w" for Q
      by (simp add: provider_create_contract_def row Ok wp_simps)
    with create_row_effect [OF inv Ok] show ?thesis unfolding id by simp
  qed (use inv in \<open>simp_all add: provider_create_contract_def wp_simps Let_def\<close>)
qed

lemma provider_delete_effect:
  assumes inv: "store_inv e D key w"
  shows "wp (provider_delete_contract e (link_provider e host key sk) i) (\<lambda>r w'.
     store_inv e D key w' \<and>
     (let removed = store_view e D key w' = (store_view e D key w)(i := None)
      in if r = Ok () then store_view e D key w i \<noteq> None \<and> removed
         else store_view e D key w' = store_view e D key w \<or> removed)) w"
  unfolding provider_delete_contract_def wp_simps AsyncStorageApiProvider.simps
  by (rule wp_mono [OF delete_effect [OF inv]]) (auto simp: Let_def split: if_splits)

lemma replaces_case: "(case c of Accepted _ \<Rightarrow> True | Signed _ \<Rightarrow> True | _ \<Rightarrow> False) = replaces c"
  by (simp add: replaces_def)

lemma update_or_create_effect:
  assumes inv: "store_inv e D key w" and enc: "encode_contract e D k = Ok t"
  shows "wp (handle (update_row e D (link_provider e host key sk) k t) ret
       (\<lambda>_. create_row e D (link_provider e host key sk) k)) (\<lambda>r w'.
     store_inv e D key w' \<and>
     (let put = store_view e D key w' = (store_view e D key w)(get_id D k \<mapsto> k)
      in if r = Ok () then put else store_view e D key w' = store_view e D key w \<or> put)) w"
  unfolding wp_handle update_row_def AsyncStorageApiProvider.simps
proof (rule wp_mono [OF update_effect [OF inv enc]])
  fix r :: "(unit, ApiError) outcome" and w1
  assume upd: "store_inv e D key w1 \<and> r \<noteq> Panic \<and>
     (let changed = store_view e D key w (get_id D k) \<noteq> None
          \<and> store_view e D key w1 = (store_view e D key w)(get_id D k \<mapsto> k)
      in if is_ok r then changed else store_view e D key w1 = store_view e D key w \<or> changed)"
  let ?Q = "\<lambda>r w'. store_inv e D key w' \<and>
     (let put = store_view e D key w' = (store_view e D key w)(get_id D k \<mapsto> k)
      in if r = Ok () then put else store_view e D key w' = store_view e D key w \<or> put)"
  have "wp (create_row e D (link_provider e host key sk) k) ?Q w1" if "r = Err x" for x
  proof -
    have "wp (create_row e D (link_provider e host key sk) k) Q w1
        = wp (and_then (map_err (to_storage_error api_error_text)
           (client_create_contract e (link_client e host) (put_row key D k t) sk)) (\<lambda>_. ret ())) Q w1" for Q
      by (simp add: create_row_def enc wp_simps put_row_def)
    moreover have "wp (and_then (map_err (to_storage_error api_error_text)
           (client_create_contract e (link_client e host) (put_row key D k t) sk)) (\<lambda>_. ret ())) ?Q w1"
      by (rule wp_mono [OF create_row_effect [OF conjunct1 [OF upd] enc]])
        (use upd that in \<open>auto simp: Let_def split: if_splits\<close>)
    ultimately show ?thesis by simp
  qed
  then show "case r of Ok a \<Rightarrow> wp (ret a) ?Q w1
      | Err x \<Rightarrow> wp (create_row e D (link_provider e host key sk) k) ?Q w1 | Panic \<Rightarrow> ?Q Panic w1"
    using upd by (cases r) (auto simp: wp_simps Let_def)
qed

lemma provider_update_effect:
  assumes inv: "store_inv e D key w"
  shows "wp (provider_update_contract e D (link_provider e host key sk) k) (\<lambda>r w'.
     store_inv e D key w' \<and>
     (if r = Ok () then stored D k (store_view e D key w) (store_view e D key w')
      else vacated D k (store_view e D key w) (store_view e D key w')
        \<or> stored D k (store_view e D key w) (store_view e D key w'))) w"
    (is "wp _ ?Q w")
proof (cases "replaces k")
  case True
  have "wp (and_then (of_outcome (encode_contract e D k)) (\<lambda>content.
        handle (update_row e D (link_provider e host key sk) k content) ret
          (\<lambda>_. create_row e D (link_provider e host key sk) k))) ?Q w1"
    if w1: "store_inv e D key w1" "vacated D k (store_view e D key w) (store_view e D key w1)" for w1
  proof (cases "encode_contract e D k")
    case (Ok t)
    show ?thesis
      unfolding wp_and_then wp_of_outcome Ok outcome.case
      by (rule wp_mono [OF update_or_create_effect [OF w1(1) Ok]])
        (use True w1 in \<open>auto simp: stored_def Let_def split: if_splits\<close>)
  qed (use w1 in \<open>simp_all add: wp_simps\<close>)
  note rest = this
  show ?thesis
    unfolding provider_update_contract_def replaces_case if_P [OF True] wp_and_then [of "handle _ _ _"] wp_handle
  proof (rule wp_mono [OF provider_delete_effect [OF inv]])
    fix r :: "(unit, dlc_error) outcome" and w1
    assume del: "store_inv e D key w1 \<and>
       (let removed = store_view e D key w1 = (store_view e D key w)(get_temporary_id D k := None)
        in if r = Ok () then store_view e D key w (get_temporary_id D k) \<noteq> None \<and> removed
           else store_view e D key w1 = store_view e D key w \<or> removed)"
    then have w1: "store_inv e D key w1" "vacated D k (store_view e D key w) (store_view e D key w1)"
      using True by (auto simp: vacated_def Let_def split: if_splits)
    show "case r of Ok a \<Rightarrow> wp (ret a) (\<lambda>r w'. case r of
          Ok a \<Rightarrow> wp (and_then (of_outcome (encode_contract e D k)) (\<lambda>content.
              handle (update_row e D (link_provider e host key sk) k content) ret
                (\<lambda>_. create_row e D (link_provider e host key sk) k))) ?Q w'
          | Err e \<Rightarrow> ?Q (Err e) w' | Panic \<Rightarrow> ?Q Panic w') w1
      | Err x \<Rightarrow> wp (ret ()) (\<lambda>r w'. case r of
          Ok a \<Rightarrow> wp (and_then (of_outcome (encode_contract e D k)) (\<lambda>content.
              handle (update_row e D (link_provider e host key sk) k content) ret
                (\<lambda>_. create_row e D (link_provider e host key sk) k))) ?Q w'
          | Err e \<Rightarrow> ?Q (Err e) w' | Panic \<Rightarrow> ?Q Panic w') w1
      | Panic \<Rightarrow> (\<lambda>r w'. case r of
          Ok a \<Rightarrow> wp (and_then (of_outcome (encode_contract e D k)) (\<lambda>content.
              handle (update_row e D (link_provider e host key sk) k content) ret
                (\<lambda>_. create_row e D (link_provider e host key sk) k))) ?Q w'
          | Err e \<Rightarrow> ?Q (Err e) w' | Panic \<Rightarrow> ?Q Panic w') Panic w1"
      using rest [OF w1] w1 by (cases r) (simp_all add: wp_ret)
  qed
next
  case False
  show ?thesis
    unfolding provider_update_contract_def replaces_case if_not_P [OF False]
  proof (cases "encode_contract e D k")
    case (Ok t)
    show "wp (and_then (of_outcome (encode_contract e D k)) (\<lambda>content. map_err (to_storage_error api_error_text)
        (update_row e D (link_provider e host key sk) k content))) ?Q w"
      unfolding wp_simps Ok outcome.case update_row_def AsyncStorageApiProvider.simps
      by (rule wp_mono [OF update_effect [OF inv Ok]])
        (use False in \<open>auto simp: stored_def vacated_def Let_def split: if_splits\<close>)
  qed (use inv False in \<open>simp_all add: wp_simps vacated_def\<close>)
qed

section \<open>Listing by state\<close>

lemma provider_list_effect:
  assumes inv: "store_inv e D key w"
  shows "wp (provider_list e D (link_provider e host key sk) state) (\<lambda>r w'.
     store_inv e D key w' \<and> store_view e D key w' = store_view e D key w \<and>
     (\<forall>ks. r = Ok ks \<longrightarrow> distinct (map (get_id D) ks) \<and>
        set ks = {k. store_view e D key w (get_id D k) = Some k \<and> (\<forall>s. state = Some s \<longrightarrow> get_contract_state_str k = s)})) w"
  unfolding provider_list_def wp_simps AsyncStorageApiProvider.simps
proof (rule wp_mono [OF list_effect [OF inv]])
  fix r :: "(ClientContract list, ApiError) outcome" and w'
  let ?Q = "\<lambda>(r :: (dlc_contract list, dlc_error) outcome) w'.
     store_inv e D key w' \<and> store_view e D key w' = store_view e D key w \<and>
     (\<forall>ks. r = Ok ks \<longrightarrow> distinct (map (get_id D) ks) \<and>
        set ks = {k. store_view e D key w (get_id D k) = Some k \<and> (\<forall>s. state = Some s \<longrightarrow> get_contract_state_str k = s)})"
  assume got: "store_inv e D key w' \<and> store_view e D key w' = store_view e D key w \<and> r \<noteq> Panic \<and>
     (\<forall>cs. r = Ok cs \<longrightarrow> (\<exists>rs. cs = map client_contract rs \<and> distinct rs \<and>
        set rs = {row. contract_view (link_pg w) (contract_ident row) = Some row \<and> c_key row = key
          \<and> (\<forall>s. state = Some s \<longrightarrow> c_state row = s)}))"
  have "?Q (outcome_collect (decode_content e D) (map cc_content cs)) w'" if cs: "r = Ok cs" for cs
  proof -
    obtain rs where rs: "cs = map client_contract rs" "distinct rs"
      "set rs = {row. contract_view (link_pg w) (contract_ident row) = Some row \<and> c_key row = key
          \<and> (\<forall>s. state = Some s \<longrightarrow> c_state row = s)}"
      using got cs by auto
    obtain ks where ks: "outcome_collect (decode_content e D) (map (cc_content \<circ> client_contract) rs) = Ok ks"
      "distinct (map (get_id D) ks)"
      "set ks = {k. store_view e D key w (get_id D k) = Some k \<and> (\<forall>s. state = Some s \<longrightarrow> get_contract_state_str k = s)}"
      by (rule list_decodes [OF inv rs(2,3)])
    have "outcome_collect (decode_content e D) (map cc_content cs) = Ok ks"
      unfolding rs(1) list.map_comp by (rule ks(1))
    with got ks(2,3) show ?thesis by simp
  qed
  note decoded = this
  show "case outcome_map_err (to_storage_error api_error_text) r of
      Ok contracts_res \<Rightarrow> ?Q (outcome_collect (decode_content e D) (map cc_content contracts_res)) w'
    | Err x \<Rightarrow> ?Q (Err x) w' | Panic \<Rightarrow> ?Q Panic w'"
    using decoded got by (cases r) (simp_all only: outcome_map_err.simps outcome.case, auto)
qed

text \<open>Picking one constructor out of the contracts of its state loses none of them.\<close>

lemma listed_map_filter:
  assumes ks: "distinct (map (get_id D) ks)"
    "set ks = {k. v (get_id D k) = Some k \<and> get_contract_state_str k = s}"
    and sel: "\<And>k x. sel k = Some x \<longleftrightarrow> k = C x" and state: "\<And>k. get_contract_state_str k = s \<longleftrightarrow> (\<exists>x. k = C x)"
  shows "listed D v C (List.map_filter sel ks)"
proof -
  have all: "\<exists>x. k = C x" if "k \<in> set ks" for k using that ks(2) state by auto
  then have mapped: "map C (List.map_filter sel ks) = ks"
  proof (induction ks)
    case (Cons k ks)
    then obtain x where x: "k = C x" by auto
    moreover have "sel (C x) = Some x" using sel by simp
    ultimately show ?case using Cons by simp
  qed simp
  have "map (\<lambda>x. get_id D (C x)) (List.map_filter sel ks) = map (get_id D) (map C (List.map_filter sel ks))"
    by (simp add: comp_def)
  then have ids: "map (\<lambda>x. get_id D (C x)) (List.map_filter sel ks) = map (get_id D) ks"
    unfolding mapped .
  have "x \<in> set (List.map_filter sel ks) \<longleftrightarrow> C x \<in> set ks" for x
    using sel by (simp add: in_map_filter)
  then have "set (List.map_filter sel ks) = {x. v (get_id D (C x)) = Some (C x)}"
    using ks(2) state by auto
  with ks(1) ids show ?thesis by (simp add: listed_def)
qed

lemma provider_state_effect:
  assumes inv: "store_inv e D key w"
    and sel: "\<And>k x. sel k = Some x \<longleftrightarrow> k = C x" and state: "\<And>k. get_contract_state_str k = s \<longleftrightarrow> (\<exists>x. k = C x)"
  shows "wp (and_then (get_contracts_by_state e D (link_provider e host key sk) s) (\<lambda>cs. ret (List.map_filter sel cs)))
     (\<lambda>r w'. store_inv e D key w' \<and> store_view e D key w' = store_view e D key w \<and>
       (\<forall>xs. r = Ok xs \<longrightarrow> listed D (store_view e D key w) C xs)) w"
  unfolding get_contracts_by_state_def wp_and_then
  by (rule wp_mono [OF provider_list_effect [OF inv]])
    (auto simp: wp_ret split: outcome.split intro!: listed_map_filter [OF _ _ sel state])

text \<open>Reading every contract decodes every row of the key.\<close>

lemma state_constructor:
  "get_contract_state_str k = ''offered'' \<longleftrightarrow> (\<exists>x. k = Offered x)"
  "get_contract_state_str k = ''signed'' \<longleftrightarrow> (\<exists>x. k = Signed x)"
  "get_contract_state_str k = ''confirmed'' \<longleftrightarrow> (\<exists>x. k = Confirmed x)"
  "get_contract_state_str k = ''pre_closed'' \<longleftrightarrow> (\<exists>x. k = PreClosed x)"
  by (cases k; simp)+

lemma select_constructor:
  "(case k of Offered c \<Rightarrow> Some c | _ \<Rightarrow> None) = Some x1 \<longleftrightarrow> k = Offered x1"
  "(case k of Signed c \<Rightarrow> Some c | _ \<Rightarrow> None) = Some x2 \<longleftrightarrow> k = Signed x2"
  "(case k of Confirmed c \<Rightarrow> Some c | _ \<Rightarrow> None) = Some x2 \<longleftrightarrow> k = Confirmed x2"
  "(case k of PreClosed c \<Rightarrow> Some c | _ \<Rightarrow> None) = Some x3 \<longleftrightarrow> k = PreClosed x3"
  by (cases k; simp)+

section \<open>The provider is a contract store\<close>

lemma store_view_id:
  assumes inv: "store_inv e D key w" and v: "store_view e D key w i = Some k"
  shows "get_id D k = i"
  using v unfolding store_view_def stored_row [OF store_invD(1,2,4) [OF inv]] by blast

interpretation provider: contract_store D "provider_storage e D (link_provider e host key sk)"
    "store_view e D key" "store_inv e D key"
  for e D key host sk
proof
  fix w i c oc
  assume inv: "store_inv e D key w"
  let ?p = "provider_storage e D (link_provider e host key sk)"
  let ?v = "store_view e D key" and ?I = "store_inv e D key"
  show "store_view e D key w i = Some c \<Longrightarrow> get_id D c = i" by (rule store_view_id [OF inv])
  show "wp (as_get_contract ?p i) (\<lambda>r w'. ?I w' \<and> ?v w' = ?v w \<and> (\<forall>x. r = Ok x \<longrightarrow> x = ?v w i)) w"
    unfolding provider_storage_def async_storage.simps by (rule provider_get_effect [OF inv])
  show "wp (as_create_contract ?p oc) (\<lambda>r w'. ?I w' \<and>
       (if r = Ok () then ?v w (oc_id oc) = None \<and> ?v w' = (?v w)(oc_id oc \<mapsto> Offered oc)
        else ?v w' = ?v w \<or> ?v w (oc_id oc) = None \<and> ?v w' = (?v w)(oc_id oc \<mapsto> Offered oc))) w"
    unfolding provider_storage_def async_storage.simps
    by (rule wp_mono [OF provider_create_effect [OF inv]]) (auto simp: Let_def)
  show "wp (as_delete_contract ?p i) (\<lambda>r w'. ?I w' \<and>
       (if r = Ok () then ?v w i \<noteq> None \<and> ?v w' = (?v w)(i := None)
        else ?v w' = ?v w \<or> ?v w' = (?v w)(i := None))) w"
    unfolding provider_storage_def async_storage.simps
    by (rule wp_mono [OF provider_delete_effect [OF inv]]) (auto simp: Let_def)
  show "wp (as_update_contract ?p c) (\<lambda>r w'. ?I w' \<and>
       (if r = Ok () then stored D c (?v w) (?v w')
        else vacated D c (?v w) (?v w') \<or> stored D c (?v w) (?v w'))) w"
    unfolding provider_storage_def async_storage.simps by (rule provider_update_effect [OF inv])
  show "wp (as_get_contract_offers ?p) (\<lambda>r w'. ?I w' \<and> ?v w' = ?v w \<and> (\<forall>xs. r = Ok xs \<longrightarrow> listed D (?v w) Offered xs)) w"
    unfolding provider_storage_def async_storage.simps provider_offers_def
    by (rule provider_state_effect [OF inv select_constructor(1) state_constructor(1)])
  show "wp (as_get_signed_contracts ?p) (\<lambda>r w'. ?I w' \<and> ?v w' = ?v w \<and> (\<forall>xs. r = Ok xs \<longrightarrow> listed D (?v w) Signed xs)) w"
    unfolding provider_storage_def async_storage.simps provider_signed_def
    by (rule provider_state_effect [OF inv select_constructor(2) state_constructor(2)])
  show "wp (as_get_confirmed_contracts ?p) (\<lambda>r w'. ?I w' \<and> ?v w' = ?v w \<and> (\<forall>xs. r = Ok xs \<longrightarrow> listed D (?v w) Confirmed xs)) w"
    unfolding provider_storage_def async_storage.simps provider_confirmed_def
    by (rule provider_state_effect [OF inv select_constructor(3) state_constructor(3)])
  show "wp (as_get_preclosed_contracts ?p) (\<lambda>r w'. ?I w' \<and> ?v w' = ?v w \<and> (\<forall>xs. r = Ok xs \<longrightarrow> listed D (?v w) PreClosed xs)) w"
    unfolding provider_storage_def async_storage.simps provider_preclosed_def
    by (rule provider_state_effect [OF inv select_constructor(4) state_constructor(4)])
qed

end
