(* ===== verification/Ref_Dlc.thy ===== *)
theory Ref_Dlc
  imports Provider_Store
begin

text \<open>
  An instance of the library functions for which \<open>dlc_ok\<close> holds, with a few contracts, for
  the witnesses: the id of an accepted contract is its temporary id with a marker byte, and
  the serializers know the contracts of a table.
\<close>

section \<open>Serializers from a table\<close>

fun table_ser :: "'a list \<Rightarrow> 'a \<Rightarrow> (bytes, string) outcome" where
  "table_ser [] x = Err ''not in the table''"
| "table_ser (y # ys) x = (if x = y then Ok (replicate (length ys) 0) else table_ser ys x)"

fun table_de :: "'a list \<Rightarrow> bytes \<Rightarrow> ('a, string) outcome" where
  "table_de [] b = Err ''not in the table''"
| "table_de (y # ys) b = (if b = replicate (length ys) 0 then Ok y else table_de ys b)"

lemma table_undoes: "undoes (table_de xs) (table_ser xs)"
proof -
  have "length b < length xs \<and> table_de xs b = Ok x" if "table_ser xs x = Ok b" for x b
    using that
  proof (induction xs)
    case (Cons y ys)
    then show ?case by (auto split: if_splits)
  qed simp
  then show ?thesis by (simp add: undoes_def)
qed

section \<open>Demo contracts\<close>

definition demo_event_data :: oracle_event where
  "demo_event_data = \<lparr>oe_nonces = [[8]], oe_maturity_epoch = 100,
     oe_descriptor = EnumEvent [''a'', ''b''], oe_event_id = ''e''\<rparr>"

definition demo_announcement :: announcement where
  "demo_announcement = \<lparr>ann_signature = [4], ann_oracle_public_key = [5], ann_oracle_event = demo_event_data\<rparr>"

definition demo_info :: contract_info where
  "demo_info = \<lparr>ci_oracle_announcements = [demo_announcement], ci_threshold = 1, ci_rest = []\<rparr>"

definition demo_offer :: offered_contract where
  "demo_offer = \<lparr>oc_id = [1], oc_counter_party = [3], oc_contract_info = [demo_info], oc_rest = []\<rparr>"

text \<open>An offer whose id has the length of a real one.\<close>

definition demo_long_offer :: offered_contract where
  "demo_long_offer = demo_offer\<lparr>oc_id := replicate 32 1\<rparr>"

lemma demo_long_offer_other [simp]: "demo_offer \<noteq> demo_long_offer" "demo_long_offer \<noteq> demo_offer"
  by (simp_all add: demo_long_offer_def demo_offer_def numeral_eq_Suc)

definition demo_tx :: transaction where
  "demo_tx = \<lparr>tx_lock_time = 500, tx_body = [6]\<rparr>"

definition demo_accepted :: accepted_contract where
  "demo_accepted = \<lparr>ac_offered_contract = demo_offer, ac_adaptor_infos = [[9]], ac_fund = demo_tx,
     ac_refund = demo_tx, ac_funding_script_pubkey = [], ac_accept_collateral = 0, ac_rest = []\<rparr>"

definition demo_signed_contract :: signed_contract where
  "demo_signed_contract = \<lparr>sc_accepted_contract = demo_accepted, sc_channel_id = None, sc_rest = []\<rparr>"

definition demo_preclosed :: preclosed_contract where
  "demo_preclosed = \<lparr>pc_signed_contract = demo_signed_contract, pc_attestations = None, pc_signed_cet = demo_tx\<rparr>"

definition demo_closed :: closed_contract where
  "demo_closed = \<lparr>cl_attestations = None, cl_signed_cet = Some demo_tx, cl_contract_id = [2, 1],
     cl_temporary_contract_id = [1], cl_counter_party_id = [3], cl_pnl = 0\<rparr>"

text \<open>The same, closed with an attestation.\<close>

definition demo_attested_close :: closed_contract where
  "demo_attested_close = demo_closed\<lparr>cl_attestations :=
     Some [\<lparr>att_oracle_public_key = [5], att_signatures = [[1]], att_outcomes = [''a'']\<rparr>]\<rparr>"

lemma demo_attested_close_other [simp]: "demo_closed \<noteq> demo_attested_close" "demo_attested_close \<noteq> demo_closed"
  by (simp_all add: demo_attested_close_def demo_closed_def)

section \<open>The instance\<close>

definition ref_accepted_id :: "accepted_contract \<Rightarrow> bytes" where
  "ref_accepted_id ac = 2 # oc_id (ac_offered_contract ac)"

fun ref_temporary_id :: "dlc_contract \<Rightarrow> bytes" where
  "ref_temporary_id (Offered oc) = oc_id oc"
| "ref_temporary_id (Rejected oc) = oc_id oc"
| "ref_temporary_id (Accepted ac) = oc_id (ac_offered_contract ac)"
| "ref_temporary_id (Signed sc) = oc_id (ac_offered_contract (sc_accepted_contract sc))"
| "ref_temporary_id (Confirmed sc) = oc_id (ac_offered_contract (sc_accepted_contract sc))"
| "ref_temporary_id (Refunded sc) = oc_id (ac_offered_contract (sc_accepted_contract sc))"
| "ref_temporary_id (PreClosed pc) = oc_id (ac_offered_contract (sc_accepted_contract (pc_signed_contract pc)))"
| "ref_temporary_id (Closed cl) = cl_temporary_contract_id cl"
| "ref_temporary_id (FailedAccept fa) = oc_id (fa_offered_contract fa)"
| "ref_temporary_id (FailedSign fs) = oc_id (ac_offered_contract (fs_accepted_contract fs))"

fun ref_id :: "dlc_contract \<Rightarrow> bytes" where
  "ref_id (Accepted ac) = ref_accepted_id ac"
| "ref_id (Signed sc) = ref_accepted_id (sc_accepted_contract sc)"
| "ref_id (Confirmed sc) = ref_accepted_id (sc_accepted_contract sc)"
| "ref_id (Refunded sc) = ref_accepted_id (sc_accepted_contract sc)"
| "ref_id (PreClosed pc) = ref_accepted_id (sc_accepted_contract (pc_signed_contract pc))"
| "ref_id (Closed cl) = cl_contract_id cl"
| "ref_id (FailedSign fs) = ref_accepted_id (fs_accepted_contract fs)"
| "ref_id c = ref_temporary_id c"

fun ref_counter_party :: "dlc_contract \<Rightarrow> bytes" where
  "ref_counter_party (Offered oc) = oc_counter_party oc"
| "ref_counter_party (Accepted ac) = oc_counter_party (ac_offered_contract ac)"
| "ref_counter_party (Closed cl) = cl_counter_party_id cl"
| "ref_counter_party c = []"

definition ref_dlc :: dlc_ext where
  "ref_dlc = \<lparr>
     get_id = ref_id, get_temporary_id = ref_temporary_id, get_counter_party_id = ref_counter_party,
     accepted_id = ref_accepted_id, txid = tx_body, compute_pnl = (\<lambda>_ _. 0), dlc_error_text = (\<lambda>_. ''E''),
     ser_offered = table_ser [demo_long_offer, demo_offer], ser_accepted = table_ser [demo_accepted],
     ser_signed = table_ser [demo_signed_contract], ser_preclosed = table_ser [demo_preclosed],
     ser_closed = table_ser [demo_attested_close, demo_closed], ser_failed_accept = table_ser [], ser_failed_sign = table_ser [],
     de_offered = table_de [demo_long_offer, demo_offer], de_accepted = table_de [demo_accepted],
     de_signed = table_de [demo_signed_contract], de_preclosed = table_de [demo_preclosed],
     de_closed = table_de [demo_attested_close, demo_closed], de_failed_accept = table_de [], de_failed_sign = table_de []\<rparr>"

lemma ref_dlc_ok: "dlc_ok ref_dlc"
  by (simp add: dlc_ok_def ids_ok_def ser_ok_def ref_dlc_def table_undoes)

section \<open>The linked store\<close>

definition demo_link :: link where
  "demo_link = \<lparr>lk_server = demo_server [], lk_net = []\<rparr>"

definition demo_provider :: "link AsyncStorageApiProvider" where
  "demo_provider = \<lparr>asp_client = link_client ref_web ''h'', asp_public_key = ''k'', asp_secret_key = [7]\<rparr>"

end
