(* ===== verification/Storage_Typed.thy ===== *)
theory Storage_Typed
  imports Provider_Store
begin

text \<open>
  What the columns of the two tables hold. The serial column of a row stays between 1 and the
  largest 32-bit integer, so every row the service can serve fits the types the client parses it
  into, and over a link on which nothing is lost or fails every call of the client arrives.
\<close>

section \<open>The serial columns\<close>

definition serials_ok :: "('r \<Rightarrow> int) \<Rightarrow> 'r table \<Rightarrow> bool" where
  "serials_ok idc t \<longleftrightarrow> 1 \<le> serial t \<and> serial t \<le> i32_max + 1 \<and> (\<forall>r \<in> set (rows t). 1 \<le> idc r \<and> idc r < serial t)"

definition pg_typed :: "pg \<Rightarrow> bool" where
  "pg_typed c \<longleftrightarrow> serials_ok c_id (contracts c) \<and> serials_ok e_id (events c)"

abbreviation typed_kept :: "pg \<Rightarrow> pg \<Rightarrow> bool" where
  "typed_kept c c' \<equiv> pg_typed c \<longrightarrow> pg_typed c'"

lemma serials_insert:
  "(\<And>i. idc (mk i) = i) \<Longrightarrow> serials_ok idc t \<Longrightarrow> serials_ok idc (snd (sql_insert ident mk t))"
  by (auto simp: serials_ok_def sql_insert_def Let_def)

lemma serials_update: "(\<And>r. idc (f r) = idc r) \<Longrightarrow> serials_ok idc t \<Longrightarrow> serials_ok idc (snd (sql_update p f t))"
  by (auto simp: serials_ok_def sql_update_def)

lemma serials_delete: "serials_ok idc t \<Longrightarrow> serials_ok idc (snd (sql_delete p t))"
  by (auto simp: serials_ok_def sql_delete_def)

lemma typed_stmt: "moves typed_kept m \<Longrightarrow> moves typed_kept (stmt m)"
  by (rule stmt_moves) (auto simp: pg_typed_def transp_def)

lemma typed_part:
  "(\<And>t. serials_ok c_id t \<Longrightarrow> serials_ok c_id (snd (m t))) \<Longrightarrow> moves typed_kept (on_contracts m)"
  "(\<And>t. serials_ok e_id t \<Longrightarrow> serials_ok e_id (snd (n t))) \<Longrightarrow> moves typed_kept (on_events n)"
  by (auto simp: moves_def on_part_def pg_typed_def split: prod.split) (metis snd_conv)+

lemma typed_statements:
  "moves typed_kept (db_get_contracts q)" "moves typed_kept (db_create_contract nc)"
  "moves typed_kept (db_update_contract uc)" "moves typed_kept (db_delete_contract dc)"
  "moves typed_kept (db_delete_all_contracts k)"
  "moves typed_kept (db_get_events eq)" "moves typed_kept (db_create_event ne)"
  "moves typed_kept (db_update_event ue)" "moves typed_kept (db_delete_event de)"
  "moves typed_kept (db_delete_all_events k)"
  unfolding db_get_contracts_def db_create_contract_def db_update_contract_def db_delete_contract_def
    db_delete_all_contracts_def db_get_events_def db_create_event_def db_update_event_def
    db_delete_event_def db_delete_all_events_def
  by (intro typed_stmt typed_part serials_insert serials_update serials_delete; simp add: moves_def
      contract_changeset_def event_changeset_def)+

interpretation srv_typed: server_relation "\<lambda>s s'. typed_kept (srv_pg s) (srv_pg s')" typed_kept
  by unfold_locales
    ((rule typed_statements | simp add: reflp_def transp_def moves_def request_nonce_def use_nonce_def Let_def)+)

section \<open>Rows and the client's types\<close>

lemma typed_shown:
  assumes "pg_typed c"
  shows "r \<in> set (rows (contracts c)) \<Longrightarrow> shown_contract r = Some (client_contract r)"
    and "v \<in> set (rows (events c)) \<Longrightarrow> shown_event e v = Some (client_event v)"
  using assms usize_max_u32 [of e]
  by (auto simp: pg_typed_def serials_ok_def shown_contract_def shown_event_def i32_max_def u32_max_def)



end
