(* ===== verification/Live_Store.thy ===== *)
theory Live_Store
  imports Storage_Typed
begin

text \<open>
  The storage path when nothing goes wrong: on a link that loses no message, with a pool and a
  database without faults and ids left for new rows, every call of the provider succeeds unless
  its own precondition fails. The locale \<open>live_store\<close> adds these promises to the contract of a
  contract store, and the provider over the link is interpreted as one.
\<close>

section \<open>A link without losses and faults\<close>

definition calm_server :: "server \<Rightarrow> bool" where
  "calm_server s \<longleftrightarrow> srv_pool s = [] \<and> pg_faults (srv_pg s) = []"

abbreviation faultless_kept :: "pg \<Rightarrow> pg \<Rightarrow> bool" where
  "faultless_kept c c' \<equiv> pg_faults c = [] \<longrightarrow> pg_faults c' = []"

lemma faultless_stmt: "(\<And>c. pg_faults (snd (m c)) = pg_faults c) \<Longrightarrow> moves faultless_kept (stmt m)"
  by (simp add: moves_def stmt_def)

lemma faultless_statements:
  "moves faultless_kept (db_get_contracts q)" "moves faultless_kept (db_create_contract nc)"
  "moves faultless_kept (db_update_contract uc)" "moves faultless_kept (db_delete_contract dc)"
  "moves faultless_kept (db_delete_all_contracts k)"
  "moves faultless_kept (db_get_events eq)" "moves faultless_kept (db_create_event ne)"
  "moves faultless_kept (db_update_event ue)" "moves faultless_kept (db_delete_event de)"
  "moves faultless_kept (db_delete_all_events k)"
  unfolding db_get_contracts_def db_create_contract_def db_update_contract_def db_delete_contract_def
    db_delete_all_contracts_def db_get_events_def db_create_event_def db_update_event_def
    db_delete_event_def db_delete_all_events_def
  by (rule faultless_stmt; simp add: on_part_def split: prod.split)+

interpretation srv_calm: server_relation "\<lambda>s s'. calm_server s \<longrightarrow> calm_server s'" faultless_kept
  by unfold_locales
    ((rule faultless_statements | simp add: calm_server_def reflp_def transp_def moves_def request_nonce_def use_nonce_def Let_def)+)

definition quiet :: "link \<Rightarrow> bool" where
  "quiet w \<longleftrightarrow> lk_net w = [] \<and> calm_server (lk_server w) \<and> pg_typed (link_pg w)"

definition calm :: "nat \<Rightarrow> link \<Rightarrow> bool" where
  "calm n w \<longleftrightarrow> quiet w \<and> serial (contracts (link_pg w)) + int n \<le> i32_max + 1"

lemma quiet_transport: "moves (\<lambda>w w'. quiet w \<longrightarrow> quiet w') (transport e host req)"
  unfolding moves_wp
proof (intro allI wp_transport)
  fix w :: link and ans :: "(reply, reqwest_error) outcome" and net :: "delivery list"
  assume net: "lk_net w = [] \<Longrightarrow> net = [] \<and> ans = answer e Deliver (fst (serve e req (lk_server w)))"
  have "calm_server (lk_server w) \<longrightarrow> calm_server (snd (serve e req (lk_server w)))"
    using srv_calm.serve_moves unfolding moves_def by blast
  moreover have "typed_kept (srv_pg (lk_server w)) (srv_pg (snd (serve e req (lk_server w))))"
    using srv_typed.serve_moves unfolding moves_def by blast
  ultimately show "quiet w \<longrightarrow> quiet (w\<lparr>lk_net := net, lk_server := snd (serve e req (lk_server w))\<rparr>)"
    using net by (auto simp: quiet_def link_pg_def)
qed (auto simp: quiet_def)

interpretation link_quiet: link_relation "\<lambda>w w'. quiet w \<longrightarrow> quiet w'" e host for e host
  by unfold_locales (auto simp: reflp_def transp_def quiet_transport)

text \<open>On a quiet link the statement behind a call runs, and its result arrives.\<close>

lemma quiet_op:
  assumes "quiet w" "moves (\<lambda>w w'. quiet w \<longrightarrow> quiet w') m"
    and "wp m (\<lambda>r w'. lost w r w' \<or> ran q shown w r w') w"
  shows "wp m (\<lambda>r w'. quiet w' \<and> r \<noteq> Panic \<and> (\<exists>dr. q (link_pg w) = (dr, link_pg w')
     \<and> (\<forall>a b. dr = Ok a \<and> shown a = Some b \<longrightarrow> r = Ok b))) w"
proof -
  have net: "lk_net w = []" "srv_pool (lk_server w) = []" using assms(1) by (simp_all add: quiet_def calm_server_def)
  have "wp m (\<lambda>r w'. quiet w') w" using assms(1,2) by (auto simp: moves_wp wp_def)
  from wp_conj [OF this assms(3)] show ?thesis
    by (rule wp_mono) (use net in \<open>auto simp: lost_def ran_def\<close>)
qed

lemma quiet_stmt: "quiet w \<Longrightarrow> stmt m (link_pg w) = m (link_pg w)"
  by (simp add: stmt_def quiet_def calm_server_def link_pg_def)

text \<open>No statement but an insert moves the serial counter.\<close>

lemma serial_after:
  assumes "quiet w"
  shows "db_create_contract nc (link_pg w) = (dr, c) \<Longrightarrow> serial (contracts c) \<le> serial (contracts (link_pg w)) + 1"
    and "db_update_contract uc (link_pg w) = (du, c) \<Longrightarrow>
      serial (contracts c) = serial (contracts (link_pg w)) \<and> (\<exists>m. du = Ok m)"
    and "db_delete_contract dc (link_pg w) = (du, c) \<Longrightarrow> serial (contracts c) = serial (contracts (link_pg w))"
  by (auto simp: db_create_contract_def db_update_contract_def db_delete_contract_def quiet_stmt [OF assms]
      on_part_def sql_insert_def sql_update_def sql_delete_def Let_def split: if_splits)

section \<open>The client's calls\<close>

lemma those_typed:
  assumes "pg_typed c" "set rs \<subseteq> set (rows (contracts c))"
  shows "those (map shown_contract rs) = Some (map client_contract rs)"
  using assms(2) by (induction rs) (auto simp: typed_shown [OF assms(1)])

lemma select_subset: "order_ok order \<Longrightarrow> set (sql_select order p t) \<subseteq> set (rows t)"
  using mset_sql_select [of order p t] by (metis filter_is_subset mset_eq_setD)

lemma rows_run:
  assumes "quiet w" "link_ok w" "db_get_contracts q (link_pg w) = (dr, c)"
  shows "c = link_pg w \<and> (\<exists>rs. dr = Ok rs \<and> those (map shown_contract rs) = Some (map client_contract rs))"
proof -
  have "order_ok (pg_order (link_pg w))" using assms(2) by (simp add: link_ok_def srv_ok_def pg_ok_def link_pg_def)
  then show ?thesis
    using assms(3) those_typed [OF _ select_subset] assms(1)
    by (auto simp: db_get_contracts_def quiet_stmt [OF assms(1)] quiet_def)
qed

lemma list_live:
  assumes "web_ok e" "link_ok w" "calm n w"
  shows "wp (client_get_contracts e (link_client e host) q sk) (\<lambda>r w'. is_ok r \<and> calm n w') w"
proof -
  have q: "quiet w" using assms(3) by (simp add: calm_def)
  show ?thesis
  proof (rule wp_mono [OF quiet_op [OF q link_quiet.get_contracts_kept client_get_contracts_law [OF assms(1,2)]]])
    fix r :: "(ClientContract list, ApiError) outcome" and w'
    assume "quiet w' \<and> r \<noteq> Panic \<and> (\<exists>dr. db_get_contracts q (link_pg w) = (dr, link_pg w')
       \<and> (\<forall>a b. dr = Ok a \<and> those (map shown_contract a) = Some b \<longrightarrow> r = Ok b))"
    then show "is_ok r \<and> calm n w'"
      using rows_run [OF q assms(2)] assms(3) by (fastforce simp: calm_def)
  qed
qed

lemma get_live:
  assumes "web_ok e" "link_ok w" "calm n w"
  shows "wp (client_get_contract e (link_client e host) cr sk) (\<lambda>r w'. is_ok r \<and> calm n w') w"
  unfolding client_get_contract_def wp_and_then
  by (rule wp_mono [OF list_live [OF assms]]) (auto simp: wp_ret split: outcome.split)

lemma create_live:
  assumes "web_ok e" "link_ok w" "calm (Suc n) w" "contract_view (link_pg w) (nc_key nc, nc_uuid nc) = None"
  shows "wp (client_create_contract e (link_client e host) nc sk) (\<lambda>r w'. is_ok r \<and> calm n w') w"
proof -
  have q: "quiet w" and room: "1 \<le> serial (contracts (link_pg w))" "serial (contracts (link_pg w)) \<le> i32_max"
    using assms(3) by (auto simp: calm_def quiet_def pg_typed_def serials_ok_def)
  have free: "pg_faults (link_pg w) = []" using q by (simp add: quiet_def calm_server_def link_pg_def)
  show ?thesis
  proof (rule wp_mono [OF quiet_op [OF q link_quiet.client_kept(1) client_create_contract_law [OF assms(1,2)]]])
    fix r :: "(ClientContract, ApiError) outcome" and w'
    assume "quiet w' \<and> r \<noteq> Panic \<and> (\<exists>dr. db_create_contract nc (link_pg w) = (dr, link_pg w')
       \<and> (\<forall>a b. dr = Ok a \<and> shown_contract a = Some b \<longrightarrow> r = Ok b))"
    then obtain dr where w': "quiet w'" and dr: "db_create_contract nc (link_pg w) = (dr, link_pg w')"
      and ok: "\<And>a b. dr = Ok a \<Longrightarrow> shown_contract a = Some b \<Longrightarrow> r = Ok b" by blast
    obtain row where row: "dr = Ok row" "c_id row = serial (contracts (link_pg w))"
      using create_contract_free [OF dr free room(2) assms(4)] by blast
    have "shown_contract row = Some (client_contract row)"
      using row(2) room by (simp add: shown_contract_def i32_max_def)
    then have "is_ok r" using ok [OF row(1)] by simp
    moreover have "serial (contracts (link_pg w')) \<le> serial (contracts (link_pg w)) + 1"
      by (rule serial_after(1) [OF q dr])
    ultimately show "is_ok r \<and> calm n w'" using w' assms(3) by (simp add: calm_def)
  qed
qed

lemma update_live:
  assumes "web_ok e" "link_ok w" "calm n w"
  shows "wp (client_update_contract e (link_client e host) uc sk) (\<lambda>r w'. calm n w' \<and> r \<noteq> Panic \<and>
     (contract_view (link_pg w) (uc_key uc, uc_uuid uc) \<noteq> None \<longrightarrow> is_ok r)) w"
proof -
  have q: "quiet w" using assms(3) by (simp add: calm_def)
  have ok: "pg_ok (link_pg w)" using assms(2) by (simp add: link_ok_def srv_ok_def link_pg_def)
  show ?thesis
  proof (rule wp_mono [OF quiet_op [OF q link_quiet.client_kept(2) client_update_contract_law [OF assms(1,2)]]])
    fix r :: "(unit, ApiError) outcome" and w'
    assume "quiet w' \<and> r \<noteq> Panic \<and> (\<exists>dr. db_update_contract uc (link_pg w) = (dr, link_pg w')
       \<and> (\<forall>a b. dr = Ok a \<and> shown_count a = Some b \<longrightarrow> r = Ok b))"
    then obtain dr where w': "quiet w'" "r \<noteq> Panic" and dr: "db_update_contract uc (link_pg w) = (dr, link_pg w')"
      and shown: "\<And>a b. dr = Ok a \<Longrightarrow> shown_count a = Some b \<Longrightarrow> r = Ok b" by blast
    have "serial (contracts (link_pg w')) = serial (contracts (link_pg w))" "\<exists>m. dr = Ok m"
      using serial_after(2) [OF q dr] by auto
    moreover have "is_ok r" if "contract_view (link_pg w) (uc_key uc, uc_uuid uc) \<noteq> None"
      using contracts_tbl.update_run [OF ok dr] calculation(2) shown that by (auto simp: shown_count_def u32_max_def)
    ultimately show "calm n w' \<and> r \<noteq> Panic \<and> (contract_view (link_pg w) (uc_key uc, uc_uuid uc) \<noteq> None \<longrightarrow> is_ok r)"
      using w' assms(3) by (simp add: calm_def)
  qed
qed

lemma delete_live:
  assumes "web_ok e" "link_ok w" "calm n w"
  shows "wp (client_delete_contract e (link_client e host) cr sk) (\<lambda>r w'. calm n w' \<and> r \<noteq> Panic) w"
proof -
  have q: "quiet w" using assms(3) by (simp add: calm_def)
  show ?thesis
  proof (rule wp_mono [OF quiet_op [OF q link_quiet.client_kept(3) client_delete_contract_law [OF assms(1,2)]]])
    fix r :: "(unit, ApiError) outcome" and w'
    assume "quiet w' \<and> r \<noteq> Panic \<and> (\<exists>dr. db_delete_contract \<lparr>dc_uuid = ccr_uuid cr, dc_key = ccr_key cr\<rparr> (link_pg w) = (dr, link_pg w')
       \<and> (\<forall>a b. dr = Ok a \<and> shown_count a = Some b \<longrightarrow> r = Ok b))"
    then show "calm n w' \<and> r \<noteq> Panic"
      using assms(3) serial_after(3) [OF q] by (auto simp: calm_def)
  qed
qed

section \<open>The provider's calls\<close>

lemma calm_less: "calm (Suc n) w \<Longrightarrow> calm n w"
  by (simp add: calm_def)

lemma free_row:
  assumes "store_inv e D key w" "store_view e D key w i = None"
  shows "contract_view (link_pg w) (key, get_contract_id_string i) = None"
  using assms(2) by (simp add: store_view_def stored_free [OF store_invD(1,2,4) [OF assms(1)]])

lemma create_row_live:
  assumes "store_inv e D key w" "calm (Suc n) w" "encode_contract e D k = Ok t" "store_view e D key w (get_id D k) = None"
  shows "wp (create_row e D (link_provider e host key sk) k) (\<lambda>r w'. is_ok r \<and> calm n w') w"
  unfolding create_row_def assms(3) wp_simps outcome.case AsyncStorageApiProvider.simps
  by (rule wp_mono [OF create_live [OF store_invD(1,3) [OF assms(1)] assms(2)]])
    (auto simp: wp_simps free_row [OF assms(1,4)] split: outcome.split)

lemma provider_create_live:
  assumes "store_inv e D key w" "calm (Suc n) w" "encode_contract e D (Offered oc) = Ok t" "store_view e D key w (oc_id oc) = None"
  shows "wp (provider_create_contract e D (link_provider e host key sk) oc) (\<lambda>r w'. is_ok r \<and> calm n w') w"
  unfolding provider_create_contract_def assms(3) wp_simps outcome.case AsyncStorageApiProvider.simps
  by (rule wp_mono [OF create_live [OF store_invD(1,3) [OF assms(1)] assms(2)]])
    (auto simp: wp_simps free_row [OF assms(1,4)] split: outcome.split)

lemma provider_get_live:
  assumes "store_inv e D key w" "calm n w"
  shows "wp (provider_get_contract e D (link_provider e host key sk) i) (\<lambda>r w'. is_ok r \<and> calm n w') w"
  unfolding provider_get_contract_def wp_simps AsyncStorageApiProvider.simps
proof (rule wp_mono [OF wp_conj [OF get_effect [OF assms(1)] get_live [OF store_invD(1,3) [OF assms(1)] assms(2)]]])
  fix r :: "(ClientContract option, ApiError) outcome" and w'
  let ?row = "contract_view (link_pg w) (key, get_contract_id_string i)"
  assume "(store_inv e D key w' \<and> store_view e D key w' = store_view e D key w \<and> r \<noteq> Panic \<and>
     (\<forall>x. r = Ok x \<longrightarrow> x = map_option client_contract ?row)) \<and> is_ok r \<and> calm n w'"
  then have "r = Ok (map_option client_contract ?row)" "calm n w'" by (auto elim: is_ok.elims)
  moreover have "\<exists>k. decode_content e D (c_content row) = Ok k" if "?row = Some row" for row
    using rows_okE [OF store_invD(4) [OF assms(1)] that] decode_encode [OF store_invD(1,2) [OF assms(1)]] by metis
  ultimately show "case outcome_map_err (to_storage_error api_error_text) r of
      Ok contract_res \<Rightarrow> wp (case contract_res of None \<Rightarrow> ret None
         | Some res \<Rightarrow> and_then (of_outcome (decode_content e D (cc_content res))) (\<lambda>contract. ret (Some contract)))
         (\<lambda>r w'. is_ok r \<and> calm n w') w'
    | Err x \<Rightarrow> is_ok (Err x) \<and> calm n w' | Panic \<Rightarrow> is_ok Panic \<and> calm n w'"
    by (cases ?row) (auto simp: wp_simps client_contract_def)
qed

lemma provider_delete_live:
  assumes "store_inv e D key w" "calm n w"
  shows "wp (provider_delete_contract e (link_provider e host key sk) i) (\<lambda>r w'. calm n w' \<and> r \<noteq> Panic) w"
  unfolding provider_delete_contract_def wp_simps AsyncStorageApiProvider.simps
  by (rule wp_mono [OF delete_live [OF store_invD(1,3) [OF assms(1)] assms(2)]]) (auto elim: outcome_map_err.elims)

lemma update_row_live:
  assumes "store_inv e D key w" "calm n w" "encode_contract e D k = Ok t"
  shows "wp (update_row e D (link_provider e host key sk) k t) (\<lambda>r w'. store_inv e D key w' \<and> calm n w' \<and> r \<noteq> Panic \<and>
     (store_view e D key w (get_id D k) \<noteq> None \<longrightarrow> is_ok r)
     \<and> (\<not> is_ok r \<longrightarrow> store_view e D key w' (get_id D k) = store_view e D key w (get_id D k) \<or>
          store_view e D key w (get_id D k) \<noteq> None)) w"
  unfolding update_row_def AsyncStorageApiProvider.simps
proof (rule wp_mono [OF wp_conj [OF update_effect [OF assms(1,3)] update_live [OF store_invD(1,3) [OF assms(1)] assms(2)]]])
  fix r :: "(unit, ApiError) outcome" and w'
  let ?u = "\<lparr>uc_uuid = get_contract_id_string (get_id D k), uc_state = Some (get_contract_state_str k), uc_content = Some t, uc_key = key\<rparr>"
  assume got: "(store_inv e D key w' \<and> r \<noteq> Panic \<and>
     (let changed = store_view e D key w (get_id D k) \<noteq> None
          \<and> store_view e D key w' = (store_view e D key w)(get_id D k \<mapsto> k)
      in if is_ok r then changed else store_view e D key w' = store_view e D key w \<or> changed)) \<and>
     calm n w' \<and> r \<noteq> Panic \<and> (contract_view (link_pg w) (uc_key ?u, uc_uuid ?u) \<noteq> None \<longrightarrow> is_ok r)"
  have "contract_view (link_pg w) (key, get_contract_id_string (get_id D k)) \<noteq> None" if "store_view e D key w (get_id D k) \<noteq> None"
    using that by (auto simp: store_view_def stored_contracts_def bind_eq_Some_conv)
  with got show "store_inv e D key w' \<and> calm n w' \<and> r \<noteq> Panic \<and>
     (store_view e D key w (get_id D k) \<noteq> None \<longrightarrow> is_ok r)
     \<and> (\<not> is_ok r \<longrightarrow> store_view e D key w' (get_id D k) = store_view e D key w (get_id D k) \<or>
          store_view e D key w (get_id D k) \<noteq> None)"
    by (auto simp: Let_def split: if_splits)
qed

lemma update_or_create_live:
  assumes "store_inv e D key w" "calm (Suc n) w" "encode_contract e D k = Ok t"
  shows "wp (handle (update_row e D (link_provider e host key sk) k t) ret
       (\<lambda>_. create_row e D (link_provider e host key sk) k)) (\<lambda>r w'. is_ok r \<and> calm n w') w"
  unfolding wp_handle
proof (rule wp_mono [OF update_row_live [OF assms]])
  fix r :: "(unit, ApiError) outcome" and w1
  assume upd: "store_inv e D key w1 \<and> calm (Suc n) w1 \<and> r \<noteq> Panic \<and>
     (store_view e D key w (get_id D k) \<noteq> None \<longrightarrow> is_ok r)
     \<and> (\<not> is_ok r \<longrightarrow> store_view e D key w1 (get_id D k) = store_view e D key w (get_id D k) \<or>
          store_view e D key w (get_id D k) \<noteq> None)"
  have "wp (create_row e D (link_provider e host key sk) k) (\<lambda>r w'. is_ok r \<and> calm n w') w1" if "r = Err x" for x
    by (rule create_row_live) (use upd that assms(3) in auto)
  then show "case r of Ok a \<Rightarrow> wp (ret a) (\<lambda>r w'. is_ok r \<and> calm n w') w1
      | Err x \<Rightarrow> wp (create_row e D (link_provider e host key sk) k) (\<lambda>r w'. is_ok r \<and> calm n w') w1
      | Panic \<Rightarrow> is_ok (Panic :: (unit, dlc_error) outcome) \<and> calm n w1"
    using upd by (cases r) (auto simp: wp_ret calm_less)
qed

lemma provider_update_live:
  assumes "store_inv e D key w" "calm (Suc n) w" "encode_contract e D k = Ok t"
    and "replaces k \<or> store_view e D key w (get_id D k) \<noteq> None"
  shows "wp (provider_update_contract e D (link_provider e host key sk) k) (\<lambda>r w'. is_ok r \<and> calm n w') w"
proof (cases "replaces k")
  case True
  show ?thesis
    unfolding provider_update_contract_def replaces_case if_P [OF True] wp_and_then [of "handle _ _ _"] wp_handle [of "provider_delete_contract _ _ _"]
  proof (rule wp_mono [OF wp_conj [OF provider_delete_effect [OF assms(1)] provider_delete_live [OF assms(1,2)]]])
    fix r :: "(unit, dlc_error) outcome" and w1
    assume "(store_inv e D key w1 \<and>
       (let removed = store_view e D key w1 = (store_view e D key w)(get_temporary_id D k := None)
        in if r = Ok () then store_view e D key w (get_temporary_id D k) \<noteq> None \<and> removed
           else store_view e D key w1 = store_view e D key w \<or> removed)) \<and> calm (Suc n) w1 \<and> r \<noteq> Panic"
    then have w1: "store_inv e D key w1" "calm (Suc n) w1" "r \<noteq> Panic" by simp_all
    let ?Q = "\<lambda>r w'. is_ok r \<and> calm n w'"
    let ?rest = "\<lambda>_. and_then (of_outcome (encode_contract e D k)) (\<lambda>content.
        handle (update_row e D (link_provider e host key sk) k content) ret
          (\<lambda>_. create_row e D (link_provider e host key sk) k))"
    have "wp (?rest ()) ?Q w1"
      unfolding wp_and_then wp_of_outcome assms(3) outcome.case by (rule update_or_create_live [OF w1(1,2) assms(3)])
    then show "case r of Ok a \<Rightarrow> wp (ret a) (\<lambda>r w'. case r of Ok a \<Rightarrow> wp (?rest a) ?Q w'
            | Err e \<Rightarrow> ?Q (Err e) w' | Panic \<Rightarrow> ?Q Panic w') w1
        | Err x \<Rightarrow> wp (ret ()) (\<lambda>r w'. case r of Ok a \<Rightarrow> wp (?rest a) ?Q w'
            | Err e \<Rightarrow> ?Q (Err e) w' | Panic \<Rightarrow> ?Q Panic w') w1
        | Panic \<Rightarrow> (\<lambda>r w'. case r of Ok a \<Rightarrow> wp (?rest a) ?Q w'
            | Err e \<Rightarrow> ?Q (Err e) w' | Panic \<Rightarrow> ?Q Panic w') Panic w1"
      using w1(3) by (cases r) (simp_all add: wp_ret)
  qed
next
  case False
  then show ?thesis
    unfolding provider_update_contract_def replaces_case if_not_P [OF False] assms(3) wp_simps outcome.case
    by (intro wp_mono [OF update_row_live [OF assms(1,2,3)]]) (use assms(4) False in \<open>auto simp: calm_less elim: is_ok.elims\<close>)
qed

lemma provider_list_live:
  assumes "store_inv e D key w" "calm n w"
  shows "wp (provider_list e D (link_provider e host key sk) state) (\<lambda>r w'. is_ok r \<and> calm n w') w"
  unfolding provider_list_def wp_simps AsyncStorageApiProvider.simps
proof (rule wp_mono [OF wp_conj [OF list_effect [OF assms(1)] list_live [OF store_invD(1,3) [OF assms(1)] assms(2)]]])
  fix r :: "(ClientContract list, ApiError) outcome" and w'
  assume got: "(store_inv e D key w' \<and> store_view e D key w' = store_view e D key w \<and> r \<noteq> Panic \<and>
     (\<forall>cs. r = Ok cs \<longrightarrow> (\<exists>rs. cs = map client_contract rs \<and> distinct rs \<and>
        set rs = {row. contract_view (link_pg w) (contract_ident row) = Some row \<and> c_key row = key
          \<and> (\<forall>s. state = Some s \<longrightarrow> c_state row = s)}))) \<and> is_ok r \<and> calm n w'"
  then obtain rs where rs: "r = Ok (map client_contract rs)" "distinct rs"
    "set rs = {row. contract_view (link_pg w) (contract_ident row) = Some row \<and> c_key row = key
       \<and> (\<forall>s. state = Some s \<longrightarrow> c_state row = s)}"
    by (auto elim!: is_ok.elims)
  obtain ks where "outcome_collect (decode_content e D) (map (cc_content \<circ> client_contract) rs) = Ok ks"
    by (rule list_decodes [OF assms(1) rs(2,3)])
  then show "case outcome_map_err (to_storage_error api_error_text) r of
      Ok contracts_res \<Rightarrow> is_ok (outcome_collect (decode_content e D) (map cc_content contracts_res)) \<and> calm n w'
    | Err x \<Rightarrow> is_ok (Err x) \<and> calm n w' | Panic \<Rightarrow> is_ok Panic \<and> calm n w'"
    using got by (simp add: rs(1))
qed

lemma provider_state_live:
  assumes "store_inv e D key w" "calm n w"
  shows "wp (and_then (get_contracts_by_state e D (link_provider e host key sk) s) (\<lambda>cs. ret (f cs))) (\<lambda>r w'. is_ok r \<and> calm n w') w"
  unfolding get_contracts_by_state_def wp_and_then
  by (rule wp_mono [OF provider_list_live [OF assms]]) (auto simp: wp_ret split: outcome.split)

section \<open>Contract stores that answer\<close>

locale live_store = contract_store D st view inv
  for D :: dlc_ext and st :: "'w async_storage" and view :: "'w \<Rightarrow> bytes \<Rightarrow> dlc_contract option" and inv :: "'w \<Rightarrow> bool" +
  fixes calm_for :: "nat \<Rightarrow> 'w \<Rightarrow> bool" and storable :: "dlc_contract \<Rightarrow> bool"
  assumes calm_fewer: "calm_for (Suc n) w \<Longrightarrow> calm_for n w"
    and get_calm: "inv w \<Longrightarrow> calm_for n w \<Longrightarrow> wp (as_get_contract st i) (\<lambda>r w'. is_ok r \<and> calm_for n w') w"
    and create_calm: "inv w \<Longrightarrow> calm_for (Suc n) w \<Longrightarrow> storable (Offered oc) \<Longrightarrow> view w (oc_id oc) = None \<Longrightarrow>
      wp (as_create_contract st oc) (\<lambda>r w'. is_ok r \<and> calm_for n w') w"
    and update_calm: "inv w \<Longrightarrow> calm_for (Suc n) w \<Longrightarrow> storable c \<Longrightarrow> replaces c \<or> view w (get_id D c) \<noteq> None \<Longrightarrow>
      wp (as_update_contract st c) (\<lambda>r w'. is_ok r \<and> calm_for n w') w"
    and signed_calm: "inv w \<Longrightarrow> calm_for n w \<Longrightarrow> wp (as_get_signed_contracts st) (\<lambda>r w'. is_ok r \<and> calm_for n w') w"
begin

text \<open>What was written is read back, with both calls succeeding.\<close>

lemma update_get_live:
  assumes "inv w" "calm_for (Suc n) w" "storable c" "replaces c \<or> view w (get_id D c) \<noteq> None"
  shows "wp (and_then (as_update_contract st c) (\<lambda>_. as_get_contract st (get_id D c)))
    (\<lambda>r w'. r = Ok (Some c) \<and> inv w' \<and> calm_for n w') w"
  unfolding wp_and_then
proof (rule wp_mono [OF wp_conj [OF update_law [OF assms(1)] update_calm [OF assms]]])
  fix r :: "(unit, dlc_error) outcome" and w1
  assume upd: "(inv w1 \<and> (if r = Ok () then stored D c (view w) (view w1)
      else vacated D c (view w) (view w1) \<or> stored D c (view w) (view w1))) \<and> is_ok r \<and> calm_for n w1"
  then have r: "r = Ok ()" by (auto elim: is_ok.elims)
  then have w1: "inv w1" "calm_for n w1" "view w1 (get_id D c) = Some c" using upd stored_at by auto
  have "wp (as_get_contract st (get_id D c)) (\<lambda>r w'. r = Ok (Some c) \<and> inv w' \<and> calm_for n w') w1"
    by (rule wp_mono [OF wp_conj [OF get_law [OF w1(1)] get_calm [OF w1(1,2)]]]) (use w1(3) in \<open>auto elim!: is_ok.elims\<close>)
  then show "case r of Ok a \<Rightarrow> wp (as_get_contract st (get_id D c)) (\<lambda>r w'. r = Ok (Some c) \<and> inv w' \<and> calm_for n w') w1
      | Err e \<Rightarrow> Err e = Ok (Some c) \<and> inv w1 \<and> calm_for n w1 | Panic \<Rightarrow> Panic = Ok (Some c) \<and> inv w1 \<and> calm_for n w1"
    by (simp add: r)
qed

end

definition encodes :: "web_ext \<Rightarrow> dlc_ext \<Rightarrow> dlc_contract \<Rightarrow> bool" where
  "encodes e D c \<longleftrightarrow> is_ok (encode_contract e D c)"

lemma encodesE: "encodes e D c \<Longrightarrow> \<exists>t. encode_contract e D c = Ok t"
  unfolding encodes_def by (auto elim: is_ok.elims)

interpretation live_provider: live_store D "provider_storage e D (link_provider e host key sk)"
    "store_view e D key" "store_inv e D key" calm "encodes e D"
  for e D key host sk
proof unfold_locales
  fix n w i c oc
  let ?p = "provider_storage e D (link_provider e host key sk)"
  show "calm (Suc n) w \<Longrightarrow> calm n w" by (rule calm_less)
  assume inv: "store_inv e D key w"
  show "wp (as_get_contract ?p i) (\<lambda>r w'. is_ok r \<and> calm n w') w" if "calm n w"
    using provider_get_live [OF inv that] by (simp add: provider_storage_def)
  show "wp (as_create_contract ?p oc) (\<lambda>r w'. is_ok r \<and> calm n w') w"
    if "calm (Suc n) w" "encodes e D (Offered oc)" "store_view e D key w (oc_id oc) = None"
    using encodesE [OF that(2)] provider_create_live [OF inv that(1) _ that(3)] by (auto simp: provider_storage_def)
  show "wp (as_update_contract ?p c) (\<lambda>r w'. is_ok r \<and> calm n w') w"
    if "calm (Suc n) w" "encodes e D c" "replaces c \<or> store_view e D key w (get_id D c) \<noteq> None"
    using encodesE [OF that(2)] provider_update_live [OF inv that(1) _ that(3)] by (auto simp: provider_storage_def)
  show "wp (as_get_signed_contracts ?p) (\<lambda>r w'. is_ok r \<and> calm n w') w" if "calm n w"
    using provider_state_live [OF inv that] by (simp add: provider_storage_def provider_signed_def)
qed

end
