(* ===== verification/Storage_Props.thy ===== *)
theory Storage_Props
  imports Ref_Dlc Live_Store
begin

text \<open>
  Properties of the storage path as a whole: hexadecimal ids, the stored form of contracts,
  the storage client over the network, and the provider as the manager's contract store. They
  follow from the laws of the components through the interpretation \<open>provider\<close>.
\<close>

section \<open>Concrete worlds for the witnesses\<close>

lemma demo_link_ok: "link_ok demo_link" "lk_net demo_link = []" "srv_pool (lk_server demo_link) = []"
  "link_pg demo_link = demo_pg"
  by (simp_all add: demo_link_def link_ok_def srv_ok_def demo_server_def demo_pg_ok link_pg_def
      alphanumeric_def NONCE_VEC_LENGTH_def)

lemma demo_view_empty: "contract_view demo_pg k = None"
  by (simp add: contract_view_def tview_def demo_pg_def)

lemma demo_store_inv: "store_inv ref_web ref_dlc ''k'' demo_link"
  by (simp add: store_inv_def ref_web_ok ref_dlc_ok demo_link_ok rows_ok_def demo_view_empty)

lemma demo_store_view: "store_view ref_web ref_dlc ''k'' demo_link i = None"
  by (simp add: store_view_def stored_contracts_def demo_link_ok demo_view_empty)

lemma demo_pg_simps: "pg_faults demo_pg = []" "serial (contracts demo_pg) = 1"
  by (simp_all add: demo_pg_def)

definition demo_contract_row :: "dlc_contract \<Rightarrow> bytes \<Rightarrow> Contract" where
  "demo_contract_row k b = \<lparr>c_id = 1, c_uuid = get_contract_id_string (get_id ref_dlc k),
     c_state = get_contract_state_str k, c_content = text_of b, c_key = ''k''\<rparr>"

definition demo_link_holding :: "dlc_contract \<Rightarrow> bytes \<Rightarrow> link" where
  "demo_link_holding k b = demo_link\<lparr>lk_server := (demo_server [])
     \<lparr>srv_pg := demo_pg\<lparr>contracts := \<lparr>rows = [demo_contract_row k b], serial = 2\<rparr>\<rparr>\<rparr>\<rparr>"

abbreviation demo_link_with :: "dlc_contract \<Rightarrow> u8 \<Rightarrow> link" where
  "demo_link_with k p \<equiv> demo_link_holding k [p]"

lemma demo_with_view:
  "contract_view (link_pg (demo_link_holding k b)) u
     = (if u = (''k'', get_contract_id_string (get_id ref_dlc k)) then Some (demo_contract_row k b) else None)"
  by (auto simp: demo_link_holding_def link_pg_def contract_view_def tview_def contract_ident_def demo_contract_row_def)

lemma demo_with:
  assumes "encode_contract ref_web ref_dlc k = Ok (text_of b)"
  shows "store_inv ref_web ref_dlc ''k'' (demo_link_holding k b)"
    and "store_view ref_web ref_dlc ''k'' (demo_link_holding k b) (get_id ref_dlc k) = Some k"
proof -
  have row: "c_content (demo_contract_row k b) = text_of b" "c_state (demo_contract_row k b) = get_contract_state_str k"
    by (simp_all add: demo_contract_row_def)
  show inv: "store_inv ref_web ref_dlc ''k'' (demo_link_holding k b)"
    using assms unfolding store_inv_def rows_ok_def demo_with_view
    by (auto simp: ref_web_ok ref_dlc_ok row)
      (auto simp: demo_link_holding_def demo_link_def link_ok_def srv_ok_def demo_server_def pg_ok_def order_ok_def
        table_ok_def demo_pg_def demo_contract_row_def alphanumeric_def NONCE_VEC_LENGTH_def)
  show "store_view ref_web ref_dlc ''k'' (demo_link_holding k b) (get_id ref_dlc k) = Some k"
    unfolding store_view_def stored_row [OF store_invD(1,2,4) [OF inv]]
    using assms by (auto simp: demo_with_view row)
qed

lemma demo_encoded:
  "encode_contract ref_web ref_dlc (Offered demo_offer) = Ok (text_of [1])"
  "encode_contract ref_web ref_dlc (Signed demo_signed_contract) = Ok (text_of [3])"
  by (simp_all add: encode_contract_def serialize_contract_def ref_dlc_def get_prefix_def)

section \<open>Codecs\<close>

text \<open>
  Decoding the hexadecimal text of any byte string gives the bytes back.
\<close>

theorem hex_roundtrip: "decode_hex (hex_str bs) = Ok bs"
  by (rule decode_hex_str)

text \<open>
  A contract in any of its ten states, encoded as a row's content (state prefix, library
  serialization, base64), is decoded to the same contract and the same state.
\<close>

theorem content_roundtrip:
  assumes "web_ok e" "dlc_ok D" "encode_contract e D k = Ok t"
  shows "decode_content e D t = Ok k"
  by (rule decode_encode [OF assms])

theorem content_roundtrip_witness:
  "\<exists>t. encode_contract ref_web ref_dlc (Confirmed demo_signed_contract) = Ok t
     \<and> decode_content ref_web ref_dlc t = Ok (Confirmed demo_signed_contract)"
proof -
  obtain t where t: "encode_contract ref_web ref_dlc (Confirmed demo_signed_contract) = Ok t"
    by (simp add: encode_contract_def serialize_contract_def ref_dlc_def)
  with content_roundtrip [OF ref_web_ok ref_dlc_ok t] show ?thesis by blast
qed

section \<open>The client over the network\<close>

text \<open>
  Over a network that loses nothing and a database without faults, creating a contract
  under a free identity succeeds: the client gets the stored row back, and the database holds
  it under the client's key.
\<close>

theorem create_contract_delivered:
  assumes "web_ok e" "link_ok w" "lk_net w = []" "srv_pool (lk_server w) = []"
    and "pg_faults (link_pg w) = []" "0 < serial (contracts (link_pg w))" "serial (contracts (link_pg w)) \<le> i32_max"
    and "contract_view (link_pg w) (nc_key nc, nc_uuid nc) = None"
  shows "\<exists>row w'. client_create_contract e (link_client e host) nc sk w = (Ok (client_contract row), w')
     \<and> contract_view (link_pg w') = (contract_view (link_pg w))((nc_key nc, nc_uuid nc) \<mapsto> row)
     \<and> made_contract nc row"
proof -
  obtain r w' where run: "client_create_contract e (link_client e host) nc sk w = (r, w')" by fastforce
  have "\<not> lost w r w'" using assms(3,4) by (simp add: lost_def)
  then have "ran (db_create_contract nc) shown_contract w r w'"
    using wp_run [OF client_create_contract_law [OF assms(1,2)] run] by blast
  then obtain dr where dr: "db_create_contract nc (link_pg w) = (dr, link_pg w')"
    "\<And>a b. dr = Ok a \<Longrightarrow> shown_contract a = Some b \<Longrightarrow> r = Ok b"
    using assms(3,4) by (auto simp: ran_def)
  obtain row where row: "dr = Ok row" "c_id row = serial (contracts (link_pg w))"
    using create_contract_free [OF dr(1) assms(5,7,8)] by blast
  have pg: "pg_ok (link_pg w)" using assms(2) by (simp add: link_ok_def srv_ok_def link_pg_def)
  have "shown_contract row = Some (client_contract row)"
    using row(2) assms(6,7) by (simp add: shown_contract_def i32_max_def)
  with dr(2) row(1) run contracts_tbl.create_run [OF pg dr(1)] show ?thesis by auto
qed

theorem create_contract_delivered_witness:
  "\<exists>row w'. client_create_contract ref_web (link_client ref_web ''h'')
       \<lparr>nc_uuid = ''u'', nc_state = ''s'', nc_content = ''c'', nc_key = ''k''\<rparr> [7] demo_link
     = (Ok (client_contract row), w') \<and> c_content row = ''c''"
  using create_contract_delivered [OF ref_web_ok demo_link_ok(1-3), of
      "\<lparr>nc_uuid = ''u'', nc_state = ''s'', nc_content = ''c'', nc_key = ''k''\<rparr>" "''h''" "[7]"]
  unfolding demo_link_ok(4)
  by (simp add: demo_link_ok(3) demo_view_empty demo_pg_simps i32_max_def made_contract_def) blast

section \<open>The provider\<close>

text \<open>
  C21. Through the lossy network, a contract that was stored with success is what a later
  successful read of its id returns, for every state a contract can have.
\<close>

theorem provider_update_get:
  assumes "store_inv e D key w"
    and "provider_update_contract e D (link_provider e host key sk) k w = (Ok (), w1)"
    and "provider_get_contract e D (link_provider e host key sk) (get_id D k) w1 = (Ok x, w2)"
  shows "x = Some k"
  by (rule provider.update_then_get [OF assms(1)], unfold provider_storage_def async_storage.simps)
    (fact assms(2,3))+

theorem provider_update_get_witness:
  "\<exists>w1 w2. provider_update_contract ref_web ref_dlc (link_provider ref_web ''h'' ''k'' [7])
       (Confirmed demo_signed_contract) (demo_link_with (Signed demo_signed_contract) 3) = (Ok (), w1)
     \<and> provider_get_contract ref_web ref_dlc (link_provider ref_web ''h'' ''k'' [7])
       (get_id ref_dlc (Confirmed demo_signed_contract)) w1 = (Ok (Some (Confirmed demo_signed_contract)), w2)"
proof -
  let ?p = "link_provider ref_web ''h'' ''k'' [7]" and ?k = "Confirmed demo_signed_contract"
  let ?w = "demo_link_with (Signed demo_signed_contract) 3"
  have "is_ok (fst (and_then (provider_update_contract ref_web ref_dlc ?p ?k)
      (\<lambda>_. provider_get_contract ref_web ref_dlc ?p (get_id ref_dlc ?k)) ?w))"
    by code_simp
  then obtain w1 x w2 where run: "provider_update_contract ref_web ref_dlc ?p ?k ?w = (Ok (), w1)"
    "provider_get_contract ref_web ref_dlc ?p (get_id ref_dlc ?k) w1 = (Ok x, w2)"
    by (auto simp: and_then_def elim!: is_ok.elims split: prod.splits outcome.splits) (metis prod.collapse)
  from provider_update_get [OF demo_with(1) [OF demo_encoded(2)] run] run show ?thesis by blast
qed

text \<open>
  C22. An update that reports an error leaves the store as it was, or without the record under
  the temporary id (for accepted and signed contracts), or with the new contract stored; no
  other contract of the key is touched.
\<close>

theorem provider_failed_update:
  assumes "store_inv e D key w"
    and "provider_update_contract e D (link_provider e host key sk) k w = (r, w1)"
  shows "store_inv e D key w1 \<and>
    (if r = Ok () then stored D k (store_view e D key w) (store_view e D key w1)
     else vacated D k (store_view e D key w) (store_view e D key w1)
       \<or> stored D k (store_view e D key w) (store_view e D key w1))"
  using wp_run [OF provider_update_effect [OF assms(1)] assms(2)] .

theorem provider_failed_update_witness:
  "let w1 = snd (provider_update_contract ref_web ref_dlc (link_provider ref_web ''h'' ''k'' [7])
       (Confirmed demo_signed_contract) demo_link)
   in store_view ref_web ref_dlc ''k'' w1 = (\<lambda>_. None)"
proof -
  obtain r w1 where run: "provider_update_contract ref_web ref_dlc (link_provider ref_web ''h'' ''k'' [7])
      (Confirmed demo_signed_contract) demo_link = (r, w1)" by fastforce
  have "store_view ref_web ref_dlc ''k'' demo_link = (\<lambda>_. None)" using demo_store_view by auto
  with provider_failed_update [OF demo_store_inv run] run show ?thesis
    by (auto simp: stored_def vacated_def split: if_splits)
qed

text \<open>
  An offer is only created under an id that is free: otherwise the call fails and the
  stored contracts stay as they are.
\<close>

theorem provider_create_only_new:
  assumes "store_inv e D key w" "store_view e D key w (oc_id oc) = Some k"
    and "provider_create_contract e D (link_provider e host key sk) oc w = (r, w1)"
  shows "r \<noteq> Ok () \<and> store_view e D key w1 = store_view e D key w"
  using provider.create_only_new [OF assms(1,2), of host sk r w1] assms(3)
  by (simp add: provider_storage_def)

theorem provider_create_only_new_witness:
  "fst (provider_create_contract ref_web ref_dlc (link_provider ref_web ''h'' ''k'' [7]) demo_offer
     (demo_link_with (Offered demo_offer) 1)) \<noteq> Ok ()"
proof -
  have id: "get_id ref_dlc (Offered demo_offer) = oc_id demo_offer" using ref_dlc_ok by simp
  show ?thesis
    using provider_create_only_new [OF demo_with(1) [OF demo_encoded(1)] demo_with(2) [OF demo_encoded(1), unfolded id]]
    by (metis prod.collapse)
qed

text \<open>A listing: it keeps the store, is exact when it answers, and answers when the link is calm.\<close>

definition lists_exactly ::
  "web_ext \<Rightarrow> dlc_ext \<Rightarrow> string \<Rightarrow> ('a \<Rightarrow> dlc_contract) \<Rightarrow> link \<Rightarrow> ('a list, dlc_error) outcome \<times> link \<Rightarrow> bool" where
  "lists_exactly e D key C w res \<longleftrightarrow> (case res of (r, w1) \<Rightarrow>
     store_view e D key w1 = store_view e D key w
     \<and> (\<forall>xs. r = Ok xs \<longrightarrow> distinct (map (\<lambda>x. get_id D (C x)) xs)
          \<and> set xs = {x. store_view e D key w (get_id D (C x)) = Some (C x)})
     \<and> (calm 0 w \<longrightarrow> (\<exists>xs. r = Ok xs)))"

lemma lists_exactlyI:
  assumes "wp m (\<lambda>r w'. store_inv e D key w' \<and> store_view e D key w' = store_view e D key w
      \<and> (\<forall>xs. r = Ok xs \<longrightarrow> listed D (store_view e D key w) C xs)) w"
    and "calm 0 w \<Longrightarrow> wp m (\<lambda>r w'. is_ok r \<and> calm 0 w') w"
  shows "lists_exactly e D key C w (m w)"
proof -
  obtain r w1 where run: "m w = (r, w1)" by (rule prod.exhaust)
  have "\<exists>xs. r = Ok xs" if "calm 0 w" using wp_run [OF assms(2) [OF that] run] by (cases r) auto
  with wp_run [OF assms(1) run] show ?thesis by (simp add: lists_exactly_def run listed_def)
qed

text \<open>
  C23. The four listings by state (offered, signed, confirmed and pre-closed contracts) are exact:
  each leaves the store unchanged, and when it answers it returns, without duplicates, exactly
  the contracts of the key in that state. On a calm link it does answer.
\<close>

theorem provider_lists_by_state:
  assumes "store_inv e D key w" "p = link_provider e host key sk"
  shows "lists_exactly e D key Offered w (provider_offers e D p w)
    \<and> lists_exactly e D key Signed w (provider_signed e D p w)
    \<and> lists_exactly e D key Confirmed w (provider_confirmed e D p w)
    \<and> lists_exactly e D key PreClosed w (provider_preclosed e D p w)"
proof -
  note live = provider_state_live [OF assms(1), of 0 host sk, folded assms(2)]
  note law = provider.offers_law [OF assms(1), of host sk, unfolded provider_storage_def async_storage.simps, folded assms(2)]
    provider.signed_law [OF assms(1), of host sk, unfolded provider_storage_def async_storage.simps, folded assms(2)]
    provider.confirmed_law [OF assms(1), of host sk, unfolded provider_storage_def async_storage.simps, folded assms(2)]
    provider.preclosed_law [OF assms(1), of host sk, unfolded provider_storage_def async_storage.simps, folded assms(2)]
  show ?thesis
    by (intro conjI lists_exactlyI law)
      (simp_all add: live provider_offers_def provider_signed_def provider_confirmed_def provider_preclosed_def)
qed

theorem provider_lists_by_state_witness:
  "let p = link_provider ref_web ''h'' ''k'' [7]; w = demo_link_with (Signed demo_signed_contract) 3
   in (\<exists>xs w1. provider_signed ref_web ref_dlc p w = (Ok xs, w1) \<and> demo_signed_contract \<in> set xs)
     \<and> (\<exists>xs w1. provider_confirmed ref_web ref_dlc p w = (Ok xs, w1) \<and> demo_signed_contract \<notin> set xs)"
proof -
  let ?p = "link_provider ref_web ''h'' ''k'' [7]" and ?w = "demo_link_with (Signed demo_signed_contract) 3"
  note held = demo_with [OF demo_encoded(2)]
  have "get_id ref_dlc (Confirmed demo_signed_contract) = get_id ref_dlc (Signed demo_signed_contract)"
    by (simp add: ref_dlc_def)
  moreover have "calm 0 ?w"
    by (simp add: calm_def quiet_def calm_server_def pg_typed_def serials_ok_def demo_link_holding_def demo_link_def
        demo_server_def demo_pg_def demo_contract_row_def link_pg_def i32_max_def)
  moreover obtain r1 w1 r2 w2 where "provider_signed ref_web ref_dlc ?p ?w = (r1, w1)" "provider_confirmed ref_web ref_dlc ?p ?w = (r2, w2)"
    by (metis prod.exhaust)
  ultimately show ?thesis
    using provider_lists_by_state [OF held(1) refl, of "''h''" "[7]"] held(2) by (auto simp: lists_exactly_def)
qed

end
