(* ===== verification/Denominator.thy ===== *)
theory Denominator
  imports Complex_Main Prelude
begin

text \<open>
  \<open>calculate_denominator_from_basis_points\<close> of \<open>dlc-link-manager/src/lib.rs\<close> computes in binary64:
  \<open>((100.0 / basis_points as f64) * 100.0) as u64\<close>. Its operands are positive and far from the
  ends of the exponent range, so a double is a fraction here, and an operation rounds its exact
  result to 53 bits, ties to even. The property is that the result is the integer quotient
  \<open>10000 div bp\<close>.
\<close>

section \<open>Rounding to 53 bits\<close>

fun floor_log2 :: "nat \<Rightarrow> nat" where
  "floor_log2 n = (if n < 2 then 0 else Suc (floor_log2 (n div 2)))"

declare floor_log2.simps [simp del]

definition div_half_even :: "nat \<Rightarrow> nat \<Rightarrow> nat" where
  "div_half_even p q =
     (let d = p div q; r = p mod q in if 2 * r < q \<or> 2 * r = q \<and> even d then d else Suc d)"

text \<open>The fraction \<open>p / q\<close> times \<open>2 ^ k\<close>, for an integer \<open>k\<close>.\<close>

definition scale2 :: "nat \<times> nat \<Rightarrow> int \<Rightarrow> nat \<times> nat" where
  "scale2 pq k = (if 0 \<le> k then (fst pq * 2 ^ nat k, snd pq) else (fst pq, snd pq * 2 ^ nat (- k)))"

definition f64_round :: "nat \<times> nat \<Rightarrow> nat \<times> nat" where
  "f64_round pq =
     (let k = 52 - (int (floor_log2 (fst pq)) - int (floor_log2 (snd pq)));
          (p, q) = scale2 pq k;
          k' = (if p < q * 2 ^ 52 then k + 1 else k);
          (p', q') = scale2 pq k'
      in scale2 (div_half_even p' q', 1) (- k'))"

definition f64_div :: "nat \<times> nat \<Rightarrow> nat \<times> nat \<Rightarrow> nat \<times> nat" where
  "f64_div a b = f64_round (fst a * snd b, snd a * fst b)"

definition f64_mult :: "nat \<times> nat \<Rightarrow> nat \<times> nat \<Rightarrow> nat \<times> nat" where
  "f64_mult a b = f64_round (fst a * fst b, snd a * snd b)"

definition f64_of_u64 :: "u64 \<Rightarrow> nat \<times> nat" where
  "f64_of_u64 n = f64_round (unat n, 1)"

text \<open>The cast back truncates and saturates.\<close>

definition u64_of_f64 :: "nat \<times> nat \<Rightarrow> u64" where
  "u64_of_f64 a = word_of_nat (min (fst a div snd a) (2 ^ 64 - 1))"

definition calculate_denominator_from_basis_points :: "u64 \<Rightarrow> u64" where
  "calculate_denominator_from_basis_points basis_points =
     (if basis_points = 0 then 0
      else u64_of_f64 (f64_mult (f64_div (100, 1) (f64_of_u64 basis_points)) (100, 1)))"

section \<open>The error of one rounding\<close>

definition frac_val :: "nat \<times> nat \<Rightarrow> real" where
  "frac_val pq = real (fst pq) / real (snd pq)"

lemma floor_log2_bounds:
  assumes "0 < n"
  shows "2 ^ floor_log2 n \<le> n \<and> n < 2 ^ Suc (floor_log2 n)"
  using assms
proof (induction n rule: floor_log2.induct)
  case (1 n)
  show ?case
  proof (cases "n < 2")
    case True
    with 1(2) have "n = 1" by simp
    then show ?thesis by (simp add: floor_log2.simps [of "Suc 0"])
  next
    case False
    with 1(1) have "2 ^ floor_log2 (n div 2) \<le> n div 2 \<and> n div 2 < 2 ^ Suc (floor_log2 (n div 2))" by simp
    moreover have "n = 2 * (n div 2) + n mod 2" "n mod 2 < 2" by simp_all
    ultimately have "2 * 2 ^ floor_log2 (n div 2) \<le> n \<and> n < 2 * (2 * 2 ^ floor_log2 (n div 2))"
      unfolding power_Suc by linarith
    with False show ?thesis by (simp add: floor_log2.simps [of n])
  qed
qed

lemma scale2_val: "frac_val (scale2 pq k) = frac_val pq * 2 powi k"
  by (cases "0 \<le> k") (simp_all add: frac_val_def scale2_def power_int_def power_one_over)

lemma scale2_pos: "0 < fst pq \<Longrightarrow> 0 < snd pq \<Longrightarrow> 0 < fst (scale2 pq k) \<and> 0 < snd (scale2 pq k)"
  by (simp add: scale2_def)

lemma div_half_even_error:
  assumes "0 < q"
  shows "\<bar>real (div_half_even p q) - real p / real q\<bar> \<le> 1 / 2"
    and "q dvd p \<Longrightarrow> real (div_half_even p q) = real p / real q"
proof -
  have p: "real p / real q = real (p div q) + real (p mod q) / real q"
  proof -
    have "real p = real (p div q) * real q + real (p mod q)"
      by (metis div_mult_mod_eq of_nat_add of_nat_mult)
    with assms show ?thesis by (simp add: field_simps)
  qed
  have r: "0 \<le> real (p mod q) / real q" "real (p mod q) / real q \<le> 1"
    using assms by (simp_all add: field_simps less_imp_le)
  have low: "2 * (p mod q) \<le> q \<Longrightarrow> real (p mod q) / real q \<le> 1 / 2"
    and high: "q \<le> 2 * (p mod q) \<Longrightarrow> 1 / 2 \<le> real (p mod q) / real q"
    using assms by (simp_all add: field_simps)
  show "\<bar>real (div_half_even p q) - real p / real q\<bar> \<le> 1 / 2"
    unfolding p div_half_even_def Let_def using r low high by auto
  show "q dvd p \<Longrightarrow> real (div_half_even p q) = real p / real q"
    using assms unfolding p by (simp add: div_half_even_def)
qed

lemma f64_round_error:
  assumes "0 < fst pq" "0 < snd pq"
  shows "\<bar>frac_val (f64_round pq) - frac_val pq\<bar> \<le> frac_val pq / 2 ^ 52" and "0 < snd (f64_round pq)"
proof -
  define k where "k = 52 - (int (floor_log2 (fst pq)) - int (floor_log2 (snd pq)))"
  define k' where "k' = (if fst (scale2 pq k) < snd (scale2 pq k) * 2 ^ 52 then k + 1 else k)"
  define s where "s = scale2 pq k'"
  have res: "f64_round pq = scale2 (div_half_even (fst s) (snd s), 1) (- k')"
    by (simp add: f64_round_def k_def [symmetric] s_def k'_def Let_def case_prod_beta)
  show "0 < snd (f64_round pq)" unfolding res by (simp add: scale2_def)
  have s: "frac_val s = frac_val pq * 2 powi k'" "0 < snd s"
    using scale2_val scale2_pos [OF assms] by (simp_all add: s_def)
  have big: "2 ^ 51 \<le> frac_val s"
  proof -
    let ?a = "floor_log2 (fst pq)" and ?b = "floor_log2 (snd pq)"
    have a: "2 ^ ?a \<le> real (fst pq)" and b: "real (snd pq) \<le> 2 * 2 ^ ?b"
      using floor_log2_bounds [OF assms(1)] floor_log2_bounds [OF assms(2)]
      by (metis of_nat_le_iff of_nat_numeral of_nat_power, metis less_imp_le of_nat_le_iff of_nat_numeral of_nat_power power_Suc)
    have "2 ^ ?a / (2 * 2 ^ ?b) \<le> frac_val pq"
      unfolding frac_val_def using a b assms(2) by (intro frac_le) simp_all
    then have "2 ^ ?a / (2 * 2 ^ ?b) * 2 powi k \<le> frac_val pq * 2 powi k" by (intro mult_right_mono) simp_all
    moreover have "(2 :: real) ^ ?a / (2 * 2 ^ ?b) * 2 powi k = 2 ^ 51"
    proof -
      have "(2 :: real) powi k * 2 powi (int ?a - int ?b) = 2 powi 52"
        by (simp add: k_def flip: power_int_add)
      moreover have "(2 :: real) powi (int ?a - int ?b) = 2 ^ ?a / 2 ^ ?b"
        by (simp add: power_int_diff)
      ultimately show ?thesis by (simp add: field_simps)
    qed
    ultimately have "2 ^ 51 \<le> frac_val pq * 2 powi k" by simp
    also have "\<dots> \<le> frac_val pq * 2 powi k'"
      by (intro mult_left_mono) (simp_all add: k'_def power_int_add frac_val_def)
    finally show ?thesis by (simp add: s(1))
  qed
  have err: "\<bar>real (div_half_even (fst s) (snd s)) - frac_val s\<bar> \<le> 1 / 2"
    using div_half_even_error(1) [OF s(2)] by (simp add: frac_val_def)
  have val: "frac_val (f64_round pq) = real (div_half_even (fst s) (snd s)) / 2 powi k'"
    unfolding res scale2_val by (simp add: frac_val_def power_int_minus field_simps)
  have pq: "frac_val pq = frac_val s / 2 powi k'" unfolding s(1) by simp
  have "\<bar>frac_val (f64_round pq) - frac_val pq\<bar> = \<bar>real (div_half_even (fst s) (snd s)) - frac_val s\<bar> / 2 powi k'"
    unfolding val unfolding pq by (simp add: abs_divide flip: diff_divide_distrib)
  also have "\<dots> \<le> (1 / 2) / 2 powi k'" by (intro divide_right_mono err) simp
  also have "\<dots> \<le> (frac_val s / 2 ^ 52) / 2 powi k'" using big by (intro divide_right_mono) simp_all
  finally show "\<bar>frac_val (f64_round pq) - frac_val pq\<bar> \<le> frac_val pq / 2 ^ 52" unfolding pq by simp
qed

section \<open>The quotient\<close>

lemma f64_round_near:
  assumes "0 < fst pq" "0 < snd pq"
  shows "frac_val pq * (1 - 1 / 2 ^ 52) \<le> frac_val (f64_round pq)" "frac_val (f64_round pq) \<le> frac_val pq * (1 + 1 / 2 ^ 52)"
    and "0 < fst (f64_round pq)" "0 < snd (f64_round pq)"
proof -
  note err = f64_round_error [OF assms]
  show low: "frac_val pq * (1 - 1 / 2 ^ 52) \<le> frac_val (f64_round pq)"
    and "frac_val (f64_round pq) \<le> frac_val pq * (1 + 1 / 2 ^ 52)"
    using err(1) unfolding abs_diff_le_iff by (simp_all add: algebra_simps)
  have "0 < frac_val pq * (1 - 1 / 2 ^ 52)" using assms by (simp add: frac_val_def)
  with low have "0 < frac_val (f64_round pq)" by linarith
  then show "0 < fst (f64_round pq)" by (cases "fst (f64_round pq) = 0") (simp_all add: frac_val_def)
  show "0 < snd (f64_round pq)" by (rule err(2))
qed

lemma frac_floor:
  assumes "0 < snd a" "real q \<le> frac_val a" "frac_val a < real q + 1"
  shows "fst a div snd a = q"
proof -
  have "real (q * snd a) \<le> real (fst a)" "real (fst a) < real (Suc q * snd a)"
    using assms by (simp_all add: frac_val_def field_simps)
  then have "q * snd a \<le> fst a" "fst a < Suc q * snd a" by (simp_all only: of_nat_le_iff of_nat_less_iff)
  then show ?thesis by (intro div_nat_eqI) (simp_all add: mult.commute)
qed

definition denominator_f64 :: "nat \<Rightarrow> nat \<times> nat" where
  "denominator_f64 n = f64_mult (f64_div (100, 1) (f64_round (n, 1))) (100, 1)"

lemma denominator_near:
  assumes "0 < n"
  shows "\<bar>real n * frac_val (denominator_f64 n) - 10000\<bar> \<le> 1 / 2" "0 < snd (denominator_f64 n)"
proof -
  let ?u = "1 / 2 ^ 52 :: real"
  define a where "a = f64_round (n, 1)"
  define b where "b = f64_round (100 * snd a, fst a)"
  define c where "c = f64_round (fst b * 100, snd b)"
  have c: "denominator_f64 n = c"
    by (simp add: denominator_f64_def f64_mult_def f64_div_def a_def b_def c_def)
  have a: "real n * (1 - ?u) \<le> frac_val a" "frac_val a \<le> real n * (1 + ?u)" "0 < fst a" "0 < snd a"
    using f64_round_near [of "(n, 1)"] assms by (simp_all add: a_def frac_val_def)
  have b_of: "frac_val (100 * snd a, fst a) = 100 / frac_val a" by (simp add: frac_val_def)
  have b: "100 / frac_val a * (1 - ?u) \<le> frac_val b" "frac_val b \<le> 100 / frac_val a * (1 + ?u)" "0 < fst b" "0 < snd b"
    using f64_round_near [of "(100 * snd a, fst a)"] a(3,4) unfolding b_of by (simp_all add: b_def)
  have c_of: "frac_val (fst b * 100, snd b) = 100 * frac_val b" by (simp add: frac_val_def)
  have cc: "100 * frac_val b * (1 - ?u) \<le> frac_val c" "frac_val c \<le> 100 * frac_val b * (1 + ?u)" "0 < snd c"
    using f64_round_near [of "(fst b * 100, snd b)"] b(3,4) unfolding c_of by (simp_all add: c_def)
  have v: "0 < frac_val a" using a(3,4) by (simp add: frac_val_def)
  have na: "real n / frac_val a \<le> 1 / (1 - ?u)" "1 / (1 + ?u) \<le> real n / frac_val a"
    using a(1,2) v by (simp_all add: field_simps)
  have "real n * frac_val c \<le> real n * (100 * (100 / frac_val a * (1 + ?u)) * (1 + ?u))"
    using cc(2) b(2) by (intro mult_left_mono order_trans [OF cc(2)] mult_right_mono) simp_all
  also have "\<dots> = 10000 * (1 + ?u) * (1 + ?u) * (real n / frac_val a)" by simp
  also have "\<dots> \<le> 10000 * (1 + ?u) * (1 + ?u) * (1 / (1 - ?u))" by (intro mult_left_mono na(1)) simp
  also have "\<dots> \<le> 10000 + 1 / 2" by simp
  finally have up: "real n * frac_val c \<le> 10000 + 1 / 2" .
  have "10000 - 1 / 2 \<le> 10000 * (1 - ?u) * (1 - ?u) * (1 / (1 + ?u))" by simp
  also have "\<dots> \<le> 10000 * (1 - ?u) * (1 - ?u) * (real n / frac_val a)" by (intro mult_left_mono na(2)) simp
  also have "\<dots> = real n * (100 * (100 / frac_val a * (1 - ?u)) * (1 - ?u))" by simp
  also have "\<dots> \<le> real n * frac_val c"
    using cc(1) b(1) by (intro mult_left_mono order_trans [OF _ cc(1)] mult_right_mono) simp_all
  finally have "10000 - 1 / 2 \<le> real n * frac_val c" .
  with up show "\<bar>real n * frac_val (denominator_f64 n) - 10000\<bar> \<le> 1 / 2" unfolding c abs_diff_le_iff by simp
  show "0 < snd (denominator_f64 n)" unfolding c by (rule cc(3))
qed

lemma denominator_inexact:
  assumes "0 < n" "\<not> n dvd 10000"
  shows "fst (denominator_f64 n) div snd (denominator_f64 n) = 10000 div n"
proof (rule frac_floor [OF denominator_near(2) [OF assms(1)]])
  let ?q = "10000 div n" and ?v = "frac_val (denominator_f64 n)"
  have "0 < 10000 mod n" "10000 mod n < n" "n * ?q + 10000 mod n = 10000" using assms by (simp_all add: dvd_eq_mod_eq_0)
  then have "n * ?q + 1 \<le> 10000" "10000 + 1 \<le> n * ?q + n" by linarith+
  then have q: "real n * real ?q + 1 \<le> 10000" "10000 + 1 \<le> real n * real ?q + real n"
    by (metis of_nat_1 of_nat_add of_nat_le_iff of_nat_mult of_nat_numeral)+
  have near: "10000 - 1 / 2 \<le> real n * ?v" "real n * ?v \<le> 10000 + 1 / 2"
    using denominator_near(1) [OF assms(1)] unfolding abs_diff_le_iff by simp_all
  have "real n * real ?q < real n * ?v" using q(1) near(1) by linarith
  then show "real ?q \<le> ?v" using assms(1) by simp
  have "real n * ?v < real n * (real ?q + 1)" using q(2) near(2) by (simp add: algebra_simps)
  then show "?v < real ?q + 1" using assms(1) by simp
qed

lemma divisor_of_10000:
  assumes "n dvd (10000 :: nat)"
  shows "n \<in> set [d \<leftarrow> [1..<101]. d dvd 10000] \<or> n \<in> (\<lambda>d. 10000 div d) ` set [d \<leftarrow> [1..<101]. d dvd 10000]"
proof -
  from assms obtain m where m: "10000 = n * m" by (auto simp: dvd_def)
  then have pos: "0 < n" "0 < m" by (auto intro!: Nat.gr0I)
  have "n \<le> 100 \<or> m \<le> 100"
  proof (rule ccontr)
    assume "\<not> (n \<le> 100 \<or> m \<le> 100)"
    then have "101 * 101 \<le> n * m" by (intro mult_le_mono) simp_all
    with m show False by simp
  qed
  moreover have "n = 10000 div m" unfolding m using pos(2) by simp
  moreover have "m dvd 10000" unfolding m by simp
  ultimately show ?thesis using assms pos by (auto simp: less_Suc_eq_le)
qed

lemma small_divisors: "[d \<leftarrow> [1..<101]. d dvd (10000 :: nat)] = [1, 2, 4, 5, 8, 10, 16, 20, 25, 40, 50, 80, 100]"
  by (simp add: dvd_eq_mod_eq_0 upt_rec flip: numeral_2_eq_2)

lemma floor_log2_numerals:
  "floor_log2 (numeral n) = (if numeral n < (2 :: nat) then 0 else Suc (floor_log2 (numeral n div 2)))"
  "floor_log2 (Suc 0) = 0"
  by (rule floor_log2.simps, simp add: floor_log2.simps [of "Suc 0"])

lemma scale2_pair: "scale2 (p, q) k = (if 0 \<le> k then (p * 2 ^ nat k, q) else (p, q * 2 ^ nat (- k)))"
  by (simp add: scale2_def)

lemma f64_round_pair:
  "f64_round (p, q) =
     (let k = 52 - (int (floor_log2 p) - int (floor_log2 q));
          (p1, q1) = scale2 (p, q) k;
          k' = (if p1 < q1 * 2 ^ 52 then k + 1 else k);
          (p', q') = scale2 (p, q) k'
      in scale2 (div_half_even p' q', 1) (- k'))"
  by (simp add: f64_round_def)

lemma f64_op_pair:
  "f64_div (a, b) (c, d) = f64_round (a * d, b * c)" "f64_mult (a, b) (c, d) = f64_round (a * c, b * d)"
  by (simp_all add: f64_div_def f64_mult_def)

lemma denominator_exact_divisors:
  "list_all (\<lambda>n. fst (denominator_f64 n) div snd (denominator_f64 n) = 10000 div n)
     [1, 2, 4, 5, 8, 10, 16, 20, 25, 40, 50, 80, 100, 125, 200, 250, 400, 500, 625, 1000, 1250, 2000, 2500, 5000, 10000]"
  by (simp add: denominator_f64_def f64_op_pair f64_round_pair scale2_pair div_half_even_def floor_log2_numerals)

text \<open>
  C12. For every basis-point value a u64 can hold, the denominator computed in binary64 is the
  integer quotient of 10000 by it (and 0 for 0): none of the three roundings crosses an integer.
\<close>

theorem denominator_is_quotient:
  "unat (calculate_denominator_from_basis_points bp) = 10000 div unat bp"
proof (cases "bp = 0")
  case True
  then show ?thesis by (simp add: calculate_denominator_from_basis_points_def)
next
  case False
  let ?n = "unat bp"
  have n: "0 < ?n" using False by (simp add: unat_gt_0)
  have "fst (denominator_f64 ?n) div snd (denominator_f64 ?n) = 10000 div ?n"
  proof (cases "?n dvd 10000")
    case True
    from divisor_of_10000 [OF True] denominator_exact_divisors show ?thesis
      unfolding small_divisors by (simp del: One_nat_def) (elim disjE; simp)
  qed (rule denominator_inexact [OF n])
  moreover have "min (10000 div ?n) (2 ^ 64 - 1) = 10000 div ?n" "10000 div ?n < 2 ^ 64"
    by (rule min_absorb1, rule order_trans [OF div_le_dividend], simp)
      (rule le_less_trans [OF div_le_dividend], simp)
  ultimately show ?thesis
    using False by (simp add: calculate_denominator_from_basis_points_def denominator_f64_def u64_of_f64_def
        f64_of_u64_def unsigned_of_nat take_bit_nat_eq_self)
qed

end
