(* ===== verification/Rust_Int.thy ===== *)
theory Rust_Int
  imports Prelude
begin

text \<open>
  Arithmetic of Rust. With overflow checks (debug builds) an overflow is a panic,
  without them (release builds) it wraps; the flag \<open>chk\<close> says which build runs.
\<close>

type_synonym i32 = "32 word"

definition u64_add :: "bool \<Rightarrow> u64 \<Rightarrow> u64 \<Rightarrow> (u64, 'e) outcome" where
  "u64_add chk a b = (if chk \<and> a + b < a then Panic else Ok (a + b))"

definition u64_sub :: "bool \<Rightarrow> u64 \<Rightarrow> u64 \<Rightarrow> (u64, 'e) outcome" where
  "u64_sub chk a b = (if chk \<and> a < b then Panic else Ok (a - b))"

text \<open>\<open>n += 1\<close> on an \<open>i32\<close>; \<open>None\<close> is the panic.\<close>

definition i32_succ :: "bool \<Rightarrow> i32 \<Rightarrow> i32 option" where
  "i32_succ chk n = (if chk \<and> sint n = 2 ^ 31 - 1 then None else Some (n + 1))"

text \<open>\<open>iter().sum()\<close>\<close>

fun u64_sum :: "bool \<Rightarrow> u64 list \<Rightarrow> (u64, 'e) outcome" where
  "u64_sum chk [] = Ok 0"
| "u64_sum chk (x # xs) = outcome_bind (u64_sum chk xs) (\<lambda>s. u64_add chk x s)"

lemma no_carry: "\<not> a + b < (a :: 'a::len word) \<longleftrightarrow> unat (a + b) = unat a + unat b"
proof (cases "unat a + unat b < 2 ^ LENGTH('a)")
  case True
  then have "unat (a + b) = unat a + unat b" by (rule unat_add_lem [THEN iffD1])
  then show ?thesis by (simp add: word_less_nat_alt)
next
  case False
  have b: "unat b < 2 ^ LENGTH('a)" by (rule unsigned_less)
  from False have "unat (a + b) = unat a + unat b - 2 ^ LENGTH('a)" by (simp add: unat_plus_if')
  with False b have "unat (a + b) < unat a" by linarith
  moreover have "unat a \<le> unat a + unat b" by simp
  ultimately show ?thesis by (simp add: word_less_nat_alt)
qed

lemma u64_add_nat:
  assumes "unat a + unat b < 2 ^ 64"
  shows "u64_add chk a b = Ok (a + b)" "unat (a + b) = unat a + unat b"
proof -
  show *: "unat (a + b) = unat a + unat b" using assms by (intro unat_add_lem [THEN iffD1]) simp
  show "u64_add chk a b = Ok (a + b)" using no_carry [of a b] * by (simp add: u64_add_def)
qed

lemma u64_add_checked: "u64_add True a b = Ok c \<Longrightarrow> c = a + b \<and> unat c = unat a + unat b"
  using no_carry [of a b] by (auto simp: u64_add_def split: if_splits)

lemma u64_sub_nat: "b \<le> a \<Longrightarrow> u64_sub chk a b = Ok (a - b)"
  by (simp add: u64_sub_def not_less)

lemma u64_sum_nat:
  "sum_list (map unat xs) < 2 ^ 64 \<Longrightarrow> u64_sum chk xs = (Ok (sum_list xs) :: (u64, 'e) outcome) \<and> unat (sum_list xs) = sum_list (map unat xs)"
proof (induction xs)
  case (Cons x xs)
  then have tail: "u64_sum chk xs = (Ok (sum_list xs) :: (u64, 'e) outcome)" "unat (sum_list xs) = sum_list (map unat xs)" by auto
  then have "unat x + unat (sum_list xs) < 2 ^ 64" using Cons.prems by simp
  from u64_add_nat [OF this] tail show ?case by simp
qed simp

lemma u64_sum_checked:
  "u64_sum True xs = (Ok s :: (u64, 'e) outcome) \<Longrightarrow> unat s = sum_list (map unat xs)"
proof (induction xs arbitrary: s)
  case (Cons x xs)
  then obtain t where t: "u64_sum True xs = (Ok t :: (u64, 'e) outcome)" "u64_add True x t = (Ok s :: (u64, 'e) outcome)"
    by auto
  have "unat s = unat x + unat t" using u64_add_checked [OF t(2)] by blast
  with Cons.IH [OF t(1)] show ?case by simp
qed simp

end
