(* ===== verification/Payout.thy ===== *)
theory Payout
  imports Dlc_Types Rust_Int Complex_Main
begin

text \<open>
  \<open>wallet/src/utils.rs\<close>: the numerical contract of an offer. The curve has two straight pieces,
  from nothing at outcome 0 to the whole collateral at \<open>total_outcomes\<close>, and level from there to
  the largest outcome of 14 binary digits. The constructors of rust-dlc that check a piece and
  a curve are parameters.
\<close>

record PayoutPoint =
  pp_event_outcome :: u64
  pp_outcome_payout :: u64
  pp_extra_precision :: u16

type_synonym payout_piece = "PayoutPoint list"

record payout_ext =
  px_new_piece :: "PayoutPoint list \<Rightarrow> (payout_piece, dlc_error) outcome"
  px_new_function :: "payout_piece list \<Rightarrow> (payout_piece list, dlc_error) outcome"

record numerical_descriptor =
  nd_payout_function :: "payout_piece list"
  nd_rounding_intervals :: "(u64 \<times> u64) list"
  nd_base :: nat
  nd_nb_digits :: "nat list"

definition NB_DIGITS :: nat where
  "NB_DIGITS = 14"

definition BASE :: nat where
  "BASE = 2"

definition max_value :: u32 where
  "max_value = 2 ^ NB_DIGITS - 1"

definition get_polynomial_payout_curve_pieces ::
  "bool \<Rightarrow> payout_ext \<Rightarrow> u64 \<Rightarrow> u64 \<Rightarrow> u64 \<Rightarrow> (payout_piece list, dlc_error) outcome" where
  "get_polynomial_payout_curve_pieces chk x accept_collateral offer_collateral total_outcomes =
     outcome_bind (u64_add chk accept_collateral offer_collateral) (\<lambda>total_collateral.
     outcome_bind (px_new_piece x
       [\<lparr>pp_event_outcome = 0, pp_outcome_payout = 0, pp_extra_precision = 0\<rparr>,
        \<lparr>pp_event_outcome = total_outcomes, pp_outcome_payout = total_collateral, pp_extra_precision = 0\<rparr>]) (\<lambda>first.
     outcome_bind (px_new_piece x
       [\<lparr>pp_event_outcome = total_outcomes, pp_outcome_payout = total_collateral, pp_extra_precision = 0\<rparr>,
        \<lparr>pp_event_outcome = ucast max_value, pp_outcome_payout = total_collateral, pp_extra_precision = 0\<rparr>]) (\<lambda>second.
     Ok [first, second])))"

definition get_numerical_contract_descriptor ::
  "bool \<Rightarrow> payout_ext \<Rightarrow> u64 \<Rightarrow> u64 \<Rightarrow> u64 \<Rightarrow> nat \<Rightarrow> (numerical_descriptor, dlc_error) outcome" where
  "get_numerical_contract_descriptor chk x accept_collateral offer_collateral total_outcomes nb_attestors =
     outcome_bind (get_polynomial_payout_curve_pieces chk x accept_collateral offer_collateral total_outcomes) (\<lambda>pieces.
     outcome_bind (px_new_function x pieces) (\<lambda>payout_function.
     Ok \<lparr>nd_payout_function = payout_function, nd_rounding_intervals = [(0, 1)], nd_base = BASE,
         nd_nb_digits = replicate nb_attestors NB_DIGITS\<rparr>))"

definition get_numerical_contract_info ::
  "bool \<Rightarrow> payout_ext \<Rightarrow> u64 \<Rightarrow> u64 \<Rightarrow> u64 \<Rightarrow> nat \<Rightarrow> (event_descriptor \<times> numerical_descriptor, dlc_error) outcome" where
  "get_numerical_contract_info chk x accept_collateral offer_collateral total_outcomes nb_attestors =
     outcome_bind (get_numerical_contract_descriptor chk x accept_collateral offer_collateral total_outcomes nb_attestors)
       (\<lambda>descriptor.
     Ok (DigitDecompositionEvent \<lparr>dd_base = of_nat BASE, dd_is_signed = False, dd_unit = ''btc/usd'',
           dd_precision = 1, dd_nb_digits = of_nat NB_DIGITS\<rparr>, descriptor))"

section \<open>The curve\<close>

text \<open>The documented checks: a piece has at least two points in increasing outcomes, a curve its pieces.\<close>

definition payout_ext_ok :: "payout_ext \<Rightarrow> bool" where
  "payout_ext_ok x \<longleftrightarrow>
     (\<forall>ps p. px_new_piece x ps = Ok p \<longrightarrow> p = ps \<and> 2 \<le> length ps \<and> sorted_wrt (<) (map (unat \<circ> pp_event_outcome) ps)) \<and>
     (\<forall>ps p. px_new_function x ps = Ok p \<longrightarrow> p = ps)"

text \<open>The payout of an outcome: the line through the two points of the piece that holds it.\<close>

fun line_at :: "payout_piece \<Rightarrow> real \<Rightarrow> real" where
  "line_at [a, b] o' =
     (let x0 = real (unat (pp_event_outcome a)); x1 = real (unat (pp_event_outcome b));
          y0 = real (unat (pp_outcome_payout a)); y1 = real (unat (pp_outcome_payout b))
      in y0 + (y1 - y0) * (o' - x0) / (x1 - x0))"
| "line_at _ _ = 0"

fun payout_at :: "payout_piece list \<Rightarrow> nat \<Rightarrow> real" where
  "payout_at [] n = 0"
| "payout_at (p # ps) n =
     (if p \<noteq> [] \<and> unat (pp_event_outcome (hd p)) \<le> n \<and> n \<le> unat (pp_event_outcome (last p))
      then line_at p (real n) else payout_at ps n)"

lemma max_value_nat: "unat (ucast max_value :: u64) = 16383"
  by (simp add: max_value_def NB_DIGITS_def)

lemma min_share:
  assumes "0 < m"
  shows "n \<le> m \<Longrightarrow> min 1 (real n / real m) = real n / real m" "m \<le> n \<Longrightarrow> min 1 (real n / real m) = 1"
  using assms by (simp_all add: min_def field_simps)

text \<open>
  C24. A numerical contract that is built pays, for every outcome of 14 digits, the share
  outcome / total_outcomes of the whole collateral, capped at the whole: nothing at 0, monotone,
  never more than both collaterals together; and total_outcomes is then between 1 and 16382, with
  14 digits for each attestor.
\<close>

theorem payout_curve_share:
  assumes "payout_ext_ok x" "get_numerical_contract_info chk x a f t k = Ok (ev, d)"
    and "unat a + unat f < 2 ^ 64"
  shows "0 < unat t \<and> unat t < 16383 \<and> nd_nb_digits d = replicate k 14 \<and>
    (\<forall>n \<le> 16383. payout_at (nd_payout_function d) n
       = real (unat a + unat f) * min 1 (real n / real (unat t)))"
proof -
  let ?p = "\<lambda>o' y. \<lparr>pp_event_outcome = o', pp_outcome_payout = y, pp_extra_precision = 0\<rparr>"
  note sum = u64_add_nat [OF assms(3)]
  obtain p1 p2 fn where p: "px_new_piece x [?p 0 0, ?p t (a + f)] = Ok p1"
    "px_new_piece x [?p t (a + f), ?p (ucast max_value) (a + f)] = Ok p2"
    and fn: "px_new_function x [p1, p2] = Ok fn" "nd_payout_function d = fn" "nd_nb_digits d = replicate k 14"
    using assms(2)
    by (auto simp: sum(1) get_numerical_contract_info_def get_numerical_contract_descriptor_def
        get_polynomial_payout_curve_pieces_def NB_DIGITS_def)
  have p1: "p1 = [?p 0 0, ?p t (a + f)]" "0 < unat t" and p2: "p2 = [?p t (a + f), ?p (ucast max_value) (a + f)]" "unat t < 16383"
    using assms(1) p max_value_nat by (force simp: payout_ext_ok_def)+
  have "fn = [p1, p2]" using assms(1) fn(1) by (simp add: payout_ext_ok_def)
  moreover have "payout_at [p1, p2] n = real (unat a + unat f) * min 1 (real n / real (unat t))" if "n \<le> 16383" for n
  proof (cases "n \<le> unat t")
    case True
    from min_share(1) [OF p1(2) True] True show ?thesis by (simp add: p1 sum(2))
  next
    case False
    then have "min 1 (real n / real (unat t)) = 1" by (intro min_share(2) p1(2)) simp
    with False that p2(2) show ?thesis by (simp add: p1 p2 sum(2) max_value_nat)
  qed
  ultimately show ?thesis using p1(2) p2(2) fn by simp
qed

definition demo_payout :: payout_ext where
  "demo_payout = \<lparr>px_new_piece = (\<lambda>ps. if 2 \<le> length ps \<and> sorted_wrt (<) (map (unat \<circ> pp_event_outcome) ps)
       then Ok ps else Err (InvalidParameters ''points'')), px_new_function = Ok\<rparr>"

theorem payout_curve_share_witness:
  "\<exists>ev d. get_numerical_contract_info True demo_payout 100 300 100 3 = Ok (ev, d)
     \<and> payout_at (nd_payout_function d) 25 = 100 \<and> payout_at (nd_payout_function d) 9000 = 400"
proof -
  have x: "payout_ext_ok demo_payout" by (simp add: payout_ext_ok_def demo_payout_def)
  obtain ev d where run: "get_numerical_contract_info True demo_payout 100 300 100 3 = Ok (ev, d)"
    by (simp add: get_numerical_contract_info_def get_numerical_contract_descriptor_def demo_payout_def
        get_polynomial_payout_curve_pieces_def u64_add_def max_value_def NB_DIGITS_def)
  from payout_curve_share [OF x run] run show ?thesis by (auto simp: min_def)
qed

end
