(* ===== verification/Dlc_Manager.thy ===== *)
theory Dlc_Manager
  imports Contract_Store Http Denominator Payout
begin

text \<open>
  \<open>dlc-link-manager/src/lib.rs\<close>: the manager that creates DLCs and moves them through their
  life. It works against a store (\<open>async_storage\<close>), oracles, a blockchain, a wallet and the
  contract updater of rust-dlc, all of them fields of records over a world \<open>'w\<close>: the store is
  the interface of \<open>Contract_Store\<close>, the other ones are code outside the repository or other
  components of it. Logging is left out.
\<close>

section \<open>What the manager works with\<close>

record 'w async_oracle =
  or_get_announcement :: "string \<Rightarrow> ('w, announcement, dlc_error) io"
  or_get_attestation :: "string \<Rightarrow> ('w, attestation, dlc_error) io"

record 'w async_blockchain =
  bc_confirmations :: "bytes \<Rightarrow> ('w, u32, dlc_error) io"
  bc_send_transaction :: "transaction \<Rightarrow> ('w, unit, dlc_error) io"
  bc_get_network :: "('w, string, dlc_error) io"

record oracle_input =
  oi_public_keys :: "bytes list"
  oi_event_id :: string
  oi_threshold :: u16

datatype contract_descriptor = EnumDescriptor bytes | Numerical numerical_descriptor

record contract_input_info =
  cii_oracles :: oracle_input
  cii_contract_descriptor :: contract_descriptor

record contract_input =
  cin_offer_collateral :: u64
  cin_accept_collateral :: u64
  cin_fee_rate :: u64
  cin_contract_infos :: "contract_input_info list"

text \<open>
  The functions of rust-dlc the manager calls. Those that draw on the wallet or the chain are
  effectful. The two \<open>debug\<close> fields are the \<open>Debug\<close> texts of the library's types.
\<close>

record 'w contract_updater =
  cu_validate_input :: "contract_input \<Rightarrow> (unit, dlc_error) outcome"
  cu_validate_offered :: "offered_contract \<Rightarrow> (unit, dlc_error) outcome"
  cu_validate_offer :: "offer_dlc \<Rightarrow> u32 \<Rightarrow> u32 \<Rightarrow> (unit, dlc_error) outcome"
  cu_try_from_offer_dlc :: "offer_dlc \<Rightarrow> bytes \<Rightarrow> (offered_contract, dlc_error) outcome"
  cu_offer_contract :: "contract_input \<Rightarrow> announcement list list \<Rightarrow> u32 \<Rightarrow> bytes \<Rightarrow> u64 \<Rightarrow> bytes \<Rightarrow>
    ('w, offered_contract \<times> offer_dlc, dlc_error) io"
  cu_accept_contract :: "offered_contract \<Rightarrow> ('w, accepted_contract \<times> accept_dlc, dlc_error) io"
  cu_verify_accepted_and_sign :: "offered_contract \<Rightarrow> accept_dlc \<Rightarrow> ('w, signed_contract \<times> sign_dlc, dlc_error) io"
  cu_verify_signed :: "accepted_contract \<Rightarrow> sign_dlc \<Rightarrow> ('w, signed_contract \<times> transaction, dlc_error) io"
  cu_get_signed_cet :: "signed_contract \<Rightarrow> contract_info \<Rightarrow> bytes \<Rightarrow> (nat \<times> attestation) list \<Rightarrow>
    ('w, transaction, dlc_error) io"
  cu_get_signed_refund :: "signed_contract \<Rightarrow> ('w, transaction, dlc_error) io"
  cu_debug_peer :: "bytes option \<Rightarrow> bytes \<Rightarrow> string"
  cu_debug_contract :: "dlc_contract \<Rightarrow> string"

record 'w Manager =
  mg_oracles :: "(bytes \<rightharpoonup> 'w async_oracle) option"
  mg_store :: "'w async_storage"
  mg_blockchain :: "'w async_blockchain"
  mg_import_address :: "bytes \<Rightarrow> string \<Rightarrow> ('w, unit, dlc_error) io"
  mg_updater :: "'w contract_updater"
  mg_http_get_json :: "string \<Rightarrow> ('w, json, string) io"

definition NB_CONFIRMATIONS :: u32 where
  "NB_CONFIRMATIONS = 6"

definition FIFTY_YEARS :: u32 where
  "FIFTY_YEARS = 86400 * 365 * 50"

section \<open>Reading a contract in a state\<close>

text \<open>The macros \<open>get_contract_in_state!\<close> and \<open>get_object_in_state!\<close>.\<close>

definition get_contract_in_state ::
  "dlc_ext \<Rightarrow> 'w Manager \<Rightarrow> bytes \<Rightarrow> string \<Rightarrow> (dlc_contract \<Rightarrow> 'a option) \<Rightarrow> bytes option \<Rightarrow> ('w, 'a, dlc_error) io" where
  "get_contract_in_state D M i state sel peer_id =
     and_then (as_get_contract (mg_store M) i) (\<lambda>object.
     case object of
       Some c \<Rightarrow>
         (if (case peer_id of Some p \<Rightarrow> get_counter_party_id D c \<noteq> p | None \<Rightarrow> False) then
            throw (InvalidParameters (cu_debug_peer (mg_updater M) peer_id i))
          else (case sel c of
            Some s \<Rightarrow> ret s
          | None \<Rightarrow> throw (InvalidState (''Invalid state '' @ cu_debug_contract (mg_updater M) c
              @ '' expected '' @ state @ ''.''))))
     | None \<Rightarrow> throw (InvalidParameters ''Unknown Contract id.''))"

fun as_offered :: "dlc_contract \<Rightarrow> offered_contract option" where
  "as_offered (Offered c) = Some c"
| "as_offered _ = None"

fun as_accepted :: "dlc_contract \<Rightarrow> accepted_contract option" where
  "as_accepted (Accepted c) = Some c"
| "as_accepted _ = None"

section \<open>Offers\<close>

definition find_oracles ::
  "(bytes \<rightharpoonup> 'w async_oracle) \<Rightarrow> contract_input_info \<Rightarrow> ('w async_oracle list, dlc_error) outcome" where
  "find_oracles oracles x =
     outcome_collect (\<lambda>pubkey. ok_or (oracles pubkey) (InvalidParameters ''Unknown oracle public key''))
       (oi_public_keys (cii_oracles x))"

definition send_offer ::
  "'w Manager \<Rightarrow> contract_input \<Rightarrow> bytes \<Rightarrow> u32 \<Rightarrow> u64 \<Rightarrow> bytes \<Rightarrow> ('w, offer_dlc, dlc_error) io" where
  "send_offer M contract_input counter_party refund_delay basis_points fee_address =
     (case mg_oracles M of
        None \<Rightarrow> throw (InvalidParameters
          ''Manager instantiated without oracles, send_offer function not supported'')
      | Some manager_oracles \<Rightarrow>
          and_then (of_outcome (cu_validate_input (mg_updater M) contract_input)) (\<lambda>_.
          and_then (of_outcome (ok_or (case cin_contract_infos contract_input of
              [] \<Rightarrow> None | info # _ \<Rightarrow> Some (oi_event_id (cii_oracles info)))
            (InvalidParameters ''Contract Input Info missing''))) (\<lambda>event_id.
          and_then (of_outcome (outcome_collect (find_oracles manager_oracles)
            (cin_contract_infos contract_input))) (\<lambda>oracle_set.
          and_then (map_io (map_io (\<lambda>oracle. or_get_announcement oracle event_id)) oracle_set) (\<lambda>oracle_announcements.
          and_then (cu_offer_contract (mg_updater M) contract_input oracle_announcements refund_delay
            counter_party (calculate_denominator_from_basis_points basis_points) fee_address) (\<lambda>(offered_contract, offer_msg).
          and_then (of_outcome (cu_validate_offered (mg_updater M) offered_contract)) (\<lambda>_.
          and_then (as_create_contract (mg_store M) offered_contract) (\<lambda>_.
          ret offer_msg))))))))"

definition on_offer_message :: "'w Manager \<Rightarrow> offer_dlc \<Rightarrow> bytes \<Rightarrow> ('w, unit, dlc_error) io" where
  "on_offer_message M offered_message counter_party =
     and_then (of_outcome (cu_validate_offer (mg_updater M) offered_message 0 FIFTY_YEARS)) (\<lambda>_.
     and_then (of_outcome (cu_try_from_offer_dlc (mg_updater M) offered_message counter_party)) (\<lambda>contract.
     and_then (of_outcome (cu_validate_offered (mg_updater M) contract)) (\<lambda>_.
     and_then (as_get_contract (mg_store M) (oc_id contract)) (\<lambda>found.
     if found \<noteq> None then throw (InvalidParameters ''Contract with identical id already exists'')
     else and_then (as_create_contract (mg_store M) contract) (\<lambda>_. ret ())))))"

section \<open>Accepting and signing\<close>

definition import_funding_address :: "'w Manager \<Rightarrow> accepted_contract \<Rightarrow> ('w, unit, dlc_error) io" where
  "import_funding_address M accepted_contract =
     and_then (bc_get_network (mg_blockchain M)) (\<lambda>network.
     mg_import_address M (ac_funding_script_pubkey accepted_contract) network)"

definition accept_contract_offer ::
  "dlc_ext \<Rightarrow> 'w Manager \<Rightarrow> bytes \<Rightarrow> ('w, bytes \<times> bytes \<times> accept_dlc, dlc_error) io" where
  "accept_contract_offer D M contract_id =
     and_then (get_contract_in_state D M contract_id ''Offered'' as_offered None) (\<lambda>offered_contract.
     and_then (cu_accept_contract (mg_updater M) offered_contract) (\<lambda>(accepted_contract, accept_msg).
     and_then (import_funding_address M accepted_contract) (\<lambda>_.
     and_then (as_update_contract (mg_store M) (Accepted accepted_contract)) (\<lambda>_.
     ret (accepted_id D accepted_contract, oc_counter_party offered_contract, accept_msg)))))"

definition accept_fail_on_error ::
  "dlc_ext \<Rightarrow> 'w Manager \<Rightarrow> offered_contract \<Rightarrow> accept_dlc \<Rightarrow> dlc_error \<Rightarrow> ('w, 'r, dlc_error) io" where
  "accept_fail_on_error D M offered_contract accept_message e =
     and_then (as_update_contract (mg_store M) (FailedAccept
       \<lparr>fa_offered_contract = offered_contract, fa_accept_message = accept_message,
        fa_error_message = dlc_error_text D e\<rparr>)) (\<lambda>_. throw e)"

definition on_accept_message ::
  "dlc_ext \<Rightarrow> 'w Manager \<Rightarrow> accept_dlc \<Rightarrow> bytes \<Rightarrow> ('w, dlc_message, dlc_error) io" where
  "on_accept_message D M accept_msg counter_party =
     and_then (get_contract_in_state D M (ad_temporary_contract_id accept_msg) ''Offered'' as_offered
       (Some counter_party)) (\<lambda>offered_contract.
     handle (cu_verify_accepted_and_sign (mg_updater M) offered_contract accept_msg)
       (\<lambda>(signed_contract, signed_msg).
          and_then (import_funding_address M (sc_accepted_contract signed_contract)) (\<lambda>_.
          and_then (as_update_contract (mg_store M) (Signed signed_contract)) (\<lambda>_.
          ret (SignMsg signed_msg))))
       (\<lambda>e. accept_fail_on_error D M offered_contract accept_msg e))"

definition sign_fail_on_error ::
  "dlc_ext \<Rightarrow> 'w Manager \<Rightarrow> accepted_contract \<Rightarrow> sign_dlc \<Rightarrow> dlc_error \<Rightarrow> ('w, 'r, dlc_error) io" where
  "sign_fail_on_error D M accepted_contract sign_message e =
     and_then (as_update_contract (mg_store M) (FailedSign
       \<lparr>fs_accepted_contract = accepted_contract, fs_sign_message = sign_message,
        fs_error_message = dlc_error_text D e\<rparr>)) (\<lambda>_. throw e)"

definition on_sign_message :: "dlc_ext \<Rightarrow> 'w Manager \<Rightarrow> sign_dlc \<Rightarrow> bytes \<Rightarrow> ('w, unit, dlc_error) io" where
  "on_sign_message D M sign_message peer_id =
     and_then (get_contract_in_state D M (sd_contract_id sign_message) ''Accepted'' as_accepted
       (Some peer_id)) (\<lambda>accepted_contract.
     handle (cu_verify_signed (mg_updater M) accepted_contract sign_message)
       (\<lambda>(signed_contract, fund_tx).
          and_then (as_update_contract (mg_store M) (Signed signed_contract)) (\<lambda>_.
          and_then (bc_send_transaction (mg_blockchain M) fund_tx) (\<lambda>_. ret ())))
       (\<lambda>e. sign_fail_on_error D M accepted_contract sign_message e))"

fun on_dlc_message ::
  "dlc_ext \<Rightarrow> 'w Manager \<Rightarrow> dlc_message \<Rightarrow> bytes \<Rightarrow> ('w, dlc_message option, dlc_error) io" where
  "on_dlc_message D M (OfferMsg o') counter_party =
     and_then (on_offer_message M o' counter_party) (\<lambda>_. ret None)"
| "on_dlc_message D M (AcceptMsg a) counter_party =
     and_then (on_accept_message D M a counter_party) (\<lambda>m. ret (Some m))"
| "on_dlc_message D M (SignMsg s) counter_party =
     and_then (on_sign_message D M s counter_party) (\<lambda>_. ret None)"
| "on_dlc_message D M (OtherMsg _) counter_party = throw (InvalidState ''Invalid message type.'')"

end
