(* ===== verification/Dlc_Checks.thy ===== *)
theory Dlc_Checks
  imports Dlc_Manager
begin

text \<open>
  The periodic part of \<open>dlc-link-manager/src/lib.rs\<close>: signed contracts are confirmed, confirmed
  ones closed with the oracles' attestations or refunded, pre-closed ones closed.
\<close>

section \<open>Signed contracts\<close>

definition check_signed_contract :: "dlc_ext \<Rightarrow> 'w Manager \<Rightarrow> signed_contract \<Rightarrow> ('w, bool, dlc_error) io" where
  "check_signed_contract D M contract =
     and_then (bc_confirmations (mg_blockchain M) (txid D (ac_fund (sc_accepted_contract contract)))) (\<lambda>confirmations.
     if NB_CONFIRMATIONS \<le> confirmations then
       and_then (as_update_contract (mg_store M) (Confirmed contract)) (\<lambda>_. ret True)
     else ret False)"

text \<open>The id of the oracle event of a contract, for the caller's notification.\<close>

definition oracle_event_id :: "accepted_contract \<Rightarrow> (string, dlc_error) outcome" where
  "oracle_event_id ac =
     ok_or (case oc_contract_info (ac_offered_contract ac) of
         [] \<Rightarrow> None
       | info # _ \<Rightarrow> (case ci_oracle_announcements info of
           [] \<Rightarrow> None
         | announcement # _ \<Rightarrow> Some (oe_event_id (ann_oracle_event announcement))))
       (InvalidState ''Missing oracle event ID'')"

text \<open>
  The loop all three checks share: \<open>skip\<close> is the guard of a \<open>continue\<close>, an error of the check
  of one contract is logged and the loop goes on, a missing event id ends it.
\<close>

fun check_loop ::
  "dlc_ext \<Rightarrow> ('c \<Rightarrow> bool) \<Rightarrow> ('c \<Rightarrow> accepted_contract) \<Rightarrow> ('c \<Rightarrow> ('w, bool, dlc_error) io) \<Rightarrow> 'c list \<Rightarrow>
     ('w, (bytes \<times> string) list, dlc_error) io" where
  "check_loop D skip accepted_of check [] = ret []"
| "check_loop D skip accepted_of check (c # cs) =
     (if skip c then check_loop D skip accepted_of check cs
      else handle (check c)
        (\<lambda>moved. if moved then
             and_then (of_outcome (oracle_event_id (accepted_of c))) (\<lambda>event_id.
             and_then (check_loop D skip accepted_of check cs) (\<lambda>rest.
             ret ((accepted_id D (accepted_of c), event_id) # rest)))
           else check_loop D skip accepted_of check cs)
        (\<lambda>_. check_loop D skip accepted_of check cs))"

definition check_signed_contracts ::
  "dlc_ext \<Rightarrow> 'w Manager \<Rightarrow> ('w, (bytes \<times> string) list, dlc_error) io" where
  "check_signed_contracts D M =
     and_then (as_get_signed_contracts (mg_store M)) (\<lambda>cs.
     check_loop D (\<lambda>_. False) sc_accepted_contract (check_signed_contract D M) cs)"

section \<open>Closing\<close>

text \<open>
  One future per announcement, joined; the ones that fail are dropped. The futures are modelled
  in the order of the list.
\<close>

definition attest_one ::
  "dlc_ext \<Rightarrow> (bytes \<rightharpoonup> 'w async_oracle) \<Rightarrow> nat \<times> announcement \<Rightarrow> ('w, nat \<times> attestation, dlc_error) io" where
  "attest_one D manager_oracles ia =
     (case manager_oracles (ann_oracle_public_key (snd ia)) of
        None \<Rightarrow> throw (InvalidParameters ''Unknown oracle public key'')
      | Some oracle \<Rightarrow>
          and_then (map_err (\<lambda>err. OracleError (dlc_error_text D err))
            (or_get_attestation oracle (oe_event_id (ann_oracle_event (snd ia))))) (\<lambda>attestation.
          ret (fst ia, attestation)))"

fun join_ok :: "('a \<Rightarrow> ('w, 'b, 'e) io) \<Rightarrow> 'a list \<Rightarrow> ('w, 'b list, 'e) io" where
  "join_ok f [] = ret []"
| "join_ok f (x # xs) = handle (f x)
     (\<lambda>y. and_then (join_ok f xs) (\<lambda>ys. ret (y # ys)))
     (\<lambda>_. join_ok f xs)"

fun closable_loop ::
  "dlc_ext \<Rightarrow> (bytes \<rightharpoonup> 'w async_oracle) \<Rightarrow> (contract_info \<times> bytes) list \<Rightarrow>
     ('w, (contract_info \<times> bytes \<times> (nat \<times> attestation) list) option, dlc_error) io" where
  "closable_loop D oracles [] = ret None"
| "closable_loop D oracles ((contract_info, adaptor_info) # rest) =
     (let announcements = List.enumerate 0 (ci_oracle_announcements contract_info)
      in if ci_threshold contract_info \<le> length announcements then
           and_then (join_ok (attest_one D oracles) announcements) (\<lambda>attestations.
           if ci_threshold contract_info \<le> length attestations
           then ret (Some (contract_info, adaptor_info, attestations))
           else closable_loop D oracles rest)
         else closable_loop D oracles rest)"

definition get_closable_contract_info ::
  "dlc_ext \<Rightarrow> 'w Manager \<Rightarrow> signed_contract \<Rightarrow>
     ('w, (contract_info \<times> bytes \<times> (nat \<times> attestation) list) option, dlc_error) io" where
  "get_closable_contract_info D M contract =
     (case mg_oracles M of
        None \<Rightarrow> throw (InvalidParameters
          ''Manager instantiated without oracles, get_closable_contract_info function not supported'')
      | Some manager_oracles \<Rightarrow>
          closable_loop D manager_oracles
            (zip (oc_contract_info (ac_offered_contract (sc_accepted_contract contract)))
               (ac_adaptor_infos (sc_accepted_contract contract))))"

definition close_contract ::
  "dlc_ext \<Rightarrow> 'w Manager \<Rightarrow> signed_contract \<Rightarrow> transaction \<Rightarrow> attestation list \<Rightarrow> ('w, dlc_contract, dlc_error) io" where
  "close_contract D M contract signed_cet attestations =
     and_then (bc_confirmations (mg_blockchain M) (txid D signed_cet)) (\<lambda>confirmations.
     let preclosed = PreClosed \<lparr>pc_signed_contract = contract, pc_attestations = Some attestations,
           pc_signed_cet = signed_cet\<rparr>
     in if confirmations < 1 then
          and_then (bc_send_transaction (mg_blockchain M) signed_cet) (\<lambda>_. ret preclosed)
        else if confirmations < NB_CONFIRMATIONS then ret preclosed
        else ret (Closed
          \<lparr>cl_attestations = Some attestations, cl_signed_cet = Some signed_cet,
           cl_contract_id = accepted_id D (sc_accepted_contract contract),
           cl_temporary_contract_id = oc_id (ac_offered_contract (sc_accepted_contract contract)),
           cl_counter_party_id = oc_counter_party (ac_offered_contract (sc_accepted_contract contract)),
           cl_pnl = compute_pnl D (sc_accepted_contract contract) signed_cet\<rparr>))"

section \<open>Refunds\<close>

definition get_json :: "'w Manager \<Rightarrow> string \<Rightarrow> ('w, json, dlc_error) io" where
  "get_json M path = map_err WalletError (mg_http_get_json M path)"

definition get_unixtime :: "dlc_ext \<Rightarrow> 'w Manager \<Rightarrow> ('w, u64, dlc_error) io" where
  "get_unixtime D M =
     handle (get_json M ''https://worldtimeapi.org/api/timezone/Etc/UTC'')
       (\<lambda>v. case as_u64 (json_index v ''unixtime'') of
          None \<Rightarrow> throw (WalletError ''unable to get unixtime'')
        | Some s \<Rightarrow> ret (word_of_int s))
       (\<lambda>e. throw (WalletError (''Error getting unixtime: '' @ dlc_error_text D e)))"

definition check_refund :: "dlc_ext \<Rightarrow> 'w Manager \<Rightarrow> signed_contract \<Rightarrow> ('w, unit, dlc_error) io" where
  "check_refund D M contract =
     and_then (get_unixtime D M) (\<lambda>unixtime.
     let refund = ac_refund (sc_accepted_contract contract)
     in if (ucast (tx_lock_time refund) :: u64) \<le> unixtime then
          and_then (bc_confirmations (mg_blockchain M) (txid D refund)) (\<lambda>confirmations.
          and_then (if confirmations = 0 then
              and_then (cu_get_signed_refund (mg_updater M) contract) (\<lambda>signed_refund.
              bc_send_transaction (mg_blockchain M) signed_refund)
            else ret ()) (\<lambda>_.
          as_update_contract (mg_store M) (Refunded contract)))
        else ret ())"

section \<open>Confirmed and pre-closed contracts\<close>

definition check_confirmed_contract :: "dlc_ext \<Rightarrow> 'w Manager \<Rightarrow> signed_contract \<Rightarrow> ('w, bool, dlc_error) io" where
  "check_confirmed_contract D M contract =
     handle (get_closable_contract_info D M contract)
       (\<lambda>closable. case closable of
          Some (contract_info, adaptor_info, attestations) \<Rightarrow>
            and_then (cu_get_signed_cet (mg_updater M) contract contract_info adaptor_info attestations) (\<lambda>cet.
            and_then (close_contract D M contract cet (map snd attestations)) (\<lambda>closed_contract.
            and_then (as_update_contract (mg_store M) closed_contract) (\<lambda>_. ret True)))
        | None \<Rightarrow> and_then (check_refund D M contract) (\<lambda>_. ret False))
       (\<lambda>_. and_then (check_refund D M contract) (\<lambda>_. ret False))"

definition check_confirmed_contracts ::
  "dlc_ext \<Rightarrow> 'w Manager \<Rightarrow> ('w, (bytes \<times> string) list, dlc_error) io" where
  "check_confirmed_contracts D M =
     and_then (as_get_confirmed_contracts (mg_store M)) (\<lambda>cs.
     check_loop D (\<lambda>c. sc_channel_id c \<noteq> None) sc_accepted_contract (check_confirmed_contract D M) cs)"

definition check_preclosed_contract :: "dlc_ext \<Rightarrow> 'w Manager \<Rightarrow> preclosed_contract \<Rightarrow> ('w, bool, dlc_error) io" where
  "check_preclosed_contract D M contract =
     and_then (bc_confirmations (mg_blockchain M) (txid D (pc_signed_cet contract))) (\<lambda>confirmations.
     if NB_CONFIRMATIONS \<le> confirmations then
       (let accepted = sc_accepted_contract (pc_signed_contract contract)
        in and_then (as_update_contract (mg_store M) (Closed
          \<lparr>cl_attestations = pc_attestations contract, cl_signed_cet = Some (pc_signed_cet contract),
           cl_contract_id = accepted_id D accepted,
           cl_temporary_contract_id = oc_id (ac_offered_contract accepted),
           cl_counter_party_id = oc_counter_party (ac_offered_contract accepted),
           cl_pnl = compute_pnl D accepted (pc_signed_cet contract)\<rparr>)) (\<lambda>_. ret True))
     else ret False)"

definition check_preclosed_contracts ::
  "dlc_ext \<Rightarrow> 'w Manager \<Rightarrow> ('w, (bytes \<times> string) list, dlc_error) io" where
  "check_preclosed_contracts D M =
     and_then (as_get_preclosed_contracts (mg_store M)) (\<lambda>cs.
     check_loop D (\<lambda>_. False) (sc_accepted_contract \<circ> pc_signed_contract) (check_preclosed_contract D M) cs)"

definition periodic_check :: "dlc_ext \<Rightarrow> 'w Manager \<Rightarrow> ('w, (bytes \<times> string) list, dlc_error) io" where
  "periodic_check D M =
     and_then (check_signed_contracts D M) (\<lambda>signed.
     and_then (check_confirmed_contracts D M) (\<lambda>confirmed.
     and_then (check_preclosed_contracts D M) (\<lambda>preclosed.
     ret (signed @ confirmed @ preclosed))))"

end
