(* ===== verification/Dlc_Steps.thy ===== *)
theory Dlc_Steps
  imports Dlc_Checks
begin

text \<open>
  What the manager may do to its store: \<open>view_step\<close> is the life of contracts as a relation on
  the stored contracts, \<open>check_step\<close> the part of it the periodic checks make. The locale
  \<open>dlc_manager\<close> extends the store's contract with what the other parts of the manager's world
  promise, and shows that every operation of the manager is a sequence of such steps.
\<close>

section \<open>The life of a contract\<close>

definition left_by :: "dlc_ext \<Rightarrow> dlc_contract \<Rightarrow> (bytes \<Rightarrow> dlc_contract option) \<Rightarrow> (bytes \<Rightarrow> dlc_contract option) \<Rightarrow> bool" where
  "left_by D c v v' \<longleftrightarrow> vacated D c v v' \<or> stored D c v v'"

abbreviation offered_of :: "signed_contract \<Rightarrow> offered_contract" where
  "offered_of sc \<equiv> ac_offered_contract (sc_accepted_contract sc)"

inductive check_step :: "dlc_ext \<Rightarrow> dlc_contract \<Rightarrow> dlc_contract \<Rightarrow> bool" for D where
  confirm: "check_step D (Signed sc) (Confirmed sc)"
| preclose: "pc_signed_contract pc = sc \<Longrightarrow> check_step D (Confirmed sc) (PreClosed pc)"
| close_directly: "cl_contract_id cl = accepted_id D (sc_accepted_contract sc) \<Longrightarrow> check_step D (Confirmed sc) (Closed cl)"
| refund: "check_step D (Confirmed sc) (Refunded sc)"
| close_preclosed: "cl_contract_id cl = accepted_id D (sc_accepted_contract (pc_signed_contract pc)) \<Longrightarrow>
     check_step D (PreClosed pc) (Closed cl)"

inductive view_step :: "dlc_ext \<Rightarrow> (bytes \<Rightarrow> dlc_contract option) \<Rightarrow> (bytes \<Rightarrow> dlc_contract option) \<Rightarrow> bool" for D where
  offer: "v (oc_id oc) = None \<Longrightarrow> view_step D v (v(oc_id oc \<mapsto> Offered oc))"
| accept: "v (oc_id oc) = Some (Offered oc) \<Longrightarrow> ac_offered_contract ac = oc \<Longrightarrow> left_by D (Accepted ac) v v' \<Longrightarrow>
     view_step D v v'"
| sign_accepted_offer: "v (oc_id oc) = Some (Offered oc) \<Longrightarrow> offered_of sc = oc \<Longrightarrow> left_by D (Signed sc) v v' \<Longrightarrow>
     view_step D v v'"
| sign_accepted: "v (accepted_id D ac) = Some (Accepted ac) \<Longrightarrow> sc_accepted_contract sc = ac \<Longrightarrow> left_by D (Signed sc) v v' \<Longrightarrow>
     view_step D v v'"
| fail_accept: "v (oc_id oc) = Some (Offered oc) \<Longrightarrow> fa_offered_contract fa = oc \<Longrightarrow>
     view_step D v (v(oc_id oc \<mapsto> FailedAccept fa))"
| fail_sign: "v (accepted_id D ac) = Some (Accepted ac) \<Longrightarrow> fs_accepted_contract fs = ac \<Longrightarrow>
     view_step D v (v(accepted_id D ac \<mapsto> FailedSign fs))"
| check: "v i = Some c \<Longrightarrow> check_step D c c' \<Longrightarrow> get_id D c' = i \<Longrightarrow> view_step D v (v(i \<mapsto> c'))"

inductive_simps check_step_from:
  "check_step D (Offered oc) c" "check_step D (Accepted ac) c" "check_step D (Signed sc) c"
  "check_step D (Confirmed sc) c" "check_step D (PreClosed pc) c" "check_step D (Closed cl) c"
  "check_step D (Refunded sc) c" "check_step D (FailedAccept fa) c" "check_step D (FailedSign fs) c"
  "check_step D (Rejected oc) c"

abbreviation view_steps :: "dlc_ext \<Rightarrow> (bytes \<Rightarrow> dlc_contract option) \<Rightarrow> (bytes \<Rightarrow> dlc_contract option) \<Rightarrow> bool" where
  "view_steps D \<equiv> (view_step D)\<^sup>*\<^sup>*"

text \<open>The checks never create or remove a record: each slot goes its own way along \<open>check_step\<close>.\<close>

definition slots_checked :: "dlc_ext \<Rightarrow> (bytes \<Rightarrow> dlc_contract option) \<Rightarrow> (bytes \<Rightarrow> dlc_contract option) \<Rightarrow> bool" where
  "slots_checked D v v' \<longleftrightarrow> (\<forall>i. rel_option (check_step D)\<^sup>*\<^sup>* (v i) (v' i))"

lemma slots_checked_refl [simp]: "slots_checked D v v"
  by (simp add: slots_checked_def option.rel_refl)

lemma slots_checked_trans: "slots_checked D v v' \<Longrightarrow> slots_checked D v' v'' \<Longrightarrow> slots_checked D v v''"
proof -
  assume "slots_checked D v v'" "slots_checked D v' v''"
  then have "rel_option ((check_step D)\<^sup>*\<^sup>* OO (check_step D)\<^sup>*\<^sup>*) (v i) (v'' i)" for i
    unfolding slots_checked_def option.rel_compp by blast
  moreover have "((check_step D)\<^sup>*\<^sup>* OO (check_step D)\<^sup>*\<^sup>*) = (check_step D)\<^sup>*\<^sup>*"
    by (auto simp: OO_def fun_eq_iff intro: rtranclp_trans)
  ultimately show ?thesis by (simp add: slots_checked_def)
qed

lemma slots_checked_put:
  "v i = Some c \<Longrightarrow> (check_step D)\<^sup>*\<^sup>* c c' \<Longrightarrow> slots_checked D v (v(i \<mapsto> c'))"
  by (auto simp: slots_checked_def option.rel_refl)

section \<open>What the manager's surroundings promise\<close>

text \<open>
  The documented results of the updater: a contract built from another one carries it, and an
  offer read from a message has its temporary id and the sender as counter party.
\<close>

definition returns :: "('w, 'a, 'e) io \<Rightarrow> ('a \<Rightarrow> bool) \<Rightarrow> bool" where
  "returns m P \<longleftrightarrow> (\<forall>w a w'. m w = (Ok a, w') \<longrightarrow> P a)"

definition updater_ok :: "'w contract_updater \<Rightarrow> bool" where
  "updater_ok U \<longleftrightarrow>
     (\<forall>oc. returns (cu_accept_contract U oc) (\<lambda>(ac, _). ac_offered_contract ac = oc)) \<and>
     (\<forall>oc a. returns (cu_verify_accepted_and_sign U oc a) (\<lambda>(sc, _). offered_of sc = oc)) \<and>
     (\<forall>ac s. returns (cu_verify_signed U ac s) (\<lambda>(sc, _). sc_accepted_contract sc = ac)) \<and>
     (\<forall>o' p oc. cu_try_from_offer_dlc U o' p = Ok oc \<longrightarrow>
        oc_id oc = od_temporary_contract_id o' \<and> oc_counter_party oc = p)"

definition frame :: "('w \<Rightarrow> 'v) \<Rightarrow> ('w \<Rightarrow> bool) \<Rightarrow> 'w \<Rightarrow> 'w \<Rightarrow> bool" where
  "frame view I w w' \<longleftrightarrow> (I w \<longrightarrow> I w' \<and> view w' = view w)"

lemma frame_order: "reflp (frame view I)" "transp (frame view I)"
  by (auto simp: frame_def reflp_def transp_def)

text \<open>Every call of the manager outside its store moves the world along a relation.\<close>

definition surroundings_move :: "('w \<Rightarrow> 'w \<Rightarrow> bool) \<Rightarrow> 'w Manager \<Rightarrow> bool" where
  "surroundings_move F M \<longleftrightarrow> (let U = mg_updater M; B = mg_blockchain M in
     (\<forall>os k orc i. mg_oracles M = Some os \<and> os k = Some orc \<longrightarrow>
        moves F (or_get_announcement orc i) \<and> moves F (or_get_attestation orc i)) \<and>
     (\<forall>t. moves F (bc_confirmations B t)) \<and> (\<forall>t. moves F (bc_send_transaction B t)) \<and> moves F (bc_get_network B) \<and>
     (\<forall>s n. moves F (mg_import_address M s n)) \<and> (\<forall>p. moves F (mg_http_get_json M p)) \<and>
     (\<forall>a b c d f g. moves F (cu_offer_contract U a b c d f g)) \<and> (\<forall>oc. moves F (cu_accept_contract U oc)) \<and>
     (\<forall>oc a. moves F (cu_verify_accepted_and_sign U oc a)) \<and> (\<forall>ac s. moves F (cu_verify_signed U ac s)) \<and>
     (\<forall>c i a ts. moves F (cu_get_signed_cet U c i a ts)) \<and> (\<forall>c. moves F (cu_get_signed_refund U c)))"

text \<open>Everything but the store leaves the stored contracts alone.\<close>

abbreviation surroundings_ok :: "('w \<Rightarrow> 'v) \<Rightarrow> ('w \<Rightarrow> bool) \<Rightarrow> 'w Manager \<Rightarrow> bool" where
  "surroundings_ok view I \<equiv> surroundings_move (frame view I)"

text \<open>
  A reflexive and transitive relation that these calls respect is respected by every part of an
  operation that does not use the store.
\<close>

lemma moves_case_prod: "(\<And>a b. moves R (f a b)) \<Longrightarrow> moves R (case p of (a, b) \<Rightarrow> f a b)"
  by (cases p) simp

lemma moves_case_option: "moves R m \<Longrightarrow> (\<And>a. moves R (f a)) \<Longrightarrow> moves R (case x of None \<Rightarrow> m | Some a \<Rightarrow> f a)"
  by (cases x) simp_all

lemma found_oracle:
  assumes "outcome_collect (find_oracles os) infos = Ok found" "orcs \<in> set found" "orc \<in> set orcs"
  shows "\<exists>k. os k = Some orc"
proof -
  obtain info where "find_oracles os info = Ok orcs"
    using assms(1,2) by (auto simp: outcome_collect_Ok_iff list_all2_conv_all_nth in_set_conv_nth)
  then show ?thesis
    using assms(3) by (auto simp: find_oracles_def outcome_collect_Ok_iff list_all2_conv_all_nth in_set_conv_nth)
qed

locale surroundings_relation =
  fixes R :: "'w \<Rightarrow> 'w \<Rightarrow> bool" and M :: "'w Manager"
  assumes R_order: "reflp R" "transp R"
    and R_surroundings: "surroundings_move R M"
begin

lemma calls_move:
  "mg_oracles M = Some os \<Longrightarrow> os k = Some orc \<Longrightarrow> moves R (or_get_announcement orc i)"
  "mg_oracles M = Some os \<Longrightarrow> os k = Some orc \<Longrightarrow> moves R (or_get_attestation orc i)"
  "moves R (bc_confirmations (mg_blockchain M) t)" "moves R (bc_send_transaction (mg_blockchain M) tx)"
  "moves R (bc_get_network (mg_blockchain M))" "moves R (mg_import_address M s n)"
  "moves R (mg_http_get_json M p)" "moves R (cu_offer_contract (mg_updater M) a b c d f g)"
  "moves R (cu_accept_contract (mg_updater M) oc)" "moves R (cu_verify_accepted_and_sign (mg_updater M) oc am)"
  "moves R (cu_verify_signed (mg_updater M) ac sm)" "moves R (cu_get_signed_cet (mg_updater M) sc ci ai ts)"
  "moves R (cu_get_signed_refund (mg_updater M) sc)"
  using R_surroundings by (auto simp: surroundings_move_def Let_def)

lemmas outside_moves = moves_intros [of R] R_order calls_move moves_case_prod moves_case_option

lemma import_moves: "moves R (import_funding_address M ac)"
  unfolding import_funding_address_def by (intro outside_moves)

lemma announcements_move:
  assumes "mg_oracles M = Some os" "outcome_collect (find_oracles os) infos = Ok found"
  shows "moves R (map_io (map_io (\<lambda>orc. or_get_announcement orc i)) found)"
  using found_oracle [OF assms(2)] calls_move(1) [OF assms(1)] by (intro moves_map_io R_order) blast

lemma attest_moves: "mg_oracles M = Some os \<Longrightarrow> moves R (attest_one D os ia)"
  unfolding attest_one_def by (auto intro!: outside_moves split: option.split)

lemma join_moves: "(\<And>x. moves R (f x)) \<Longrightarrow> moves R (join_ok f xs)"
  by (induction xs) (auto intro!: outside_moves)

lemma closable_moves: "moves R (get_closable_contract_info D M sc)"
proof -
  have "moves R (closable_loop D os cs)" if "mg_oracles M = Some os" for os cs
  proof (induction cs)
    case (Cons c cs)
    then show ?case
      by (cases c) (auto simp: Let_def intro!: outside_moves join_moves attest_moves [OF that])
  qed (simp add: moves_ret R_order)
  then show ?thesis
    unfolding get_closable_contract_info_def
    by (auto intro!: moves_intros R_order split: option.split)
qed

lemma unixtime_moves: "moves R (get_unixtime D M)"
  unfolding get_unixtime_def get_json_def by (intro outside_moves)

end

locale dlc_manager = contract_store D "mg_store M" view inv
  for D :: dlc_ext and M :: "'w Manager" and view :: "'w \<Rightarrow> bytes \<Rightarrow> dlc_contract option" and inv :: "'w \<Rightarrow> bool" +
  assumes surroundings: "surroundings_ok view inv M"
    and library: "inv w \<Longrightarrow> dlc_ok D \<and> updater_ok (mg_updater M)"
begin

abbreviation same where "same \<equiv> frame view inv"

lemmas same_order = frame_order [of view inv]

end

sublocale dlc_manager \<subseteq> out: surroundings_relation "frame view inv" M
  by unfold_locales (rule frame_order surroundings)+

context dlc_manager begin

lemmas frame_calls = out.calls_move
lemmas import_same = out.import_moves
lemmas announcements_same = out.announcements_move
lemmas closable_same = out.closable_moves
lemmas unixtime_same = out.unixtime_moves

lemma wp_same: "moves same m \<Longrightarrow> inv w \<Longrightarrow> wp m (\<lambda>_ w'. inv w' \<and> view w' = view w) w"
  by (auto simp: moves_def frame_def wp_def)

lemma wp_same_returns:
  "moves same m \<Longrightarrow> returns m P \<Longrightarrow> inv w \<Longrightarrow>
     wp m (\<lambda>r w'. inv w' \<and> view w' = view w \<and> (\<forall>a. r = Ok a \<longrightarrow> P a)) w"
  by (cases "m w") (auto simp: moves_def frame_def wp_def returns_def)

text \<open>The two rules that step through an operation: a call that leaves the store alone, and one of the store.\<close>

lemma same_then:
  assumes "moves same m" "inv w" "\<And>w'. inv w' \<Longrightarrow> view w' = view w \<Longrightarrow> Q Panic w'"
    and "\<And>x w'. inv w' \<Longrightarrow> view w' = view w \<Longrightarrow> Q (Err x) w'"
    and "\<And>a w'. inv w' \<Longrightarrow> view w' = view w \<Longrightarrow> wp (f a) Q w'"
  shows "wp (and_then m f) Q w"
  unfolding wp_and_then by (rule wp_mono [OF wp_same [OF assms(1,2)]]) (use assms(3-5) in \<open>auto split: outcome.split\<close>)

section \<open>Reading in a state\<close>

lemma get_in_state_law:
  assumes "inv w" and sel: "\<And>c s. sel c = Some s \<Longrightarrow> c = C s"
  shows "wp (get_contract_in_state D M i state sel peer) (\<lambda>r w'. inv w' \<and> view w' = view w \<and>
     (\<forall>s. r = Ok s \<longrightarrow> view w i = Some (C s) \<and> (\<forall>p. peer = Some p \<longrightarrow> get_counter_party_id D (C s) = p))) w"
  unfolding get_contract_in_state_def wp_and_then
  by (rule wp_mono [OF get_law [OF assms(1)]])
    (auto simp: wp_simps split: outcome.split option.split dest!: sel)

lemma as_offered: "as_offered c = Some s \<Longrightarrow> c = Offered s"
  by (cases c) simp_all

lemma as_accepted: "as_accepted c = Some s \<Longrightarrow> c = Accepted s"
  by (cases c) simp_all

end

end
