(* ===== verification/Dlc_Messages.thy ===== *)
theory Dlc_Messages
  imports Dlc_Steps
begin

text \<open>
  The message handlers, the offers and the acceptance of the manager only make legal steps, and
  a message moves a contract only when it comes from the contract's counter party.
\<close>

lemma left_by_plain:
  "\<not> replaces c \<Longrightarrow> left_by D c v v' \<longleftrightarrow> v' = v \<or> v (get_id D c) \<noteq> None \<and> v' = v(get_id D c \<mapsto> c)"
  by (auto simp: left_by_def vacated_def stored_def)

context dlc_manager begin

abbreviation goes :: "(bytes \<Rightarrow> dlc_contract option) \<Rightarrow> ('w, 'a, 'e) io \<Rightarrow> 'w \<Rightarrow> bool" where
  "goes v m w \<equiv> wp m (\<lambda>_ w'. inv w' \<and> view_steps D v (view w')) w"

lemma update_left_by:
  assumes "inv w"
  shows "wp (as_update_contract (mg_store M) c) (\<lambda>r w'. inv w' \<and> left_by D c (view w) (view w')) w"
  by (rule wp_mono [OF update_law [OF assms]]) (auto simp: left_by_def split: if_splits)

lemma update_goes:
  assumes "inv w" "\<And>v'. left_by D c (view w) v' \<Longrightarrow> view_step D (view w) v' \<or> v' = view w"
  shows "goes (view w) (as_update_contract (mg_store M) c) w"
  by (rule wp_mono [OF update_left_by [OF assms(1)]]) (metis assms(2) r_into_rtranclp rtranclp.rtrancl_refl)

lemma create_goes:
  assumes "inv w"
  shows "goes (view w) (as_create_contract (mg_store M) oc) w"
  by (rule wp_mono [OF create_law [OF assms]])
    (use view_step.offer [of "view w" oc D] in \<open>auto split: if_splits dest: r_into_rtranclp [of "view_step D"]\<close>)

lemma goes_ret: "goes v m w \<Longrightarrow> goes v (and_then m (\<lambda>a. ret (f a))) w"
  unfolding wp_and_then by (erule wp_mono) (auto simp: wp_ret split: outcome.split)

lemma goes_throw: "goes v m w \<Longrightarrow> goes v (and_then m (\<lambda>a. throw e)) w"
  unfolding wp_and_then by (erule wp_mono) (auto simp: wp_throw split: outcome.split)

lemma goes_same_after: "goes v m w \<Longrightarrow> moves same n \<Longrightarrow> goes v (and_then m (\<lambda>_. n)) w"
  unfolding wp_and_then
  by (erule wp_mono) (auto simp: moves_def frame_def wp_def split: outcome.split)

lemma goes_pure:
  "inv w \<Longrightarrow> (\<And>a. r = Ok a \<Longrightarrow> goes (view w) (f a) w) \<Longrightarrow> goes (view w) (and_then (of_outcome r) f) w"
  unfolding wp_and_then wp_of_outcome by (cases r) simp_all

lemma goes_same:
  assumes "moves same m" "inv w" "\<And>a w'. inv w' \<Longrightarrow> view w' = view w \<Longrightarrow> goes (view w') (f a) w'"
  shows "goes (view w) (and_then m f) w"
  by (rule same_then [OF assms(1,2)]) (use assms(3) in \<open>force+\<close>)

lemma goes_same_returns:
  assumes "moves same m" "returns m P" "inv w"
    and "\<And>a w'. inv w' \<Longrightarrow> view w' = view w \<Longrightarrow> P a \<Longrightarrow> goes (view w) (f a) w'"
  shows "goes (view w) (and_then m f) w"
  unfolding wp_and_then
  by (rule wp_mono [OF wp_same_returns [OF assms(1-3)]]) (use assms(4) in \<open>auto split: outcome.split\<close>)

section \<open>Offers\<close>

lemma send_offer_goes:
  assumes "inv w"
  shows "goes (view w) (send_offer M ci cp delay bp fee) w"
proof (cases "mg_oracles M")
  case None
  then show ?thesis using assms by (simp add: send_offer_def wp_throw)
next
  case (Some os)
  show ?thesis
    unfolding send_offer_def Some option.case case_prod_beta
    by (intro goes_pure assms goes_same [OF announcements_same [OF Some]] goes_same [OF frame_calls(8)]
        goes_ret create_goes)
qed

text \<open>An offer that was sent: the announcements, the library's contract, and what is stored.\<close>

lemma send_offer_stores:
  assumes "inv w" "send_offer M ci cp delay bp fee w = (Ok offer, w')"
  obtains os info infos found anns offered w1 w2 where "mg_oracles M = Some os" "cin_contract_infos ci = info # infos"
    "outcome_collect (find_oracles os) (cin_contract_infos ci) = Ok found"
    "map_io (map_io (\<lambda>orc. or_get_announcement orc (oi_event_id (cii_oracles info)))) found w = (Ok anns, w1)"
    "cu_offer_contract (mg_updater M) ci anns delay cp (calculate_denominator_from_basis_points bp) fee w1 = (Ok (offered, offer), w2)"
    "view w (oc_id offered) = None" "view w' = (view w)(oc_id offered \<mapsto> Offered offered)"
proof -
  obtain os where os: "mg_oracles M = Some os" using assms(2) by (cases "mg_oracles M") (auto simp: send_offer_def throw_def)
  obtain i found anns offered w1 w2 where run: "(case cin_contract_infos ci of [] \<Rightarrow> None | info # _ \<Rightarrow> Some (oi_event_id (cii_oracles info))) = Some i"
    "outcome_collect (find_oracles os) (cin_contract_infos ci) = Ok found"
    "map_io (map_io (\<lambda>orc. or_get_announcement orc i)) found w = (Ok anns, w1)"
    "cu_offer_contract (mg_updater M) ci anns delay cp (calculate_denominator_from_basis_points bp) fee w1 = (Ok (offered, offer), w2)"
    "as_create_contract (mg_store M) offered w2 = (Ok (), w')"
    using assms(2) unfolding send_offer_def os option.case
    by (auto simp: and_then_Ok of_outcome_Ok ret_run split: option.splits)
  have "frame view inv w w1" using movesD [OF announcements_same [OF os run(2)] run(3)] .
  moreover have "frame view inv w1 w2" using movesD [OF frame_calls(8) run(4)] .
  ultimately have w2: "inv w2" "view w2 = view w" using assms(1) by (auto simp: frame_def)
  have "view w2 (oc_id offered) = None \<and> view w' = (view w2)(oc_id offered \<mapsto> Offered offered)"
    using wp_run [OF create_law [OF w2(1)] run(5)] by simp
  with that os run w2(2) show thesis by (auto split: list.splits)
qed

lemma on_offer_goes:
  assumes "inv w"
  shows "goes (view w) (on_offer_message M o' cp) w"
  unfolding on_offer_message_def
proof (intro goes_pure assms)
  fix oc
  show "goes (view w) (and_then (as_get_contract (mg_store M) (oc_id oc)) (\<lambda>found.
      if found \<noteq> None then throw (InvalidParameters ''Contract with identical id already exists'')
      else and_then (as_create_contract (mg_store M) oc) (\<lambda>_. ret ()))) w"
    unfolding wp_and_then [of "as_get_contract _ _"]
  proof (rule wp_mono [OF get_law [OF assms]])
    fix r :: "(dlc_contract option, dlc_error) outcome" and w'
    assume w': "inv w' \<and> view w' = view w \<and> (\<forall>x. r = Ok x \<longrightarrow> x = view w (oc_id oc))"
    then have "inv w'" "view w' = view w" by simp_all
    have "goes (view w') (and_then (as_create_contract (mg_store M) oc) (\<lambda>_. ret ())) w'"
      by (rule goes_ret [OF create_goes]) fact
    with w' show "case r of
        Ok found \<Rightarrow> goes (view w) (if found \<noteq> None then throw (InvalidParameters ''Contract with identical id already exists'')
            else and_then (as_create_contract (mg_store M) oc) (\<lambda>_. ret ())) w'
      | Err x \<Rightarrow> inv w' \<and> view_steps D (view w) (view w') | Panic \<Rightarrow> inv w' \<and> view_steps D (view w) (view w')"
      by (auto simp: wp_throw split: outcome.split)
  qed
qed

section \<open>Accepting and signing\<close>

lemma at_id:
  assumes "inv w"
  shows "view w i = Some (Offered oc) \<Longrightarrow> i = oc_id oc" "view w i = Some (Accepted ac) \<Longrightarrow> i = accepted_id D ac"
  using view_id [OF assms] id_simps(1,3) [OF conjunct1 [OF library [OF assms]]] by force+

lemma accepted_goes:
  assumes "inv w" "view w i = Some (Offered oc)" "ac_offered_contract ac = oc"
  shows "goes (view w) (as_update_contract (mg_store M) (Accepted ac)) w"
  by (rule update_goes [OF assms(1)]) (use assms at_id [OF assms(1)] in \<open>blast intro: view_step.accept\<close>)

lemma signed_offer_goes:
  assumes "inv w" "view w i = Some (Offered oc)" "offered_of sc = oc"
  shows "goes (view w) (as_update_contract (mg_store M) (Signed sc)) w"
  by (rule update_goes [OF assms(1)]) (use assms at_id [OF assms(1)] in \<open>blast intro: view_step.sign_accepted_offer\<close>)

lemma signed_accepted_goes:
  assumes "inv w" "view w i = Some (Accepted ac)" "sc_accepted_contract sc = ac"
  shows "goes (view w) (as_update_contract (mg_store M) (Signed sc)) w"
  by (rule update_goes [OF assms(1)]) (use assms at_id [OF assms(1)] in \<open>blast intro: view_step.sign_accepted\<close>)

lemma failed_goes:
  assumes "inv w"
  shows "view w i = Some (Offered oc) \<Longrightarrow> goes (view w) (accept_fail_on_error D M oc am e) w"
    and "view w i = Some (Accepted ac) \<Longrightarrow> goes (view w) (sign_fail_on_error D M ac sm e) w"
proof -
  note ids = id_simps [OF conjunct1 [OF library [OF assms]]]
  let ?fa = "\<lparr>fa_offered_contract = oc, fa_accept_message = am, fa_error_message = dlc_error_text D e\<rparr>"
  let ?fs = "\<lparr>fs_accepted_contract = ac, fs_sign_message = sm, fs_error_message = dlc_error_text D e\<rparr>"
  show "goes (view w) (accept_fail_on_error D M oc am e) w" if "view w i = Some (Offered oc)"
    unfolding accept_fail_on_error_def
  proof (rule goes_throw [OF update_goes [OF assms]])
    show "left_by D (FailedAccept ?fa) (view w) v' \<Longrightarrow> view_step D (view w) v' \<or> v' = view w" for v'
      using that at_id(1) [OF assms that] view_step.fail_accept [of "view w" oc ?fa D] by (auto simp: left_by_plain ids)
  qed
  show "goes (view w) (sign_fail_on_error D M ac sm e) w" if "view w i = Some (Accepted ac)"
    unfolding sign_fail_on_error_def
  proof (rule goes_throw [OF update_goes [OF assms]])
    show "left_by D (FailedSign ?fs) (view w) v' \<Longrightarrow> view_step D (view w) v' \<or> v' = view w" for v'
      using that at_id(2) [OF assms that] view_step.fail_sign [of "view w" D ac ?fs] by (auto simp: left_by_plain ids)
  qed
qed

text \<open>What follows a contract read in a state.\<close>

lemma in_state_goes:
  assumes "inv w" "\<And>c s. sel c = Some s \<Longrightarrow> c = C s"
    and "\<And>s w'. inv w' \<Longrightarrow> view w' = view w \<Longrightarrow> view w i = Some (C s) \<Longrightarrow> goes (view w) (f s) w'"
  shows "goes (view w) (and_then (get_contract_in_state D M i st sel peer) f) w"
  unfolding wp_and_then
  by (rule wp_mono [OF get_in_state_law [OF assms(1,2)]]) (use assms(3) in \<open>auto split: outcome.split\<close>)

lemma accept_offer_goes:
  assumes "inv w"
  shows "goes (view w) (accept_contract_offer D M i) w"
  unfolding accept_contract_offer_def
proof (rule in_state_goes [OF assms as_offered])
  fix oc w1 assume w1: "inv w1" "view w1 = view w" "view w i = Some (Offered oc)"
  have ret: "returns (cu_accept_contract (mg_updater M) oc) (\<lambda>(ac, _). ac_offered_contract ac = oc)"
    using library [OF assms] by (simp add: updater_ok_def)
  have "goes (view w1) (and_then (cu_accept_contract (mg_updater M) oc) (\<lambda>(accepted_contract, accept_msg).
      and_then (import_funding_address M accepted_contract) (\<lambda>_.
      and_then (as_update_contract (mg_store M) (Accepted accepted_contract)) (\<lambda>_.
      ret (accepted_id D accepted_contract, oc_counter_party oc, accept_msg))))) w1"
  proof (rule goes_same_returns [OF frame_calls(9) ret w1(1)])
    fix a :: "accepted_contract \<times> accept_dlc" and w2
    assume w2: "inv w2" "view w2 = view w1" and a: "(\<lambda>(ac, _). ac_offered_contract ac = oc) a"
    have "goes (view w3) (and_then (as_update_contract (mg_store M) (Accepted (fst a))) (\<lambda>_. ret x)) w3"
      if "inv w3" "view w3 = view w2" for w3 and x :: "bytes \<times> bytes \<times> accept_dlc"
      by (rule goes_ret [OF accepted_goes [OF that(1), where i = i and oc = oc]])
        (use that w2 w1 a in \<open>auto simp: case_prod_beta\<close>)
    then show "goes (view w1) (case a of (accepted_contract, accept_msg) \<Rightarrow>
        and_then (import_funding_address M accepted_contract) (\<lambda>_.
        and_then (as_update_contract (mg_store M) (Accepted accepted_contract)) (\<lambda>_.
        ret (accepted_id D accepted_contract, oc_counter_party oc, accept_msg)))) w2"
      unfolding case_prod_beta w2(2) [symmetric] by (intro goes_same [OF import_same w2(1)])
  qed
  with w1 show "goes (view w) (and_then (cu_accept_contract (mg_updater M) oc) (\<lambda>(accepted_contract, accept_msg).
      and_then (import_funding_address M accepted_contract) (\<lambda>_.
      and_then (as_update_contract (mg_store M) (Accepted accepted_contract)) (\<lambda>_.
      ret (accepted_id D accepted_contract, oc_counter_party oc, accept_msg))))) w1" by simp
qed

text \<open>\<open>match call { Ok(x) => .., Err(e) => .. }\<close> over a call that leaves the store alone.\<close>

lemma goes_handle:
  assumes "moves same m" "returns m P" "inv w"
    and "\<And>a w'. inv w' \<Longrightarrow> view w' = view w \<Longrightarrow> P a \<Longrightarrow> goes (view w') (f a) w'"
    and "\<And>x w'. inv w' \<Longrightarrow> view w' = view w \<Longrightarrow> goes (view w') (g x) w'"
  shows "goes (view w) (handle m f g) w"
  unfolding wp_handle
  by (rule wp_mono [OF wp_same_returns [OF assms(1-3)]]) (use assms(4,5) in \<open>force split: outcome.split\<close>)

lemma on_accept_goes:
  assumes "inv w"
  shows "goes (view w) (on_accept_message D M am cp) w"
  unfolding on_accept_message_def
proof (rule in_state_goes [OF assms as_offered])
  fix oc w1 assume w1: "inv w1" "view w1 = view w" "view w (ad_temporary_contract_id am) = Some (Offered oc)"
  have ret: "returns (cu_verify_accepted_and_sign (mg_updater M) oc am) (\<lambda>(sc, _). offered_of sc = oc)"
    using library [OF assms] by (simp add: updater_ok_def)
  show "goes (view w) (handle (cu_verify_accepted_and_sign (mg_updater M) oc am)
      (\<lambda>(signed_contract, signed_msg).
         and_then (import_funding_address M (sc_accepted_contract signed_contract)) (\<lambda>_.
         and_then (as_update_contract (mg_store M) (Signed signed_contract)) (\<lambda>_. ret (SignMsg signed_msg))))
      (accept_fail_on_error D M oc am)) w1"
    unfolding w1(2) [symmetric] case_prod_beta
  proof (rule goes_handle [OF frame_calls(10) ret w1(1)])
    fix a :: "signed_contract \<times> sign_dlc" and w2
    assume w2: "inv w2" "view w2 = view w1" and a: "(\<lambda>(sc, _). offered_of sc = oc) a"
    show "goes (view w2) (and_then (import_funding_address M (sc_accepted_contract (fst a))) (\<lambda>_.
        and_then (as_update_contract (mg_store M) (Signed (fst a))) (\<lambda>_. ret (SignMsg (snd a))))) w2"
      by (rule goes_same [OF import_same w2(1)], rule goes_ret,
          rule signed_offer_goes [where i = "ad_temporary_contract_id am" and oc = oc])
        (use w2 w1 a in \<open>auto simp: case_prod_beta\<close>)
  next
    show "goes (view w2) (accept_fail_on_error D M oc am x) w2" if "inv w2" "view w2 = view w1" for x w2
      by (rule failed_goes(1) [OF that(1), where i = "ad_temporary_contract_id am"]) (use that w1 in simp)
  qed
qed

lemma on_sign_goes:
  assumes "inv w"
  shows "goes (view w) (on_sign_message D M sm cp) w"
  unfolding on_sign_message_def
proof (rule in_state_goes [OF assms as_accepted])
  fix ac w1 assume w1: "inv w1" "view w1 = view w" "view w (sd_contract_id sm) = Some (Accepted ac)"
  have ret: "returns (cu_verify_signed (mg_updater M) ac sm) (\<lambda>(sc, _). sc_accepted_contract sc = ac)"
    using library [OF assms] by (simp add: updater_ok_def)
  have send: "moves same (and_then (bc_send_transaction (mg_blockchain M) tx) (\<lambda>_. ret ()))" for tx
    by (intro moves_intros same_order frame_calls)
  show "goes (view w) (handle (cu_verify_signed (mg_updater M) ac sm)
      (\<lambda>(signed_contract, fund_tx).
         and_then (as_update_contract (mg_store M) (Signed signed_contract)) (\<lambda>_.
         and_then (bc_send_transaction (mg_blockchain M) fund_tx) (\<lambda>_. ret ())))
      (sign_fail_on_error D M ac sm)) w1"
    unfolding w1(2) [symmetric] case_prod_beta
  proof (rule goes_handle [OF frame_calls(11) ret w1(1)])
    fix a :: "signed_contract \<times> transaction" and w2
    assume w2: "inv w2" "view w2 = view w1" and a: "(\<lambda>(sc, _). sc_accepted_contract sc = ac) a"
    show "goes (view w2) (and_then (as_update_contract (mg_store M) (Signed (fst a))) (\<lambda>_.
        and_then (bc_send_transaction (mg_blockchain M) (snd a)) (\<lambda>_. ret ()))) w2"
      by (rule goes_same_after [OF _ send],
          rule signed_accepted_goes [where i = "sd_contract_id sm" and ac = ac])
        (use w2 w1 a in \<open>auto simp: case_prod_beta\<close>)
  next
    show "goes (view w2) (sign_fail_on_error D M ac sm x) w2" if "inv w2" "view w2 = view w1" for x w2
      by (rule failed_goes(2) [OF that(1), where i = "sd_contract_id sm"]) (use that w1 in simp)
  qed
qed

lemma on_message_goes:
  assumes "inv w"
  shows "goes (view w) (on_dlc_message D M msg cp) w"
  by (cases msg) (use assms in \<open>simp_all add: goes_ret on_offer_goes on_accept_goes on_sign_goes wp_throw\<close>)

section \<open>Messages of other peers\<close>

text \<open>An accept or sign message that changes a contract comes from its counter party.\<close>

lemma in_state_changes:
  assumes "inv w" "\<And>c s. sel c = Some s \<Longrightarrow> c = C s"
  shows "wp (and_then (get_contract_in_state D M i st sel (Some peer)) f) (\<lambda>r w'.
     (\<exists>s. view w i = Some (C s) \<and> get_counter_party_id D (C s) = peer) \<or> inv w' \<and> view w' = view w \<and> \<not> is_ok r) w"
  unfolding wp_and_then
  by (rule wp_mono [OF get_in_state_law [OF assms]]) (auto split: outcome.split simp: wp_def)

lemma foreign_message:
  assumes "inv w" "\<And>c. view w i = Some c \<Longrightarrow> get_counter_party_id D c \<noteq> cp"
  shows "i = ad_temporary_contract_id am \<Longrightarrow>
      wp (on_accept_message D M am cp) (\<lambda>r w'. inv w' \<and> view w' = view w \<and> \<not> is_ok r) w"
    and "i = sd_contract_id sm \<Longrightarrow>
      wp (on_sign_message D M sm cp) (\<lambda>r w'. inv w' \<and> view w' = view w \<and> \<not> is_ok r) w"
  unfolding on_accept_message_def on_sign_message_def
  by (rule wp_mono [OF in_state_changes [OF assms(1)]], erule as_offered as_accepted, use assms(2) in blast)+

lemma on_offer_existing:
  assumes "inv w" "view w (od_temporary_contract_id o') \<noteq> None"
  shows "wp (on_offer_message M o' cp) (\<lambda>r w'. inv w' \<and> view w' = view w \<and> \<not> is_ok r) w"
proof -
  have "wp (and_then (as_get_contract (mg_store M) i) (\<lambda>found.
      if found \<noteq> None then throw x else f)) (\<lambda>r w'. inv w' \<and> view w' = view w \<and> \<not> is_ok r) w"
    if "view w i \<noteq> None" for i x and f :: "('w, unit, dlc_error) io"
    unfolding wp_and_then by (rule wp_mono [OF get_law [OF assms(1)]]) (use that in \<open>auto simp: wp_throw split: outcome.split\<close>)
  note existing = this
  have "view w (oc_id oc) \<noteq> None" if "cu_try_from_offer_dlc (mg_updater M) o' cp = Ok oc" for oc
    using that assms(2) library [OF assms(1)] by (simp add: updater_ok_def)
  with existing assms(1) show ?thesis
    unfolding on_offer_message_def wp_and_then [of "of_outcome _"] wp_of_outcome by (auto split: outcome.split)
qed

end

section \<open>Calls in sequence\<close>

text \<open>What a run of the manager may do to the store: legal steps and rounds of checks.\<close>

definition life :: "dlc_ext \<Rightarrow> (bytes \<Rightarrow> dlc_contract option) \<Rightarrow> (bytes \<Rightarrow> dlc_contract option) \<Rightarrow> bool" where
  "life D = (\<lambda>v v'. view_step D v v' \<or> slots_checked D v v')\<^sup>*\<^sup>*"

lemma life_refl [simp]: "life D v v"
  by (simp add: life_def)

lemma life_trans: "life D v v' \<Longrightarrow> life D v' v'' \<Longrightarrow> life D v v''"
  unfolding life_def by (rule rtranclp_trans)

lemma life_steps: "view_steps D v v' \<Longrightarrow> life D v v'"
  unfolding life_def by (erule rtranclp_mono [THEN predicate2D, rotated]) auto

lemma life_checks: "slots_checked D v v' \<Longrightarrow> life D v v'"
  unfolding life_def by auto

end
