(* ===== verification/Dlc_Periodic.thy ===== *)
theory Dlc_Periodic
  imports Dlc_Messages
begin

text \<open>
  The periodic check moves each stored contract along \<open>check_step\<close> and touches no other slot;
  every contract it reports has moved. Then the branches of the single checks, whatever the
  store and the chain do.
\<close>

definition moved :: "dlc_ext \<Rightarrow> (bytes \<Rightarrow> dlc_contract option) \<Rightarrow> (bytes \<Rightarrow> dlc_contract option) \<Rightarrow> bytes \<Rightarrow> bool" where
  "moved D v v' i \<longleftrightarrow> (\<exists>c c'. v i = Some c \<and> v' i = Some c' \<and> (check_step D)\<^sup>+\<^sup>+ c c')"

lemma moved_later: "moved D v v' i \<Longrightarrow> slots_checked D v' v'' \<Longrightarrow> moved D v v'' i"
  unfolding moved_def slots_checked_def
  by (metis option.rel_sel option.sel option.distinct(1) option.exhaust_sel tranclp_rtranclp_tranclp)

lemma moved_earlier: "slots_checked D v v' \<Longrightarrow> moved D v' v'' i \<Longrightarrow> moved D v v'' i"
  unfolding moved_def slots_checked_def
  by (metis option.rel_sel option.sel option.distinct(1) option.exhaust_sel rtranclp_tranclp_tranclp)

lemma reported_append:
  assumes "slots_checked D v u" "slots_checked D u u'" "\<forall>x \<in> set xs. moved D v u (fst x)" "\<forall>x \<in> set ys. moved D u u' (fst x)"
  shows "slots_checked D v u' \<and> (\<forall>x \<in> set xs \<union> set ys. moved D v u' (fst x))"
  using slots_checked_trans [OF assms(1,2)] assms(3,4) moved_later [OF _ assms(2)] moved_earlier [OF assms(1)]
  by blast

definition one_check :: "dlc_ext \<Rightarrow> dlc_contract \<Rightarrow> (bool, dlc_error) outcome \<Rightarrow>
    (bytes \<Rightarrow> dlc_contract option) \<Rightarrow> (bytes \<Rightarrow> dlc_contract option) \<Rightarrow> bool" where
  "one_check D c r v v' \<longleftrightarrow> v' = v \<and> r \<noteq> Ok True
     \<or> (\<exists>c'. check_step D c c' \<and> v' = v(get_id D c \<mapsto> c'))"

lemma one_check_slots:
  "v (get_id D c) = Some c \<Longrightarrow> one_check D c r v v' \<Longrightarrow>
     slots_checked D v v' \<and> (r = Ok True \<longrightarrow> moved D v v' (get_id D c)) \<and> (\<forall>i. i \<noteq> get_id D c \<longrightarrow> v' i = v i)"
  by (auto simp: one_check_def moved_def intro!: slots_checked_put)

context dlc_manager begin

lemma update_plain:
  assumes "inv w" "\<not> replaces c"
  shows "wp (as_update_contract (mg_store M) c) (\<lambda>r w'. inv w' \<and>
     (view w' = view w \<and> r \<noteq> Ok () \<or> view w' = (view w)(get_id D c \<mapsto> c))) w"
  by (rule wp_mono [OF update_law [OF assms(1)]])
    (use assms(2) in \<open>auto simp: stored_def vacated_def split: if_splits\<close>)

lemma update_checked:
  assumes "inv w" "view w = v" "check_step D c c'" "get_id D c' = get_id D c" "\<not> replaces c'"
  shows "wp (and_then (as_update_contract (mg_store M) c') (\<lambda>_. ret b))
     (\<lambda>r w'. inv w' \<and> one_check D c r v (view w')) w"
  unfolding wp_and_then
  by (rule wp_mono [OF update_plain [OF assms(1,5)]])
    (use assms(2-4) in \<open>auto simp: one_check_def wp_ret split: outcome.split\<close>)

lemma checked_same:
  assumes "moves same m" "inv w" "view w = v"
    and "\<And>a w'. inv w' \<Longrightarrow> view w' = v \<Longrightarrow> wp (f a) (\<lambda>r w'. inv w' \<and> one_check D c r v (view w')) w'"
  shows "wp (and_then m f) (\<lambda>r w'. inv w' \<and> one_check D c r v (view w')) w"
  by (rule same_then [OF assms(1,2)]) (use assms(3,4) in \<open>auto simp: one_check_def\<close>)

lemma check_signed_one:
  assumes "inv w"
  shows "wp (check_signed_contract D M sc) (\<lambda>r w'. inv w' \<and> one_check D (Signed sc) r (view w) (view w')) w"
  unfolding check_signed_contract_def
proof (rule checked_same [OF frame_calls(3) assms refl])
  fix n w' assume w': "inv w'" "view w' = view w"
  have upd: "wp (and_then (as_update_contract (mg_store M) (Confirmed sc)) (\<lambda>_. ret True))
      (\<lambda>r w'. inv w' \<and> one_check D (Signed sc) r (view w) (view w')) w'"
    by (rule update_checked [OF w' check_step.confirm])
      (use id_simps [OF conjunct1 [OF library [OF assms]]] in simp_all)
  show "wp (if NB_CONFIRMATIONS \<le> n then and_then (as_update_contract (mg_store M) (Confirmed sc)) (\<lambda>_. ret True)
      else ret False) (\<lambda>r w'. inv w' \<and> one_check D (Signed sc) r (view w) (view w')) w'"
    using upd w' by (simp add: wp_ret one_check_def)
qed

lemma check_preclosed_one:
  assumes "inv w"
  shows "wp (check_preclosed_contract D M pc) (\<lambda>r w'. inv w' \<and> one_check D (PreClosed pc) r (view w) (view w')) w"
  unfolding check_preclosed_contract_def Let_def
proof (rule checked_same [OF frame_calls(3) assms refl])
  fix n w' assume w': "inv w'" "view w' = view w"
  note ids = id_simps [OF conjunct1 [OF library [OF assms]]]
  let ?cl = "\<lparr>cl_attestations = pc_attestations pc, cl_signed_cet = Some (pc_signed_cet pc),
      cl_contract_id = accepted_id D (sc_accepted_contract (pc_signed_contract pc)),
      cl_temporary_contract_id = oc_id (offered_of (pc_signed_contract pc)),
      cl_counter_party_id = oc_counter_party (offered_of (pc_signed_contract pc)),
      cl_pnl = compute_pnl D (sc_accepted_contract (pc_signed_contract pc)) (pc_signed_cet pc)\<rparr>"
  have upd: "wp (and_then (as_update_contract (mg_store M) (Closed ?cl)) (\<lambda>_. ret True))
      (\<lambda>r w'. inv w' \<and> one_check D (PreClosed pc) r (view w) (view w')) w'"
    by (rule update_checked [OF w' check_step.close_preclosed]) (simp_all add: ids)
  show "wp (if NB_CONFIRMATIONS \<le> n then and_then (as_update_contract (mg_store M) (Closed ?cl)) (\<lambda>_. ret True)
      else ret False) (\<lambda>r w'. inv w' \<and> one_check D (PreClosed pc) r (view w) (view w')) w'"
    using upd w' by (simp add: wp_ret one_check_def)
qed

section \<open>Confirmed contracts\<close>

text \<open>What \<open>close_contract\<close> returns is one step on.\<close>

lemma close_contract_law:
  assumes "inv w"
  shows "wp (close_contract D M sc cet ats) (\<lambda>r w'. inv w' \<and> view w' = view w \<and>
     (\<forall>c. r = Ok c \<longrightarrow> check_step D (Confirmed sc) c \<and> get_id D c = accepted_id D (sc_accepted_contract sc) \<and> \<not> replaces c)) w"
  (is "wp _ ?Q w")
proof -
  note ids = id_simps [OF conjunct1 [OF library [OF assms]]]
  have pre: "check_step D (Confirmed sc) (PreClosed \<lparr>pc_signed_contract = sc, pc_attestations = a, pc_signed_cet = t\<rparr>)" for a t
    by (rule check_step.preclose) simp
  have cl: "check_step D (Confirmed sc) (Closed \<lparr>cl_attestations = a, cl_signed_cet = t,
      cl_contract_id = accepted_id D (sc_accepted_contract sc), cl_temporary_contract_id = i,
      cl_counter_party_id = p, cl_pnl = n\<rparr>)" for a t i p n
    by (rule check_step.close_directly) simp
  show ?thesis
    unfolding close_contract_def Let_def
  proof (rule same_then [OF frame_calls(3) assms])
    fix n w1 assume w1: "inv w1" "view w1 = view w"
    show "wp (if n < 1 then and_then (bc_send_transaction (mg_blockchain M) cet)
          (\<lambda>_. ret (PreClosed \<lparr>pc_signed_contract = sc, pc_attestations = Some ats, pc_signed_cet = cet\<rparr>))
        else if n < NB_CONFIRMATIONS then ret (PreClosed \<lparr>pc_signed_contract = sc, pc_attestations = Some ats, pc_signed_cet = cet\<rparr>)
        else ret (Closed \<lparr>cl_attestations = Some ats, cl_signed_cet = Some cet,
          cl_contract_id = accepted_id D (sc_accepted_contract sc), cl_temporary_contract_id = oc_id (offered_of sc),
          cl_counter_party_id = oc_counter_party (offered_of sc),
          cl_pnl = compute_pnl D (sc_accepted_contract sc) cet\<rparr>)) ?Q w1"
      using w1 pre cl
      by (auto simp: wp_ret ids intro!: same_then [OF frame_calls(4) w1(1)])
  qed auto
qed

lemma refund_law:
  assumes "inv w"
  shows "wp (check_refund D M sc) (\<lambda>r w'. inv w' \<and>
     (view w' = view w \<or> view w' = (view w)(accepted_id D (sc_accepted_contract sc) \<mapsto> Refunded sc))) w"
    (is "wp _ ?Q w")
  unfolding check_refund_def Let_def
proof (rule same_then [OF unixtime_same assms])
  fix t w1 assume w1: "inv w1" "view w1 = view w"
  have send: "moves same (if n = 0 then and_then (cu_get_signed_refund (mg_updater M) sc)
      (bc_send_transaction (mg_blockchain M)) else ret ())" for n :: u32
    by (intro moves_intros same_order frame_calls)
  have upd: "wp (as_update_contract (mg_store M) (Refunded sc)) ?Q w2" if "inv w2" "view w2 = view w" for w2
    by (rule wp_mono [OF update_plain [OF that(1)]])
      (use that id_simps [OF conjunct1 [OF library [OF assms]]] in auto)
  have "wp (and_then (bc_confirmations (mg_blockchain M) i) (\<lambda>n. and_then (if n = 0 then
      and_then (cu_get_signed_refund (mg_updater M) sc) (bc_send_transaction (mg_blockchain M)) else ret ())
      (\<lambda>_. as_update_contract (mg_store M) (Refunded sc)))) ?Q w1" for i
    by (intro same_then [OF frame_calls(3) w1(1)] same_then [OF send]) (use w1 upd in auto)
  with w1 show "wp (if ucast (tx_lock_time (ac_refund (sc_accepted_contract sc))) \<le> t then
      and_then (bc_confirmations (mg_blockchain M) (txid D (ac_refund (sc_accepted_contract sc)))) (\<lambda>n.
      and_then (if n = 0 then and_then (cu_get_signed_refund (mg_updater M) sc)
        (\<lambda>signed_refund. bc_send_transaction (mg_blockchain M) signed_refund) else ret ())
      (\<lambda>_. as_update_contract (mg_store M) (Refunded sc))) else ret ()) ?Q w1"
    by (simp add: wp_ret)
qed auto

lemma check_confirmed_one:
  assumes "inv w"
  shows "wp (check_confirmed_contract D M sc) (\<lambda>r w'. inv w' \<and> one_check D (Confirmed sc) r (view w) (view w')) w"
    (is "wp _ ?Q w")
proof -
  note ids = id_simps [OF conjunct1 [OF library [OF assms]]]
  have refund: "wp (and_then (check_refund D M sc) (\<lambda>_. ret False)) ?Q w1" if "inv w1" "view w1 = view w" for w1
    unfolding wp_and_then
    by (rule wp_mono [OF refund_law [OF that(1)]])
      (use that check_step.refund in \<open>auto simp: wp_ret one_check_def ids split: outcome.split\<close>)
  have close: "wp (and_then (cu_get_signed_cet (mg_updater M) sc ci ai ats) (\<lambda>cet.
      and_then (close_contract D M sc cet (map snd ats)) (\<lambda>c. and_then (as_update_contract (mg_store M) c) (\<lambda>_. ret True)))) ?Q w1"
    if w1: "inv w1" "view w1 = view w" for w1 ci ai ats
  proof (rule checked_same [OF frame_calls(12) w1])
    fix cet w2 assume w2: "inv w2" "view w2 = view w"
    show "wp (and_then (close_contract D M sc cet (map snd ats)) (\<lambda>c. and_then (as_update_contract (mg_store M) c) (\<lambda>_. ret True))) ?Q w2"
      unfolding wp_and_then [of "close_contract _ _ _ _ _"]
    proof (rule wp_mono [OF close_contract_law [OF w2(1)]])
      fix r :: "(dlc_contract, dlc_error) outcome" and w3
      assume r: "inv w3 \<and> view w3 = view w2 \<and> (\<forall>c. r = Ok c \<longrightarrow> check_step D (Confirmed sc) c
        \<and> get_id D c = accepted_id D (sc_accepted_contract sc) \<and> \<not> replaces c)"
      then have w3: "inv w3" "view w3 = view w" using w2 by simp_all
      have upd: "wp (and_then (as_update_contract (mg_store M) c) (\<lambda>_. ret True)) ?Q w3" if "r = Ok c" for c
        by (rule update_checked [OF w3]) (use r that in \<open>simp_all add: ids\<close>)
      show "case r of Ok c \<Rightarrow> wp (and_then (as_update_contract (mg_store M) c) (\<lambda>_. ret True)) ?Q w3
          | Err x \<Rightarrow> ?Q (Err x) w3 | Panic \<Rightarrow> ?Q Panic w3"
        using upd w3 by (cases r) (simp_all add: one_check_def)
    qed
  qed
  show ?thesis
    unfolding check_confirmed_contract_def wp_handle
  proof (rule wp_mono [OF wp_same [OF closable_same assms]])
    fix r :: "((contract_info \<times> bytes \<times> (nat \<times> attestation) list) option, dlc_error) outcome" and w1
    assume "inv w1 \<and> view w1 = view w"
    then show "case r of
        Ok closable \<Rightarrow> wp (case closable of
            Some (contract_info, adaptor_info, attestations) \<Rightarrow>
              and_then (cu_get_signed_cet (mg_updater M) sc contract_info adaptor_info attestations) (\<lambda>cet.
              and_then (close_contract D M sc cet (map snd attestations)) (\<lambda>closed_contract.
              and_then (as_update_contract (mg_store M) closed_contract) (\<lambda>_. ret True)))
          | None \<Rightarrow> and_then (check_refund D M sc) (\<lambda>_. ret False)) ?Q w1
      | Err x \<Rightarrow> wp (and_then (check_refund D M sc) (\<lambda>_. ret False)) ?Q w1 | Panic \<Rightarrow> ?Q Panic w1"
      using refund close by (auto simp: one_check_def split: outcome.split option.split)
  qed
qed

section \<open>The loops\<close>

lemma check_loop_law:
  assumes one: "\<And>c w. inv w \<Longrightarrow> wp (check c) (\<lambda>r w'. inv w' \<and> one_check D (C c) r (view w) (view w')) w"
    and ids: "\<And>c. accepted_id D (accepted_of c) = get_id D (C c)"
  shows "inv w \<Longrightarrow> distinct (map (\<lambda>c. get_id D (C c)) cs) \<Longrightarrow> (\<forall>c \<in> set cs. view w (get_id D (C c)) = Some (C c)) \<Longrightarrow>
    wp (check_loop D skip accepted_of check cs) (\<lambda>r w'. inv w' \<and> slots_checked D (view w) (view w') \<and>
      (\<forall>xs. r = Ok xs \<longrightarrow> (\<forall>x \<in> set xs. moved D (view w) (view w') (fst x)))) w"
proof (induction cs arbitrary: w)
  case Nil
  then show ?case by (simp add: wp_ret)
next
  case (Cons c cs)
  let ?loop = "check_loop D skip accepted_of check cs"
  let ?Q = "\<lambda>r w'. inv w' \<and> slots_checked D (view w) (view w') \<and>
      (\<forall>xs. r = Ok xs \<longrightarrow> (\<forall>x \<in> set xs. moved D (view w) (view w') (fst x)))"
  show ?case
  proof (cases "skip c")
    case True
    then show ?thesis using Cons by simp
  next
    case False
    have rest: "wp ?loop (\<lambda>r w'. inv w' \<and> slots_checked D (view w) (view w') \<and> slots_checked D (view w1) (view w') \<and>
        (\<forall>xs. r = Ok xs \<longrightarrow> (\<forall>x \<in> set xs. moved D (view w) (view w') (fst x)))) w1"
      if w1: "inv w1" "one_check D (C c) r (view w) (view w1)" for w1 r
    proof -
      have chk: "slots_checked D (view w) (view w1)" "\<forall>i. i \<noteq> get_id D (C c) \<longrightarrow> view w1 i = view w i"
        using one_check_slots [OF _ w1(2)] Cons.prems(3) by auto
      have "wp ?loop (\<lambda>r w'. inv w' \<and> slots_checked D (view w1) (view w') \<and>
          (\<forall>xs. r = Ok xs \<longrightarrow> (\<forall>x \<in> set xs. moved D (view w1) (view w') (fst x)))) w1"
        by (rule Cons.IH [OF w1(1)]) (use Cons.prems(2,3) chk(2) in \<open>auto simp: image_iff\<close>)
      then show ?thesis
        by (rule wp_mono) (use chk(1) in \<open>blast intro: slots_checked_trans moved_earlier\<close>)
    qed
    have quiet: "wp ?loop ?Q w1" if "inv w1" "one_check D (C c) r (view w) (view w1)" for w1 r
      by (rule wp_mono [OF rest [OF that]]) auto
    have note_it: "wp (and_then (of_outcome (oracle_event_id (accepted_of c))) (\<lambda>event_id.
        and_then ?loop (\<lambda>rest. ret ((accepted_id D (accepted_of c), event_id) # rest)))) ?Q w1"
      if w1: "inv w1" "one_check D (C c) (Ok True) (view w) (view w1)" for w1
    proof -
      have m: "slots_checked D (view w) (view w1)" "moved D (view w) (view w1) (get_id D (C c))"
        using one_check_slots [OF _ w1(2)] Cons.prems(3) by auto
      have "wp (and_then ?loop (\<lambda>rest. ret ((get_id D (C c), event_id) # rest))) ?Q w1" for event_id
        unfolding wp_and_then
        by (rule wp_mono [OF rest [OF w1]]) (use moved_later [OF m(2)] in \<open>auto simp: wp_ret split: outcome.split\<close>)
      then show ?thesis
        using m(1) w1(1) unfolding wp_and_then [of "of_outcome _"] wp_of_outcome ids
        by (auto split: outcome.split)
    qed
    have slots: "slots_checked D (view w) (view w1)" if "one_check D (C c) r (view w) (view w1)" for r w1
      using one_check_slots [OF _ that] Cons.prems(3) by auto
    show ?thesis
      unfolding check_loop.simps if_not_P [OF False] wp_handle
      by (rule wp_mono [OF one [OF Cons.prems(1)]])
        (auto split: outcome.split simp: slots intro: quiet note_it)
  qed
qed

lemma check_all_law:
  assumes list: "wp listing (\<lambda>r w'. inv w' \<and> view w' = view w \<and> (\<forall>xs. r = Ok xs \<longrightarrow> listed D (view w) C xs)) w"
    and one: "\<And>c w. inv w \<Longrightarrow> wp (check c) (\<lambda>r w'. inv w' \<and> one_check D (C c) r (view w) (view w')) w"
    and ids: "\<And>c. accepted_id D (accepted_of c) = get_id D (C c)"
  shows "wp (and_then listing (check_loop D skip accepted_of check))
    (\<lambda>r w'. inv w' \<and> slots_checked D (view w) (view w') \<and>
      (\<forall>xs. r = Ok xs \<longrightarrow> (\<forall>x \<in> set xs. moved D (view w) (view w') (fst x)))) w"
  unfolding wp_and_then
proof (rule wp_mono [OF list])
  let ?Q = "\<lambda>r w'. inv w' \<and> slots_checked D (view w) (view w') \<and>
      (\<forall>xs. r = Ok xs \<longrightarrow> (\<forall>x \<in> set xs. moved D (view w) (view w') (fst x)))"
  fix r :: "('a list, dlc_error) outcome" and w1
  assume r: "inv w1 \<and> view w1 = view w \<and> (\<forall>xs. r = Ok xs \<longrightarrow> listed D (view w) C xs)"
  have "wp (check_loop D skip accepted_of check xs) ?Q w1" if "r = Ok xs" for xs
  proof -
    have w1: "view w = view w1" using r by simp
    show ?thesis
      unfolding w1 by (rule check_loop_law [OF one ids]) (use r that in \<open>simp_all add: listed_def\<close>)
  qed
  with r show "case r of Ok xs \<Rightarrow> wp (check_loop D skip accepted_of check xs) ?Q w1
      | Err x \<Rightarrow> ?Q (Err x) w1 | Panic \<Rightarrow> ?Q Panic w1"
    by (auto split: outcome.split)
qed

lemma periodic_law:
  assumes "inv w"
  shows "wp (periodic_check D M) (\<lambda>r w'. inv w' \<and> slots_checked D (view w) (view w') \<and>
      (\<forall>xs. r = Ok xs \<longrightarrow> (\<forall>x \<in> set xs. moved D (view w) (view w') (fst x)))) w"
proof -
  let ?P = "\<lambda>w r w'. inv w' \<and> slots_checked D (view w) (view w') \<and>
      (\<forall>xs. r = Ok xs \<longrightarrow> (\<forall>x \<in> set xs. moved D (view w) (view w') (fst x)))"
  have ids: "accepted_id D (sc_accepted_contract sc) = get_id D (Signed sc)"
    "accepted_id D (sc_accepted_contract sc) = get_id D (Confirmed sc)"
    "accepted_id D ((sc_accepted_contract \<circ> pc_signed_contract) pc) = get_id D (PreClosed pc)" for sc pc
    using id_simps [OF conjunct1 [OF library [OF assms]]] by simp_all
  have signed: "wp (check_signed_contracts D M) (?P w) w"
    unfolding check_signed_contracts_def
    by (rule check_all_law [OF signed_law [OF assms] check_signed_one ids(1)])
  have confirmed: "wp (check_confirmed_contracts D M) (?P w1) w1" if "inv w1" for w1
    unfolding check_confirmed_contracts_def
    by (rule check_all_law [OF confirmed_law [OF that] check_confirmed_one ids(2)])
  have preclosed: "wp (check_preclosed_contracts D M) (?P w1) w1" if "inv w1" for w1
    unfolding check_preclosed_contracts_def
    by (rule check_all_law [OF preclosed_law [OF that] check_preclosed_one ids(3)])
  have joined: "case r of Ok ys \<Rightarrow> F ys w2 | Err x \<Rightarrow> ?P w (Err x :: ((bytes \<times> string) list, dlc_error) outcome) w2
      | Panic \<Rightarrow> ?P w (Panic :: ((bytes \<times> string) list, dlc_error) outcome) w2"
    if w1: "slots_checked D (view w) (view w1)" "\<forall>x \<in> set s. moved D (view w) (view w1) (fst x)" and r: "?P w1 r w2"
      and F: "\<And>ys. slots_checked D (view w) (view w2) \<Longrightarrow> \<forall>x \<in> set (s @ ys). moved D (view w) (view w2) (fst x) \<Longrightarrow> F ys w2"
    for F w1 w2 s and r :: "((bytes \<times> string) list, dlc_error) outcome"
  proof (cases r)
    case (Ok ys)
    have all: "slots_checked D (view w) (view w2) \<and> (\<forall>x \<in> set s \<union> set ys. moved D (view w) (view w2) (fst x))"
      by (rule reported_append [OF w1(1) _ w1(2)]) (use r Ok in simp_all)
    have "F ys w2" by (rule F) (use all in auto)
    with Ok show ?thesis by simp
  qed (use r slots_checked_trans [OF w1(1)] in simp_all)
  have last: "wp (and_then (check_preclosed_contracts D M) (\<lambda>preclosed. ret (s @ c @ preclosed))) (?P w) w2"
    if "inv w2" "slots_checked D (view w) (view w2)" "\<forall>x \<in> set (s @ c). moved D (view w) (view w2) (fst x)" for w2 s c
    unfolding wp_and_then
    by (rule wp_mono [OF preclosed [OF that(1)]], rule joined [OF that(2,3)]) (simp_all add: wp_ret)
  have middle: "wp (and_then (check_confirmed_contracts D M) (\<lambda>c. and_then (check_preclosed_contracts D M)
      (\<lambda>preclosed. ret (s @ c @ preclosed)))) (?P w) w1"
    if "inv w1" "slots_checked D (view w) (view w1)" "\<forall>x \<in> set s. moved D (view w) (view w1) (fst x)" for w1 s
    unfolding wp_and_then [of "check_confirmed_contracts D M"]
    by (rule wp_mono [OF confirmed [OF that(1)]], rule joined [OF that(2,3)]) (simp_all add: last)
  show ?thesis
    unfolding periodic_check_def wp_and_then [of "check_signed_contracts D M"]
    by (rule wp_mono [OF signed]) (auto split: outcome.split intro!: middle)
qed

end

end
