(* ===== verification/Dlc_Linked.thy ===== *)
theory Dlc_Linked
  imports Dlc_Periodic Storage_Props
begin

text \<open>
  The manager on its real store: the storage provider over the network, beside a second part
  of the world that holds wallet, chain, oracles and clock. The interpretation \<open>linked\<close> makes the
  laws of \<open>dlc_manager\<close> statements about the whole stack, from a DLC message down to the rows of
  the storage service.
\<close>

section \<open>The store in a world of two parts\<close>

lemma lift_snd_frame: "moves (frame (\<lambda>w. view (fst w)) (\<lambda>w. I (fst w) \<and> P)) (lift_snd m)"
  by (auto simp: moves_def frame_def lift_snd_def on_part_def split: prod.split)

lemma returns_lift: "returns m P \<Longrightarrow> returns (lift_snd m) P"
  unfolding returns_def lift_snd_def on_part_def by (auto split: prod.splits)

definition lift_storage :: "'s async_storage \<Rightarrow> ('s \<times> 'o) async_storage" where
  "lift_storage st = \<lparr>
     as_get_contract = (\<lambda>i. lift_fst (as_get_contract st i)),
     as_get_contracts = lift_fst (as_get_contracts st),
     as_create_contract = (\<lambda>oc. lift_fst (as_create_contract st oc)),
     as_delete_contract = (\<lambda>i. lift_fst (as_delete_contract st i)),
     as_update_contract = (\<lambda>c. lift_fst (as_update_contract st c)),
     as_get_contract_offers = lift_fst (as_get_contract_offers st),
     as_get_signed_contracts = lift_fst (as_get_signed_contracts st),
     as_get_confirmed_contracts = lift_fst (as_get_confirmed_contracts st),
     as_get_preclosed_contracts = lift_fst (as_get_preclosed_contracts st)\<rparr>"

lemma lift_storage_simps [simp]:
  "as_get_contract (lift_storage st) i = lift_fst (as_get_contract st i)"
  "as_create_contract (lift_storage st) oc = lift_fst (as_create_contract st oc)"
  "as_delete_contract (lift_storage st) i = lift_fst (as_delete_contract st i)"
  "as_update_contract (lift_storage st) c = lift_fst (as_update_contract st c)"
  "as_get_contract_offers (lift_storage st) = lift_fst (as_get_contract_offers st)"
  "as_get_signed_contracts (lift_storage st) = lift_fst (as_get_signed_contracts st)"
  "as_get_confirmed_contracts (lift_storage st) = lift_fst (as_get_confirmed_contracts st)"
  "as_get_preclosed_contracts (lift_storage st) = lift_fst (as_get_preclosed_contracts st)"
  by (simp_all add: lift_storage_def)

context contract_store begin

lemma lifted: "contract_store D (lift_storage st) (\<lambda>w. view (fst w)) (\<lambda>w. inv (fst w) \<and> P)"
proof
  fix w :: "'w \<times> 'o" and i c oc
  assume w: "inv (fst w) \<and> P"
  then have w1: "inv (fst w)" by simp
  show "view (fst w) i = Some c \<Longrightarrow> get_id D c = i" by (rule view_id [OF w1])
  show "wp (as_get_contract (lift_storage st) i) (\<lambda>r w'. (inv (fst w') \<and> P) \<and> view (fst w') = view (fst w)
      \<and> (\<forall>x. r = Ok x \<longrightarrow> x = view (fst w) i)) w"
    unfolding lift_storage_simps wp_lift by (rule wp_mono [OF get_law [OF w1]]) (use w in simp)
  show "wp (as_create_contract (lift_storage st) oc) (\<lambda>r w'. (inv (fst w') \<and> P) \<and>
       (if r = Ok () then view (fst w) (oc_id oc) = None \<and> view (fst w') = (view (fst w))(oc_id oc \<mapsto> Offered oc)
        else view (fst w') = view (fst w) \<or> view (fst w) (oc_id oc) = None \<and> view (fst w') = (view (fst w))(oc_id oc \<mapsto> Offered oc))) w"
    unfolding lift_storage_simps wp_lift by (rule wp_mono [OF create_law [OF w1]]) (use w in simp)
  show "wp (as_delete_contract (lift_storage st) i) (\<lambda>r w'. (inv (fst w') \<and> P) \<and>
       (if r = Ok () then view (fst w) i \<noteq> None \<and> view (fst w') = (view (fst w))(i := None)
        else view (fst w') = view (fst w) \<or> view (fst w') = (view (fst w))(i := None))) w"
    unfolding lift_storage_simps wp_lift by (rule wp_mono [OF delete_law [OF w1]]) (use w in simp)
  show "wp (as_update_contract (lift_storage st) c) (\<lambda>r w'. (inv (fst w') \<and> P) \<and>
       (if r = Ok () then stored D c (view (fst w)) (view (fst w'))
        else vacated D c (view (fst w)) (view (fst w')) \<or> stored D c (view (fst w)) (view (fst w')))) w"
    unfolding lift_storage_simps wp_lift by (rule wp_mono [OF update_law [OF w1]]) (use w in simp)
  show "wp (as_get_contract_offers (lift_storage st)) (\<lambda>r w'. (inv (fst w') \<and> P) \<and> view (fst w') = view (fst w)
      \<and> (\<forall>xs. r = Ok xs \<longrightarrow> listed D (view (fst w)) Offered xs)) w"
    unfolding lift_storage_simps wp_lift by (rule wp_mono [OF offers_law [OF w1]]) (use w in simp)
  show "wp (as_get_signed_contracts (lift_storage st)) (\<lambda>r w'. (inv (fst w') \<and> P) \<and> view (fst w') = view (fst w)
      \<and> (\<forall>xs. r = Ok xs \<longrightarrow> listed D (view (fst w)) Signed xs)) w"
    unfolding lift_storage_simps wp_lift by (rule wp_mono [OF signed_law [OF w1]]) (use w in simp)
  show "wp (as_get_confirmed_contracts (lift_storage st)) (\<lambda>r w'. (inv (fst w') \<and> P) \<and> view (fst w') = view (fst w)
      \<and> (\<forall>xs. r = Ok xs \<longrightarrow> listed D (view (fst w)) Confirmed xs)) w"
    unfolding lift_storage_simps wp_lift by (rule wp_mono [OF confirmed_law [OF w1]]) (use w in simp)
  show "wp (as_get_preclosed_contracts (lift_storage st)) (\<lambda>r w'. (inv (fst w') \<and> P) \<and> view (fst w') = view (fst w)
      \<and> (\<forall>xs. r = Ok xs \<longrightarrow> listed D (view (fst w)) PreClosed xs)) w"
    unfolding lift_storage_simps wp_lift by (rule wp_mono [OF preclosed_law [OF w1]]) (use w in simp)
qed

end

section \<open>The linked manager\<close>

definition lift_oracle :: "'o async_oracle \<Rightarrow> ('s \<times> 'o) async_oracle" where
  "lift_oracle orc = \<lparr>or_get_announcement = (\<lambda>i. lift_snd (or_get_announcement orc i)),
     or_get_attestation = (\<lambda>i. lift_snd (or_get_attestation orc i))\<rparr>"

definition lift_blockchain :: "'o async_blockchain \<Rightarrow> ('s \<times> 'o) async_blockchain" where
  "lift_blockchain b = \<lparr>bc_confirmations = (\<lambda>t. lift_snd (bc_confirmations b t)),
     bc_send_transaction = (\<lambda>t. lift_snd (bc_send_transaction b t)), bc_get_network = lift_snd (bc_get_network b)\<rparr>"

definition lift_updater :: "'o contract_updater \<Rightarrow> ('s \<times> 'o) contract_updater" where
  "lift_updater u = \<lparr>
     cu_validate_input = cu_validate_input u, cu_validate_offered = cu_validate_offered u,
     cu_validate_offer = cu_validate_offer u, cu_try_from_offer_dlc = cu_try_from_offer_dlc u,
     cu_offer_contract = (\<lambda>a b c d f g. lift_snd (cu_offer_contract u a b c d f g)),
     cu_accept_contract = (\<lambda>oc. lift_snd (cu_accept_contract u oc)),
     cu_verify_accepted_and_sign = (\<lambda>oc a. lift_snd (cu_verify_accepted_and_sign u oc a)),
     cu_verify_signed = (\<lambda>ac s. lift_snd (cu_verify_signed u ac s)),
     cu_get_signed_cet = (\<lambda>c i a ts. lift_snd (cu_get_signed_cet u c i a ts)),
     cu_get_signed_refund = (\<lambda>c. lift_snd (cu_get_signed_refund u c)),
     cu_debug_peer = cu_debug_peer u, cu_debug_contract = cu_debug_contract u\<rparr>"

text \<open>The store of \<open>N\<close> is not used: the linked manager's store is the given one.\<close>

definition link_manager :: "'s async_storage \<Rightarrow> 'o Manager \<Rightarrow> ('s \<times> 'o) Manager" where
  "link_manager st N = \<lparr>
     mg_oracles = map_option (\<lambda>os k. map_option lift_oracle (os k)) (mg_oracles N),
     mg_store = lift_storage st, mg_blockchain = lift_blockchain (mg_blockchain N),
     mg_import_address = (\<lambda>s n. lift_snd (mg_import_address N s n)),
     mg_updater = lift_updater (mg_updater N), mg_http_get_json = (\<lambda>p. lift_snd (mg_http_get_json N p))\<rparr>"

lemma lift_updater_ok: "updater_ok u \<Longrightarrow> updater_ok (lift_updater u)"
  by (simp add: updater_ok_def lift_updater_def returns_lift)

lemma link_surroundings:
  "surroundings_ok (\<lambda>w. view (fst w)) (\<lambda>w. I (fst w) \<and> P) (link_manager st N)"
  by (auto simp: surroundings_move_def link_manager_def lift_oracle_def lift_blockchain_def lift_updater_def
      Let_def lift_snd_frame)

abbreviation stack_manager :: "web_ext \<Rightarrow> dlc_ext \<Rightarrow> string \<Rightarrow> string \<Rightarrow> bytes \<Rightarrow> 'o Manager \<Rightarrow> (link \<times> 'o) Manager" where
  "stack_manager e D host key sk N \<equiv> link_manager (provider_storage e D (link_provider e host key sk)) N"

interpretation linked: dlc_manager D "stack_manager e D host key sk N" "\<lambda>w. store_view e D key (fst w)"
    "\<lambda>w. store_inv e D key (fst w) \<and> updater_ok (mg_updater N)"
  for e D host key sk and N :: "'o Manager"
proof (intro dlc_manager.intro dlc_manager_axioms.intro)
  have store: "mg_store (stack_manager e D host key sk N) = lift_storage (provider_storage e D (link_provider e host key sk))"
    by (simp add: link_manager_def)
  show "contract_store D (mg_store (stack_manager e D host key sk N)) (\<lambda>w. store_view e D key (fst w))
      (\<lambda>w. store_inv e D key (fst w) \<and> updater_ok (mg_updater N))"
    unfolding store by (rule provider.lifted)
  show "surroundings_ok (\<lambda>w. store_view e D key (fst w)) (\<lambda>w. store_inv e D key (fst w) \<and> updater_ok (mg_updater N))
      (stack_manager e D host key sk N)"
    by (rule link_surroundings)
  show "dlc_ok D \<and> updater_ok (mg_updater (stack_manager e D host key sk N))"
    if "store_inv e D key (fst w) \<and> updater_ok (mg_updater N)" for w :: "link \<times> 'o"
    using that by (auto simp: link_manager_def lift_updater_ok intro: store_invD(2))
qed

end
