(* ===== verification/Dlc_Props.thy ===== *)
theory Dlc_Props
  imports Dlc_Linked
begin

text \<open>
  Properties of the DLC manager on its linked store: which moves a contract can make, who can
  cause them, and what has to hold on the chain, at the oracles and on the clock for them.
\<close>

section \<open>A manager for the witnesses\<close>

definition null_storage :: "'w async_storage" where
  "null_storage = \<lparr>as_get_contract = (\<lambda>_. throw (StorageError ''none'')), as_get_contracts = throw (StorageError ''none''),
     as_create_contract = (\<lambda>_. throw (StorageError ''none'')), as_delete_contract = (\<lambda>_. throw (StorageError ''none'')),
     as_update_contract = (\<lambda>_. throw (StorageError ''none'')), as_get_contract_offers = throw (StorageError ''none''),
     as_get_signed_contracts = throw (StorageError ''none''), as_get_confirmed_contracts = throw (StorageError ''none''),
     as_get_preclosed_contracts = throw (StorageError ''none'')\<rparr>"

text \<open>Its world is the list of the transactions it broadcast.\<close>

definition demo_oracle :: "transaction list async_oracle" where
  "demo_oracle = \<lparr>or_get_announcement = (\<lambda>_. ret demo_announcement),
     or_get_attestation = (\<lambda>_. ret \<lparr>att_oracle_public_key = [5], att_signatures = [[1]], att_outcomes = [''a'']\<rparr>)\<rparr>"

definition demo_offer_of :: "bytes \<Rightarrow> bytes \<Rightarrow> offered_contract" where
  "demo_offer_of i p = demo_offer\<lparr>oc_id := i, oc_counter_party := p\<rparr>"

definition demo_updater :: "transaction list contract_updater" where
  "demo_updater = \<lparr>
     cu_validate_input = (\<lambda>_. Ok ()), cu_validate_offered = (\<lambda>_. Ok ()), cu_validate_offer = (\<lambda>_ _ _. Ok ()),
     cu_try_from_offer_dlc = (\<lambda>o' p. Ok (demo_offer_of (od_temporary_contract_id o') p)),
     cu_offer_contract = (\<lambda>_ _ _ _ _ _. ret (demo_offer, \<lparr>od_temporary_contract_id = [1], od_rest = []\<rparr>)),
     cu_accept_contract = (\<lambda>oc. ret (demo_accepted\<lparr>ac_offered_contract := oc\<rparr>, \<lparr>ad_temporary_contract_id = oc_id oc, ad_rest = []\<rparr>)),
     cu_verify_accepted_and_sign = (\<lambda>oc a. ret (demo_signed_contract\<lparr>sc_accepted_contract := demo_accepted\<lparr>ac_offered_contract := oc\<rparr>\<rparr>,
       \<lparr>sd_contract_id = 2 # oc_id oc, sd_rest = []\<rparr>)),
     cu_verify_signed = (\<lambda>ac s. ret (demo_signed_contract\<lparr>sc_accepted_contract := ac\<rparr>, ac_fund ac)),
     cu_get_signed_cet = (\<lambda>_ _ _ _. ret demo_tx), cu_get_signed_refund = (\<lambda>_. ret demo_tx),
     cu_debug_peer = (\<lambda>_ _. ''peer''), cu_debug_contract = (\<lambda>_. ''contract'')\<rparr>"

definition demo_manager :: "u32 \<Rightarrow> int \<Rightarrow> transaction list Manager" where
  "demo_manager confirmations time = \<lparr>
     mg_oracles = Some (\<lambda>k. if k = [5] then Some demo_oracle else None),
     mg_store = null_storage,
     mg_blockchain = \<lparr>bc_confirmations = (\<lambda>_. ret confirmations), bc_send_transaction = (\<lambda>tx txs. (Ok (), txs @ [tx])),
       bc_get_network = ret ''regtest''\<rparr>,
     mg_import_address = (\<lambda>_ _. ret ()),
     mg_updater = demo_updater,
     mg_http_get_json = (\<lambda>_. ret (JObj [(''unixtime'', JNum time)]))\<rparr>"

lemma demo_updater_ok: "updater_ok (mg_updater (demo_manager n t))"
  by (auto simp: updater_ok_def returns_def demo_manager_def demo_updater_def ret_def demo_offer_of_def)

section \<open>Legal moves\<close>

text \<open>A call of the manager by the wallet, and a run of several.\<close>

datatype manager_call =
    HandleMessage dlc_message bytes
  | SendOffer contract_input bytes u32 u64 bytes
  | AcceptOffer bytes
  | PeriodicCheck

fun manager_effect :: "dlc_ext \<Rightarrow> 'w Manager \<Rightarrow> manager_call \<Rightarrow> 'w \<Rightarrow> 'w" where
  "manager_effect D M (HandleMessage msg cp) w = snd (on_dlc_message D M msg cp w)"
| "manager_effect D M (SendOffer ci cp delay bp fee) w = snd (send_offer M ci cp delay bp fee w)"
| "manager_effect D M (AcceptOffer i) w = snd (accept_contract_offer D M i w)"
| "manager_effect D M PeriodicCheck w = snd (periodic_check D M w)"

text \<open>
  C3. Any sequence of calls to the manager over the linked storage service, under any losses of
  the network, faults of the database and answers of the chain, the oracles and the wallet,
  keeps the store well formed and only moves contracts along their life cycle: an offer into a
  free slot; an offered contract to accepted, signed or failed by its own acceptance; an
  accepted one to signed or failed; signed, confirmed and pre-closed ones along the checks.
\<close>

theorem manager_history:
  assumes "store_inv e D key (fst w)" "updater_ok (mg_updater N)"
  shows "let w' = fold (manager_effect D (stack_manager e D host key sk N)) calls w
    in store_inv e D key (fst w') \<and> life D (store_view e D key (fst w)) (store_view e D key (fst w'))"
proof -
  let ?M = "stack_manager e D host key sk N" and ?v = "\<lambda>w. store_view e D key (fst w)"
  have one: "store_inv e D key (fst (manager_effect D ?M call w))
      \<and> life D (?v w) (?v (manager_effect D ?M call w))"
    if "store_inv e D key (fst w)" for call w
  proof -
    have i: "store_inv e D key (fst w) \<and> updater_ok (mg_updater N)" using that assms(2) by simp
    show ?thesis
      using linked.on_message_goes [OF i] linked.send_offer_goes [OF i] linked.accept_offer_goes [OF i] linked.periodic_law [OF i]
      by (cases call) (auto simp: wp_def intro: life_steps life_checks)
  qed
  have "store_inv e D key (fst (fold (manager_effect D ?M) calls w))
      \<and> life D (?v w) (?v (fold (manager_effect D ?M) calls w))"
    using assms(1)
  proof (induction calls arbitrary: w)
    case (Cons call calls)
    then show ?case using one [of w call] life_trans by fastforce
  qed simp
  then show ?thesis by (simp add: Let_def)
qed

theorem manager_history_witness:
  "let w' = fold (manager_effect ref_dlc (stack_manager ref_web ref_dlc ''h'' ''k'' [7] (demo_manager 0 0)))
       [HandleMessage (OfferMsg \<lparr>od_temporary_contract_id = [1], od_rest = []\<rparr>) [3], AcceptOffer [1], PeriodicCheck] (demo_link, [])
   in life ref_dlc (store_view ref_web ref_dlc ''k'' demo_link) (store_view ref_web ref_dlc ''k'' (fst w'))"
  using manager_history [of ref_web ref_dlc "''k''" "(demo_link, [])" "demo_manager 0 0" "''h''" "[7]"
      "[HandleMessage (OfferMsg \<lparr>od_temporary_contract_id = [1], od_rest = []\<rparr>) [3], AcceptOffer [1], PeriodicCheck]"]
  by (simp add: demo_store_inv demo_updater_ok Let_def)

text \<open>
  C4. The periodic check creates and removes no record; each contract moves along signed,
  confirmed, pre-closed, closed (or confirmed to refunded), with its id kept; and every contract
  it reports to the wallet has moved.
\<close>

theorem periodic_check_slots:
  assumes "store_inv e D key (fst w)" "updater_ok (mg_updater N)"
    and "periodic_check D (stack_manager e D host key sk N) w = (r, w')"
  shows "(\<forall>i. rel_option (check_step D)\<^sup>*\<^sup>* (store_view e D key (fst w) i) (store_view e D key (fst w') i)) \<and>
    (\<forall>xs. r = Ok xs \<longrightarrow> (\<forall>x \<in> set xs. moved D (store_view e D key (fst w)) (store_view e D key (fst w')) (fst x)))"
  using wp_run [OF linked.periodic_law assms(3)] assms(1,2) unfolding slots_checked_def by blast

theorem periodic_check_slots_witness:
  "let w' = snd (periodic_check ref_dlc (stack_manager ref_web ref_dlc ''h'' ''k'' [7] (demo_manager 6 0))
       (demo_link_with (Signed demo_signed_contract) 3, []))
   in \<exists>c. store_view ref_web ref_dlc ''k'' (fst w') [2, 1] = Some c \<and> (check_step ref_dlc)\<^sup>*\<^sup>* (Signed demo_signed_contract) c"
proof -
  let ?w = "(demo_link_with (Signed demo_signed_contract) 3, [])"
  obtain r w' where run: "periodic_check ref_dlc (stack_manager ref_web ref_dlc ''h'' ''k'' [7] (demo_manager 6 0)) ?w = (r, w')"
    by (rule prod.exhaust)
  have id: "get_id ref_dlc (Signed demo_signed_contract) = [2, 1]"
    by (simp add: ref_dlc_def ref_accepted_id_def demo_signed_contract_def demo_accepted_def demo_offer_def)
  have "rel_option (check_step ref_dlc)\<^sup>*\<^sup>* (store_view ref_web ref_dlc ''k'' (fst ?w) [2, 1]) (store_view ref_web ref_dlc ''k'' (fst w') [2, 1])"
    using periodic_check_slots [OF _ demo_updater_ok run] demo_with(1) [OF demo_encoded(2)] by simp
  with demo_with(2) [OF demo_encoded(2), unfolded id] run show ?thesis
    by (auto simp: option_rel_Some1)
qed

section \<open>Messages\<close>

text \<open>
  C5. An accept or a sign message from anyone but the counter party of the contract it names is
  answered with an error and changes no stored contract.
\<close>

theorem foreign_message_ignored:
  assumes "store_inv e D key (fst w)" "updater_ok (mg_updater N)"
    and "msg = AcceptMsg am \<and> i = ad_temporary_contract_id am \<or> msg = SignMsg sm \<and> i = sd_contract_id sm"
    and "store_view e D key (fst w) i = Some c" "get_counter_party_id D c \<noteq> cp"
    and "on_dlc_message D (stack_manager e D host key sk N) msg cp w = (r, w')"
  shows "\<not> is_ok r \<and> store_view e D key (fst w') = store_view e D key (fst w)"
proof -
  let ?M = "stack_manager e D host key sk N"
  let ?Q = "\<lambda>r w'. (store_inv e D key (fst w') \<and> updater_ok (mg_updater N)) \<and> store_view e D key (fst w') = store_view e D key (fst w)
      \<and> \<not> is_ok r"
  have i: "store_inv e D key (fst w) \<and> updater_ok (mg_updater N)" using assms(1,2) by simp
  have other: "\<And>c. store_view e D key (fst w) i = Some c \<Longrightarrow> get_counter_party_id D c \<noteq> cp" using assms(4,5) by simp
  have "wp (on_dlc_message D ?M msg cp) (\<lambda>r w'. store_view e D key (fst w') = store_view e D key (fst w) \<and> \<not> is_ok r) w"
    using assms(3)
  proof (elim disjE conjE)
    assume m: "msg = AcceptMsg am" "i = ad_temporary_contract_id am"
    show ?thesis
      unfolding m(1) on_dlc_message.simps wp_and_then
      by (rule wp_mono [OF linked.foreign_message(1) [OF i other m(2)]]) (auto split: outcome.split)
  next
    assume m: "msg = SignMsg sm" "i = sd_contract_id sm"
    show ?thesis
      unfolding m(1) on_dlc_message.simps wp_and_then
      by (rule wp_mono [OF linked.foreign_message(2) [OF i other m(2)]]) (auto split: outcome.split)
  qed
  from wp_run [OF this assms(6)] show ?thesis by simp
qed

theorem foreign_message_ignored_witness:
  "\<not> is_ok (fst (on_dlc_message ref_dlc (stack_manager ref_web ref_dlc ''h'' ''k'' [7] (demo_manager 0 0))
     (AcceptMsg \<lparr>ad_temporary_contract_id = [1], ad_rest = []\<rparr>) [9] (demo_link_with (Offered demo_offer) 1, [])))"
proof -
  let ?am = "\<lparr>ad_temporary_contract_id = [1], ad_rest = []\<rparr>" and ?w = "(demo_link_with (Offered demo_offer) 1, [])"
  obtain r w' where run: "on_dlc_message ref_dlc (stack_manager ref_web ref_dlc ''h'' ''k'' [7] (demo_manager 0 0))
      (AcceptMsg ?am) [9] ?w = (r, w')" by (rule prod.exhaust)
  have id: "get_id ref_dlc (Offered demo_offer) = [1]" by (simp add: ref_dlc_def demo_offer_def)
  have cp: "get_counter_party_id ref_dlc (Offered demo_offer) \<noteq> [9]" by (simp add: ref_dlc_def demo_offer_def)
  have "\<not> is_ok r"
    using foreign_message_ignored [where am = ?am and i = "[1]", OF _ demo_updater_ok _ _ cp run]
      demo_with [OF demo_encoded(1), unfolded id] by simp
  with run show ?thesis by simp
qed

text \<open>
  C6. An offer under a temporary id that is already stored is refused, and the stored contract
  stays as it is.
\<close>

theorem repeated_offer_refused:
  assumes "store_inv e D key (fst w)" "updater_ok (mg_updater N)"
    and "store_view e D key (fst w) (od_temporary_contract_id o') \<noteq> None"
    and "on_dlc_message D (stack_manager e D host key sk N) (OfferMsg o') cp w = (r, w')"
  shows "\<not> is_ok r \<and> store_view e D key (fst w') = store_view e D key (fst w)"
proof -
  have i: "store_inv e D key (fst w) \<and> updater_ok (mg_updater N)" using assms(1,2) by simp
  have "wp (on_dlc_message D (stack_manager e D host key sk N) (OfferMsg o') cp)
      (\<lambda>r w'. store_view e D key (fst w') = store_view e D key (fst w) \<and> \<not> is_ok r) w"
    unfolding on_dlc_message.simps wp_and_then
    by (rule wp_mono [OF linked.on_offer_existing [OF i assms(3)]]) (auto split: outcome.split)
  from wp_run [OF this assms(4)] show ?thesis by simp
qed

theorem repeated_offer_refused_witness:
  "\<not> is_ok (fst (on_dlc_message ref_dlc (stack_manager ref_web ref_dlc ''h'' ''k'' [7] (demo_manager 0 0))
     (OfferMsg \<lparr>od_temporary_contract_id = [1], od_rest = []\<rparr>) [9] (demo_link_with (Offered demo_offer) 1, [])))"
proof -
  let ?o = "\<lparr>od_temporary_contract_id = [1], od_rest = []\<rparr>" and ?w = "(demo_link_with (Offered demo_offer) 1, [])"
  obtain r w' where run: "on_dlc_message ref_dlc (stack_manager ref_web ref_dlc ''h'' ''k'' [7] (demo_manager 0 0))
      (OfferMsg ?o) [9] ?w = (r, w')" by (rule prod.exhaust)
  have id: "get_id ref_dlc (Offered demo_offer) = [1]" by (simp add: ref_dlc_def demo_offer_def)
  have "\<not> is_ok r"
    using repeated_offer_refused [OF _ demo_updater_ok _ run] demo_with [OF demo_encoded(1), unfolded id] by simp
  with run show ?thesis by simp
qed

end
