(* ===== verification/Dlc_Chain_Props.thy ===== *)
theory Dlc_Chain_Props
  imports Dlc_Props
begin

text \<open>
  What the manager's periodic checks demand of the world outside: depth on the chain, the
  oracles' attestations, the time of the clock.
\<close>

section \<open>Depth on the chain\<close>

text \<open>
  A signed contract becomes confirmed, and is reported so, exactly when the chain gives its
  funding transaction six confirmations or more and the store accepts the update; with fewer
  confirmations nothing is written.
\<close>

theorem confirmed_after_six:
  "check_signed_contract D M sc w = (Ok b, w') \<longleftrightarrow>
     (\<exists>n w1. bc_confirmations (mg_blockchain M) (txid D (ac_fund (sc_accepted_contract sc))) w = (Ok n, w1)
        \<and> (if 6 \<le> unat n then b \<and> as_update_contract (mg_store M) (Confirmed sc) w1 = (Ok (), w')
           else \<not> b \<and> w' = w1))"
  by (auto simp: check_signed_contract_def and_then_Ok ret_run NB_CONFIRMATIONS_def word_le_nat_alt split: if_splits)

text \<open>
  C9. Closing with a signed contract execution transaction: it is broadcast only while the
  chain does not know it, the contract is pre-closed below six confirmations, and closed, with
  its ids, its counter party and the profit computed from that transaction, from six on.
\<close>

theorem closing_by_depth:
  assumes "close_contract D M sc cet ats w = (Ok c, w')"
  shows "\<exists>n w1. bc_confirmations (mg_blockchain M) (txid D cet) w = (Ok n, w1) \<and>
    (if n = 0 then bc_send_transaction (mg_blockchain M) cet w1 = (Ok (), w') else w' = w1) \<and>
    (if unat n < 6 then c = PreClosed \<lparr>pc_signed_contract = sc, pc_attestations = Some ats, pc_signed_cet = cet\<rparr>
     else \<exists>cl. c = Closed cl \<and> cl_signed_cet cl = Some cet \<and> cl_attestations cl = Some ats
       \<and> cl_contract_id cl = accepted_id D (sc_accepted_contract sc)
       \<and> cl_counter_party_id cl = oc_counter_party (offered_of sc)
       \<and> cl_pnl cl = compute_pnl D (sc_accepted_contract sc) cet)"
proof -
  have small: "n < 1 \<longleftrightarrow> n = 0" "n < 6 \<longleftrightarrow> unat n < 6" for n :: u32
    by (simp_all add: word_less_nat_alt unat_eq_0)
  show ?thesis
    using assms unfolding close_contract_def and_then_Ok
    by (auto simp: NB_CONFIRMATIONS_def Let_def and_then_Ok ret_run small split: if_splits)
qed

theorem closing_by_depth_witness:
  "\<exists>n w1. bc_confirmations (mg_blockchain (demo_manager 7 0)) (txid ref_dlc demo_tx) [] = (Ok n, w1) \<and> 6 \<le> unat n
     \<and> (\<exists>cl. close_contract ref_dlc (demo_manager 7 0) demo_signed_contract demo_tx [] [] = (Ok (Closed cl), [])
          \<and> cl_counter_party_id cl = [3])"
proof -
  obtain c where run: "close_contract ref_dlc (demo_manager 7 0) demo_signed_contract demo_tx [] [] = (Ok c, [])"
    by (simp add: close_contract_def demo_manager_def NB_CONFIRMATIONS_def and_then_def ret_def)
  from closing_by_depth [OF run] run show ?thesis
    by (auto simp: demo_manager_def ret_def demo_signed_contract_def demo_accepted_def demo_offer_def)
qed

section \<open>Attestations\<close>

text \<open>An attestation of the list comes from the oracle registered for its announcement.\<close>

definition attested :: "dlc_ext \<Rightarrow> (bytes \<rightharpoonup> 'w async_oracle) \<Rightarrow> announcement list \<Rightarrow> nat \<times> attestation \<Rightarrow> bool" where
  "attested D os anns ia \<longleftrightarrow> (case ia of (i, a) \<Rightarrow> i < length anns \<and>
     (\<exists>orc w w'. os (ann_oracle_public_key (anns ! i)) = Some orc
        \<and> or_get_attestation orc (oe_event_id (ann_oracle_event (anns ! i))) w = (Ok a, w')))"

lemma attest_one_Ok:
  assumes "attest_one D os ia w = (Ok y, w')"
  shows "fst y = fst ia \<and> (\<exists>orc. os (ann_oracle_public_key (snd ia)) = Some orc \<and>
     or_get_attestation orc (oe_event_id (ann_oracle_event (snd ia))) w = (Ok (snd y), w'))"
  using assms unfolding attest_one_def
  by (cases "os (ann_oracle_public_key (snd ia))")
    (auto simp: and_then_Ok ret_run throw_def map_err_def handle_def split: prod.splits outcome.splits)

lemma join_attested:
  assumes "join_ok (attest_one D os) xs w = (Ok ys, w')" "\<forall>x \<in> set xs. fst x < length anns \<and> anns ! fst x = snd x"
    and "sorted_wrt (<) (map fst xs)"
  shows "(\<forall>y \<in> set ys. attested D os anns y) \<and> sorted_wrt (<) (map fst ys) \<and> fst ` set ys \<subseteq> fst ` set xs"
  using assms
proof (induction xs arbitrary: w ys)
  case Nil
  then show ?case by (simp add: ret_run)
next
  case (Cons x xs)
  obtain r w1 where r: "attest_one D os x w = (r, w1)" by (rule prod.exhaust)
  show ?case
  proof (cases r)
    case (Ok y)
    then obtain ys' where ys: "ys = y # ys'" "join_ok (attest_one D os) xs w1 = (Ok ys', w')"
      using Cons.prems(1) r by (auto simp: handle_def and_then_Ok ret_run)
    have y: "fst y = fst x" "attested D os anns y"
      using attest_one_Ok [of D os x w y w1] r Ok Cons.prems(2) by (auto simp: attested_def case_prod_beta)
    have tail: "\<forall>y \<in> set ys'. attested D os anns y" "sorted_wrt (<) (map fst ys')" "fst ` set ys' \<subseteq> fst ` set xs"
      using Cons.IH [OF ys(2)] Cons.prems(2,3) by auto
    have "fst x < fst z" if "z \<in> set ys'" for z
    proof -
      have "fst z \<in> fst ` set xs" using tail(3) that by blast
      with Cons.prems(3) show ?thesis by auto
    qed
    with tail y ys(1) show ?thesis by (auto simp del: split_paired_All)
  next
    case (Err e)
    then have "join_ok (attest_one D os) xs w1 = (Ok ys, w')" using Cons.prems(1) r by (simp add: handle_def)
    from Cons.IH [OF this] Cons.prems(2,3) show ?thesis by auto
  next
    case Panic
    then show ?thesis using Cons.prems(1) r by (simp add: handle_def)
  qed
qed

lemma enumerate_members: "x \<in> set (List.enumerate 0 xs) \<Longrightarrow> fst x < length xs \<and> xs ! fst x = snd x"
  by (auto simp: in_set_enumerate_eq)

lemma closable_sound:
  "closable_loop D os cs w = (Ok (Some (ci, ai, ats)), w') \<Longrightarrow>
     (ci, ai) \<in> set cs \<and> ci_threshold ci \<le> length ats \<and> sorted_wrt (<) (map fst ats) \<and>
     (\<forall>y \<in> set ats. attested D os (ci_oracle_announcements ci) y)"
proof (induction cs arbitrary: w)
  case Nil
  then show ?case by (simp add: ret_run)
next
  case (Cons c cs)
  obtain ci0 ai0 where c: "c = (ci0, ai0)" by (rule prod.exhaust)
  let ?anns = "List.enumerate 0 (ci_oracle_announcements ci0)"
  have rest: ?case if "closable_loop D os cs w1 = (Ok (Some (ci, ai, ats)), w')" for w1
    using Cons.IH [OF that] by simp
  show ?case
  proof (cases "ci_threshold ci0 \<le> length ?anns")
    case True
    then obtain as w1 where as: "join_ok (attest_one D os) ?anns w = (Ok as, w1)"
      "(if ci_threshold ci0 \<le> length as then ret (Some (ci0, ai0, as)) else closable_loop D os cs) w1 = (Ok (Some (ci, ai, ats)), w')"
      using Cons.prems by (auto simp: c Let_def and_then_Ok)
    have "sorted_wrt (<) (map fst ?anns)" by simp
    note join = join_attested [OF as(1) ballI [OF enumerate_members] this]
    show ?thesis
    proof (cases "ci_threshold ci0 \<le> length as")
      case True
      with as(2) join show ?thesis by (simp add: ret_run c)
    next
      case False
      with as(2) rest show ?thesis by simp
    qed
  next
    case False
    with Cons.prems rest show ?thesis by (simp add: c Let_def)
  qed
qed

text \<open>
  C7. A contract is only closed with at least as many attestations as its threshold, each of a
  different announcement of one of its contract infos, obtained from the oracle registered
  under the announcement's key for the announced event; and the adaptor info is the one of that
  contract info.
\<close>

theorem closable_attested:
  assumes "get_closable_contract_info D M sc w = (Ok (Some (ci, ai, ats)), w')"
  shows "\<exists>os. mg_oracles M = Some os \<and>
    (ci, ai) \<in> set (zip (oc_contract_info (offered_of sc)) (ac_adaptor_infos (sc_accepted_contract sc))) \<and>
    ci_threshold ci \<le> length ats \<and> distinct (map fst ats) \<and>
    (\<forall>y \<in> set ats. attested D os (ci_oracle_announcements ci) y)"
proof (cases "mg_oracles M")
  case (Some os)
  with assms have "closable_loop D os (zip (oc_contract_info (offered_of sc)) (ac_adaptor_infos (sc_accepted_contract sc))) w
      = (Ok (Some (ci, ai, ats)), w')"
    by (simp add: get_closable_contract_info_def)
  from closable_sound [OF this] Some show ?thesis by (auto simp: strict_sorted_iff)
qed (use assms in \<open>simp add: get_closable_contract_info_def throw_def\<close>)

theorem closable_attested_witness:
  "\<exists>ats. get_closable_contract_info ref_dlc (demo_manager 0 0) demo_signed_contract [] = (Ok (Some (demo_info, [9], ats)), [])
     \<and> ci_threshold demo_info \<le> length ats \<and> length ats = 1"
proof -
  obtain ats where run: "get_closable_contract_info ref_dlc (demo_manager 0 0) demo_signed_contract []
      = (Ok (Some (demo_info, [9], ats)), [])" and len: "length ats = 1"
    by (simp add: get_closable_contract_info_def demo_manager_def demo_signed_contract_def demo_accepted_def demo_offer_def
        demo_info_def demo_announcement_def attest_one_def demo_oracle_def Let_def and_then_def handle_def ret_def map_err_def)
  with closable_attested [OF run] show ?thesis by blast
qed

section \<open>Refunds\<close>

text \<open>
  C8. A refund is only recorded when the clock has passed the lock time of the refund
  transaction; the record that changes is the contract's own.
\<close>

theorem refund_after_lock_time:
  assumes "store_inv e D key (fst w)" "updater_ok (mg_updater N)"
    and "check_refund D (stack_manager e D host key sk N) sc w = (r, w')"
    and "store_view e D key (fst w') \<noteq> store_view e D key (fst w)"
  shows "\<exists>t w1. get_unixtime D (stack_manager e D host key sk N) w = (Ok t, w1)
    \<and> unat (tx_lock_time (ac_refund (sc_accepted_contract sc))) \<le> unat t
    \<and> store_view e D key (fst w') = (store_view e D key (fst w))(accepted_id D (sc_accepted_contract sc) \<mapsto> Refunded sc)"
proof -
  let ?M = "stack_manager e D host key sk N" and ?lock = "tx_lock_time (ac_refund (sc_accepted_contract sc))"
  have i: "store_inv e D key (fst w) \<and> updater_ok (mg_updater N)" using assms(1,2) by simp
  obtain a w1 where time: "get_unixtime D ?M w = (a, w1)" by (rule prod.exhaust)
  have same: "store_view e D key (fst w1) = store_view e D key (fst w)"
    using wp_run [OF linked.wp_same [OF linked.unixtime_same i] time] by simp
  have "\<exists>t. a = Ok t \<and> ucast ?lock \<le> t"
    using assms(3,4) time same
    by (cases a) (auto simp: check_refund_def and_then_def Let_def ret_def split: if_splits)
  then obtain t where t: "a = Ok t" "(ucast ?lock :: u64) \<le> t" by blast
  have "unat (ucast ?lock :: u64) = unat ?lock" 
    using unsigned_less [of ?lock, where ?'a = nat] by (simp add: unsigned_ucast_eq take_bit_nat_eq_self)
  with t(2) have "unat ?lock \<le> unat t" by (simp add: word_le_nat_alt)
  with t(1) time wp_run [OF linked.refund_law [OF i] assms(3)] assms(4) show ?thesis by auto
qed

theorem refund_after_lock_time_witness:
  "\<exists>t w1. get_unixtime ref_dlc (stack_manager ref_web ref_dlc ''h'' ''k'' [7] (demo_manager 1 600))
       (demo_link_with (Confirmed demo_signed_contract) 4, []) = (Ok t, w1) \<and> 500 \<le> unat t"
proof -
  let ?w = "(demo_link_with (Confirmed demo_signed_contract) 4, [])"
  let ?run = "check_refund ref_dlc (stack_manager ref_web ref_dlc ''h'' ''k'' [7] (demo_manager 1 600)) demo_signed_contract ?w"
  have enc: "encode_contract ref_web ref_dlc (Confirmed demo_signed_contract) = Ok (text_of [4])"
    by (simp add: encode_contract_def serialize_contract_def ref_dlc_def get_prefix_def)
  have "store_view ref_web ref_dlc ''k'' (fst (snd ?run)) (get_id ref_dlc (Confirmed demo_signed_contract))
      = Some (Refunded demo_signed_contract)"
    by code_simp
  then have changed: "store_view ref_web ref_dlc ''k'' (fst (snd ?run)) \<noteq> store_view ref_web ref_dlc ''k'' (fst ?w)"
    using demo_with(2) [OF enc] by auto
  have lock: "unat (tx_lock_time (ac_refund (sc_accepted_contract demo_signed_contract))) = 500"
    by (simp add: demo_signed_contract_def demo_accepted_def demo_tx_def)
  have inv: "store_inv ref_web ref_dlc ''k'' (fst ?w)" using demo_with(1) [OF enc] by simp
  obtain r w' where run: "?run = (r, w')" by (rule prod.exhaust)
  from changed have "store_view ref_web ref_dlc ''k'' (fst w') \<noteq> store_view ref_web ref_dlc ''k'' (fst ?w)"
    unfolding run snd_conv .
  from refund_after_lock_time [OF inv demo_updater_ok run this, unfolded lock] show ?thesis by blast
qed

end
