(* ===== verification/Esplora.thy ===== *)
theory Esplora
  imports Dlc_Manager Rust_Int
begin

text \<open>
  The chain access of the two wallets over an Esplora server:
  \<open>esplora-async-blockchain-provider-router-wallet/src/lib.rs\<close> and
  \<open>esplora-async-blockchain-provider-js-wallet/src/lib.rs\<close>. The latter keeps a cache of the
  unspent outputs of one address and of their transactions, filled by \<open>refresh_chain_data\<close>.
  HTTP, the bdk Esplora client and the parsers of the bitcoin crate are the fields of
  \<open>esplora_ext\<close>. A lock that is poisoned, or a cell borrowed twice, does not occur: the
  operations run one after the other.
\<close>

section \<open>The server and its answers\<close>

record tx_status =
  ts_confirmed :: bool
  ts_block_height :: "u32 option"

record 'w esplora_ext =
  es_http_get :: "string \<Rightarrow> ('w, bytes, string) io"
  es_read_body :: "bytes \<Rightarrow> (bytes, string) outcome"
  es_get_height :: "('w, u32, string) io"
  es_broadcast :: "transaction \<Rightarrow> ('w, unit, string) io"
  es_json :: "bytes \<Rightarrow> json option"
  es_json_error :: "bytes \<Rightarrow> string"
  es_tx_status :: "bytes \<Rightarrow> (tx_status, string) outcome"
  es_decode_tx :: "bytes \<Rightarrow> (transaction, string) outcome"
  es_parse_txid :: "string \<Rightarrow> (bytes, string) outcome"
  es_txid_text :: "bytes \<Rightarrow> string"
  es_parse_address :: "string \<Rightarrow> (bytes, string) outcome"
  es_script_pubkey :: "bytes \<Rightarrow> bytes"

text \<open>The fields \<open>host\<close> and \<open>network\<close> of both providers.\<close>

record esplora_provider =
  ep_host :: string
  ep_network :: string

definition esplora_get :: "'w esplora_ext \<Rightarrow> esplora_provider \<Rightarrow> string \<Rightarrow> ('w, bytes, dlc_error) io" where
  "esplora_get x self sub_url =
     (let host = (if ends_with (ep_host self) (CHR ''/'') then ep_host self else ep_host self @ ''/'')
      in map_err IOError (es_http_get x (host @ sub_url)))"

definition get_from_json ::
  "'w esplora_ext \<Rightarrow> esplora_provider \<Rightarrow> (bytes \<Rightarrow> ('a, string) outcome) \<Rightarrow> string \<Rightarrow> ('w, 'a, dlc_error) io" where
  "get_from_json x self parse sub_url =
     and_then (esplora_get x self sub_url) (\<lambda>res.
     of_outcome (outcome_map_err BlockchainError (outcome_bind (es_read_body x res) parse)))"

definition get_bytes :: "'w esplora_ext \<Rightarrow> esplora_provider \<Rightarrow> string \<Rightarrow> ('w, bytes, dlc_error) io" where
  "get_bytes x self sub_url =
     and_then (esplora_get x self sub_url) (\<lambda>res.
     of_outcome (outcome_map_err BlockchainError (es_read_body x res)))"

section \<open>Confirmations\<close>

text \<open>\<open>(block_chain_height - block_height as u64 + 1) as u32\<close>\<close>

definition confirmations_at :: "bool \<Rightarrow> u32 \<Rightarrow> u32 \<Rightarrow> (u32, 'e) outcome" where
  "confirmations_at chk block_chain_height block_height =
     outcome_bind (u64_sub chk (ucast block_chain_height) (ucast block_height)) (\<lambda>d.
     outcome_bind (u64_add chk d 1) (\<lambda>n. Ok (ucast n)))"

definition get_transaction_confirmations_async ::
  "bool \<Rightarrow> (string \<Rightarrow> string) \<Rightarrow> 'w esplora_ext \<Rightarrow> esplora_provider \<Rightarrow> bytes \<Rightarrow> ('w, u32, dlc_error) io" where
  "get_transaction_confirmations_async chk height_error x self tx_id =
     and_then (get_from_json x self (es_tx_status x) (''tx/'' @ es_txid_text x tx_id @ ''/status'')) (\<lambda>tx_status.
     if ts_confirmed tx_status then
       and_then (map_err (\<lambda>e. BlockchainError (height_error e)) (es_get_height x)) (\<lambda>block_chain_height.
       case ts_block_height tx_status of
         Some block_height \<Rightarrow> of_outcome (confirmations_at chk block_chain_height block_height)
       | None \<Rightarrow> ret 0)
     else ret 0)"

definition get_transaction_async ::
  "'w esplora_ext \<Rightarrow> esplora_provider \<Rightarrow> bytes \<Rightarrow> ('w, transaction, dlc_error) io" where
  "get_transaction_async x self tx_id =
     and_then (get_bytes x self (''tx/'' @ es_txid_text x tx_id @ ''/raw'')) (\<lambda>raw_tx.
     of_outcome (outcome_map_err BlockchainError (es_decode_tx x raw_tx)))"

text \<open>The two providers differ in the texts and the kind of two errors.\<close>

definition router_blockchain :: "bool \<Rightarrow> 'w esplora_ext \<Rightarrow> esplora_provider \<Rightarrow> 'w async_blockchain" where
  "router_blockchain chk x self = \<lparr>
     bc_confirmations = get_transaction_confirmations_async chk (\<lambda>e. e) x self,
     bc_send_transaction = (\<lambda>tx. map_err BlockchainError (es_broadcast x tx)),
     bc_get_network = ret (ep_network self)\<rparr>"

definition js_blockchain :: "bool \<Rightarrow> 'w esplora_ext \<Rightarrow> esplora_provider \<Rightarrow> 'w async_blockchain" where
  "js_blockchain chk x self = \<lparr>
     bc_confirmations = get_transaction_confirmations_async chk
       (\<lambda>e. ''Error getting blockchain height: '' @ e) x self,
     bc_send_transaction = (\<lambda>tx. map_err OracleError (es_broadcast x tx)),
     bc_get_network = ret (ep_network self)\<rparr>"

section \<open>Unspent outputs\<close>

record outpoint =
  op_txid :: bytes
  op_vout :: u32

record utxo =
  ux_address :: bytes
  ux_outpoint :: outpoint
  ux_redeem_script :: bytes
  ux_reserved :: bool
  ux_value :: u64
  ux_script_pubkey :: bytes

datatype UtxoStatus = StatusConfirmed bool u64 string u64 | StatusUnconfirmed bool

record UtxoResp =
  ur_txid :: string
  ur_vout :: u32
  ur_value :: u64
  ur_status :: UtxoStatus

fun as_bool :: "json \<Rightarrow> bool option" where
  "as_bool (JBool b) = Some b"
| "as_bool _ = None"

definition req_word :: "json \<Rightarrow> string \<Rightarrow> int \<Rightarrow> 'a::len word option" where
  "req_word j k hi = map_option word_of_int (req_int 0 hi j k)"

definition req_bool :: "json \<Rightarrow> string \<Rightarrow> bool option" where
  "req_bool j k = as_bool (json_index j k)"

text \<open>\<open>untagged\<close>: the first variant whose fields are all there.\<close>

definition utxo_status_of_json :: "json \<Rightarrow> UtxoStatus option" where
  "utxo_status_of_json j =
     (case (req_bool j ''confirmed'', req_word j ''block_height'' u64_max, req_str j ''block_hash'',
            req_word j ''block_time'' u64_max) of
        (Some c, Some h, Some b, Some t) \<Rightarrow> Some (StatusConfirmed c h b t)
      | (Some c, _) \<Rightarrow> Some (StatusUnconfirmed c)
      | _ \<Rightarrow> None)"

definition utxo_resp_of_json :: "json \<Rightarrow> UtxoResp option" where
  "utxo_resp_of_json j =
     (case (req_str j ''txid'', req_word j ''vout'' u32_max, req_word j ''value'' u64_max,
            utxo_status_of_json (json_index j ''status'')) of
        (Some t, Some v, Some a, Some s) \<Rightarrow> Some \<lparr>ur_txid = t, ur_vout = v, ur_value = a, ur_status = s\<rparr>
      | _ \<Rightarrow> None)"

definition utxo_resps_of_body :: "'w esplora_ext \<Rightarrow> bytes \<Rightarrow> (UtxoResp list, string) outcome" where
  "utxo_resps_of_body x b = ok_or (Option.bind (es_json x b) (json_list utxo_resp_of_json)) (es_json_error x b)"

section \<open>The cache of the JS wallet's provider\<close>

record ChainCacheData =
  cd_utxos :: "utxo list option"
  cd_txs :: "(string \<rightharpoonup> transaction) option"
  cd_height :: "u64 option"

definition new_chain_data :: ChainCacheData where
  "new_chain_data = \<lparr>cd_utxos = Some [], cd_txs = Some Map.empty, cd_height = Some 0\<rparr>"

type_synonym 'w js_world = "'w \<times> ChainCacheData"

definition on_cache :: "(ChainCacheData \<Rightarrow> ('a, dlc_error) outcome \<times> ChainCacheData) \<Rightarrow> ('w js_world, 'a, dlc_error) io" where
  "on_cache f = lift_snd f"

definition utxo_of_resp :: "'w esplora_ext \<Rightarrow> bytes \<Rightarrow> UtxoResp \<Rightarrow> (utxo, string) outcome" where
  "utxo_of_resp x address r =
     outcome_bind (es_parse_txid x (ur_txid r)) (\<lambda>i.
     Ok \<lparr>ux_address = address, ux_outpoint = \<lparr>op_txid = i, op_vout = ur_vout r\<rparr>, ux_redeem_script = [],
         ux_reserved = False, ux_value = ur_value r, ux_script_pubkey = es_script_pubkey x address\<rparr>)"

definition store_utxos :: "utxo list \<Rightarrow> ChainCacheData \<Rightarrow> (unit, dlc_error) outcome \<times> ChainCacheData" where
  "store_utxos new_utxos c =
     (case cd_utxos c of
        None \<Rightarrow> (Err (BlockchainError ''error getting chain_data utxos as a mut reference''), c)
      | Some _ \<Rightarrow> (Ok (), c\<lparr>cd_utxos := Some new_utxos\<rparr>))"

definition store_tx :: "string \<Rightarrow> transaction \<Rightarrow> ChainCacheData \<Rightarrow> (unit, dlc_error) outcome \<times> ChainCacheData" where
  "store_tx tid tx c =
     (case cd_txs c of
        None \<Rightarrow> (Err (BlockchainError ''Unable to borrow the txs of the chain_data mutably''), c)
      | Some txs \<Rightarrow> (Ok (), c\<lparr>cd_txs := Some (txs(tid \<mapsto> tx))\<rparr>))"

definition fetch_tx :: "'w esplora_ext \<Rightarrow> esplora_provider \<Rightarrow> utxo \<Rightarrow> ('w js_world, unit, dlc_error) io" where
  "fetch_tx x self u =
     (let tid = es_txid_text x (op_txid (ux_outpoint u))
      in and_then (lift_fst (get_bytes x self (''tx/'' @ tid @ ''/raw''))) (\<lambda>raw_tx.
         and_then (of_outcome (outcome_map_err BlockchainError (es_decode_tx x raw_tx))) (\<lambda>tx.
         on_cache (store_tx tid tx))))"

definition refresh_chain_data ::
  "'w esplora_ext \<Rightarrow> esplora_provider \<Rightarrow> string \<Rightarrow> ('w js_world, unit, dlc_error) io" where
  "refresh_chain_data x self address =
     and_then (lift_fst (map_err BlockchainError (es_get_height x))) (\<lambda>height.
     and_then (on_cache (\<lambda>c. (Ok (), c\<lparr>cd_height := Some (ucast height)\<rparr>))) (\<lambda>_.
     and_then (lift_fst (get_from_json x self (utxo_resps_of_body x) (''address/'' @ address @ ''/utxo''))) (\<lambda>fetched_utxos.
     and_then (of_outcome (outcome_map_err (\<lambda>e. BlockchainError (''Invalid Address format: '' @ e))
       (es_parse_address x address))) (\<lambda>addr.
     let new_utxos = ok_values (map (utxo_of_resp x addr) fetched_utxos)
     in and_then (on_cache (store_utxos new_utxos)) (\<lambda>_.
        and_then (map_io (fetch_tx x self) new_utxos) (\<lambda>_. ret ()))))))"

definition get_utxos :: "ChainCacheData \<Rightarrow> (utxo list, dlc_error) outcome" where
  "get_utxos c = ok_or (cd_utxos c) (BlockchainError ''Unable to borrow the txs of the chain_data mutably'')"

definition get_balance :: "bool \<Rightarrow> ChainCacheData \<Rightarrow> (u64, dlc_error) outcome" where
  "get_balance chk c = outcome_bind (get_utxos c) (\<lambda>us. u64_sum chk (map ux_value us))"

definition get_transaction :: "'w esplora_ext \<Rightarrow> bytes \<Rightarrow> ChainCacheData \<Rightarrow> (transaction, dlc_error) outcome" where
  "get_transaction x tx_id c =
     outcome_bind (ok_or (cd_txs c) (BlockchainError ''Unable to borrow the txs of the chain_data'')) (\<lambda>txs.
     ok_or (txs (es_txid_text x tx_id)) (BlockchainError (''tx not found '' @ es_txid_text x tx_id)))"

definition get_utxos_for_address :: "bytes \<Rightarrow> ChainCacheData \<Rightarrow> (utxo list, dlc_error) outcome" where
  "get_utxos_for_address _ c = get_utxos c"

definition is_output_spent :: "bytes \<Rightarrow> u32 \<Rightarrow> ChainCacheData \<Rightarrow> (bool, dlc_error) outcome" where
  "is_output_spent tid vout c =
     outcome_bind (get_utxos c) (\<lambda>utxos.
     case find (\<lambda>u. op_txid (ux_outpoint u) = tid) utxos of
       Some u \<Rightarrow> Ok (op_vout (ux_outpoint u) = vout)
     | None \<Rightarrow> Ok False)"

section \<open>Laws\<close>

lemma unat_u64_of_u32: "unat (ucast (h :: u32) :: u64) = unat h"
  using unsigned_less [of h, where ?'a = nat] by (simp add: unsigned_ucast_eq take_bit_nat_eq_self)

lemma confirmations_at_words:
  "confirmations_at chk h b = (if chk \<and> h < b then Panic else Ok (h - b + 1))"
proof -
  have le: "(ucast h :: u64) < ucast b \<longleftrightarrow> h < b"
    by (simp add: word_less_nat_alt unat_u64_of_u32)
  have cut: "(ucast ((ucast h :: u64) - ucast b + 1) :: u32) = h - b + 1"
    by transfer (simp add: take_bit_eq_mod mod_simps mod_mod_cancel, metis mod_add_left_eq mod_diff_eq)
  have carry: "\<not> ((ucast h :: u64) - ucast b + 1 < ucast h - ucast b)" if "\<not> h < b"
  proof -
    have "(ucast b :: u64) \<le> ucast h" using that unfolding le [symmetric] not_less .
    then have "unat ((ucast h :: u64) - ucast b) = unat h - unat b"
      by (subst unat_sub) (simp_all add: unat_u64_of_u32)
    then have "unat ((ucast h :: u64) - ucast b) + unat (1 :: u64) < 2 ^ LENGTH(64)"
      using unsigned_less [of h, where ?'a = nat] by simp
    then show ?thesis unfolding no_carry by (rule unat_add_lem [THEN iffD1])
  qed
  show ?thesis
    using carry by (auto simp: confirmations_at_def u64_sub_def u64_add_def le cut)
qed

text \<open>A refresh that succeeds leaves every cached output with its transaction.\<close>

lemma lift_fst_run: "lift_fst m w = (Ok a, w') \<longleftrightarrow> (\<exists>s. m (fst w) = (Ok a, s) \<and> w' = (s, snd w))"
  by (auto simp: lift_fst_def on_part_def split: prod.splits)

lemma on_cache_run: "on_cache f w = (r, w') \<longleftrightarrow> (\<exists>c. f (snd w) = (r, c) \<and> w' = (fst w, c))"
  by (auto simp: on_cache_def lift_snd_def on_part_def split: prod.splits)

lemma fetch_tx_run:
  assumes "fetch_tx x self u w = (Ok (), w')"
  shows "\<exists>txs tx. cd_txs (snd w) = Some txs
    \<and> snd w' = (snd w)\<lparr>cd_txs := Some (txs(es_txid_text x (op_txid (ux_outpoint u)) \<mapsto> tx))\<rparr>"
  using assms
  by (auto simp: fetch_tx_def Let_def and_then_Ok lift_fst_run on_cache_run of_outcome_def store_tx_def
      split: option.splits)

lemma fetch_all_run:
  assumes "map_io (fetch_tx x self) us w = (Ok ys, w')" "cd_txs (snd w) = Some txs"
  shows "\<exists>txs'. snd w' = (snd w)\<lparr>cd_txs := Some txs'\<rparr> \<and> dom txs \<subseteq> dom txs'
    \<and> (\<forall>u \<in> set us. es_txid_text x (op_txid (ux_outpoint u)) \<in> dom txs')"
  using assms
proof (induction us arbitrary: w txs ys)
  case Nil
  then show ?case by (cases "snd w") (auto simp: ret_run)
next
  case (Cons u us)
  then obtain w1 zs where u: "fetch_tx x self u w = (Ok (), w1)" and us: "map_io (fetch_tx x self) us w1 = (Ok zs, w')"
    by (auto simp: and_then_Ok ret_run)
  obtain tx where w1: "snd w1 = (snd w)\<lparr>cd_txs := Some (txs(es_txid_text x (op_txid (ux_outpoint u)) \<mapsto> tx))\<rparr>"
    using fetch_tx_run [OF u] Cons.prems(2) by auto
  obtain txs' where txs': "snd w' = (snd w1)\<lparr>cd_txs := Some txs'\<rparr>"
    "dom (txs(es_txid_text x (op_txid (ux_outpoint u)) \<mapsto> tx)) \<subseteq> dom txs'"
    "\<forall>u \<in> set us. es_txid_text x (op_txid (ux_outpoint u)) \<in> dom txs'"
    using Cons.IH [OF us] w1 by fastforce
  then show ?case using w1 by (intro exI [of _ txs']) auto
qed

section \<open>Properties\<close>

text \<open>
  C25. The confirmations of a block at height b under a tip h are h - b + 1 in 32 bits: exact
  when the tip is at or above the block, a panic in checked builds when the tip read last lags
  behind the block, and in release builds then a number that wraps around, which from a lag of
  two blocks on passes the six-confirmation test.
\<close>

theorem confirmations_of_heights:
  "confirmations_at chk h b = (if chk \<and> h < b then Panic else Ok (h - b + 1)) \<and>
   (b \<le> h \<and> unat h < 2 ^ 32 - 1 \<longrightarrow> unat (h - b + 1) = unat h - unat b + 1) \<and>
   (unat h + 1 < unat b \<and> unat b - unat h \<le> 2 ^ 31 \<longrightarrow> NB_CONFIRMATIONS \<le> h - b + 1)"
proof -
  have "unat (h - b + 1) = unat h - unat b + 1" if "b \<le> h" "unat h < 2 ^ 32 - 1"
  proof -
    have d: "unat (h - b) = unat h - unat b" by (rule unat_sub) (rule that(1))
    have "unat (h - b) + unat (1 :: u32) < 2 ^ LENGTH(32)" using d that(2) by simp
    from unat_add_lem [THEN iffD1, OF this] d show ?thesis by simp
  qed
  moreover have "NB_CONFIRMATIONS \<le> h - b + 1" if "unat h + 1 < unat b" "unat b - unat h \<le> 2 ^ 31"
  proof -
    have "unat h + unat (1 :: u32) < 2 ^ LENGTH(32)"
      using that(1) unsigned_less [of b, where ?'a = nat] by simp
    then have "unat (h + 1) = unat h + 1" by (simp add: unat_add_lem [THEN iffD1])
    then have later: "unat (h + 1 - b) = unat h + 1 + 2 ^ 32 - unat b"
      using that(1) by (simp add: unat_sub_if')
    have "h - b + 1 = h + 1 - b" by simp
    then have "unat (h - b + 1) = unat h + 1 + 2 ^ 32 - unat b" using later by metis
    with that show ?thesis by (simp add: NB_CONFIRMATIONS_def word_le_nat_alt)
  qed
  ultimately show ?thesis using confirmations_at_words by blast
qed

theorem confirmations_of_heights_witness:
  "confirmations_at False 100 103 = (Ok (- 2) :: (u32, unit) outcome) \<and> NB_CONFIRMATIONS \<le> (- 2 :: u32)
   \<and> confirmations_at True 100 95 = (Ok 6 :: (u32, unit) outcome)"
  using confirmations_of_heights [where ?'a = unit and chk = False and h = 100 and b = 103]
    confirmations_of_heights [where ?'a = unit and chk = True and h = 100 and b = 95]
  by simp

text \<open>
  C26. After a refresh that succeeds, the cache holds the height, unreserved outputs of the given
  address only, and for each of them its transaction, which \<open>get_transaction\<close> finds.
\<close>

theorem refreshed_cache:
  assumes "refresh_chain_data x self address w = (Ok (), w')" "cd_txs (snd w) \<noteq> None"
  shows "\<exists>us a. es_parse_address x address = Ok a \<and> get_utxos (snd w') = Ok us \<and> cd_height (snd w') \<noteq> None \<and>
    (\<forall>u \<in> set us. ux_address u = a \<and> \<not> ux_reserved u
       \<and> (\<exists>tx. get_transaction x (op_txid (ux_outpoint u)) (snd w') = Ok tx))"
proof -
  obtain h s1 s2 rs a w3 ys where h: "rs = rs" "es_parse_address x address = Ok a"
    and put: "on_cache (store_utxos (ok_values (map (utxo_of_resp x a) rs))) (s2, (snd w)\<lparr>cd_height := Some (ucast (h :: u32))\<rparr>) = (Ok (), w3)"
    and fetch: "map_io (fetch_tx x self) (ok_values (map (utxo_of_resp x a) rs)) w3 = (Ok ys, w')"
    using assms(1)
    by (auto simp: refresh_chain_data_def and_then_Ok lift_fst_run on_cache_run ret_run of_outcome_def Let_def)
  let ?us = "ok_values (map (utxo_of_resp x a) rs)"
  have w3: "cd_utxos (snd w3) = Some ?us" "cd_txs (snd w3) = cd_txs (snd w)" "cd_height (snd w3) = Some (ucast h)"
    using put by (auto simp: on_cache_run store_utxos_def split: option.splits)
  obtain txs where "cd_txs (snd w3) = Some txs" using assms(2) w3(2) by auto
  from fetch_all_run [OF fetch this] obtain txs' where txs': "snd w' = (snd w3)\<lparr>cd_txs := Some txs'\<rparr>"
    "\<forall>u \<in> set ?us. es_txid_text x (op_txid (ux_outpoint u)) \<in> dom txs'"
    by blast
  have "ux_address u = a \<and> \<not> ux_reserved u" if "u \<in> set ?us" for u
    using that by (auto simp: set_ok_values utxo_of_resp_def dest!: sym [of "Ok u"])
  moreover have "\<exists>tx. get_transaction x (op_txid (ux_outpoint u)) (snd w') = Ok tx" if "u \<in> set ?us" for u
    using txs' that by (auto simp: get_transaction_def)
  ultimately show ?thesis
    using h(2) w3 txs'(1) by (intro exI [of _ ?us] exI [of _ a]) (simp add: get_utxos_def)
qed

definition demo_esplora :: "unit esplora_ext" where
  "demo_esplora = \<lparr>es_http_get = (\<lambda>_. ret [1]), es_read_body = Ok, es_get_height = ret 100, es_broadcast = (\<lambda>_. ret ()),
     es_json = (\<lambda>_. Some (JArr [JObj [(''txid'', JStr ''aa''), (''vout'', JNum 1), (''value'', JNum 5),
       (''status'', JObj [(''confirmed'', JBool False)])]])),
     es_json_error = (\<lambda>_. ''E''), es_tx_status = (\<lambda>_. Err ''E''), es_decode_tx = (\<lambda>b. Ok \<lparr>tx_lock_time = 0, tx_body = b\<rparr>),
     es_parse_txid = (\<lambda>t. Ok [7]), es_txid_text = (\<lambda>_. ''aa''), es_parse_address = (\<lambda>_. Ok [3]), es_script_pubkey = (\<lambda>a. a)\<rparr>"

definition demo_utxo :: utxo where
  "demo_utxo = \<lparr>ux_address = [3], ux_outpoint = \<lparr>op_txid = [7], op_vout = 1\<rparr>, ux_redeem_script = [],
     ux_reserved = False, ux_value = 5, ux_script_pubkey = [3]\<rparr>"

theorem refreshed_cache_witness:
  "\<exists>w'. refresh_chain_data demo_esplora \<lparr>ep_host = ''h'', ep_network = ''n''\<rparr> ''a'' ((), new_chain_data) = (Ok (), w')
     \<and> (\<exists>tx. get_transaction demo_esplora [7] (snd w') = Ok tx) \<and> get_utxos (snd w') = Ok [demo_utxo]"
proof -
  let ?run = "refresh_chain_data demo_esplora \<lparr>ep_host = ''h'', ep_network = ''n''\<rparr> ''a'' ((), new_chain_data)"
  obtain r w' where rw: "?run = (r, w')" by (rule prod.exhaust)
  have "is_ok (fst ?run)" by code_simp
  then have run: "?run = (Ok (), w')" using rw by (cases r) auto
  have "get_utxos (snd (snd ?run)) = Ok [demo_utxo]" by code_simp
  then have us: "get_utxos (snd w') = Ok [demo_utxo]" unfolding rw by simp
  have "cd_txs (snd ((), new_chain_data)) \<noteq> None" by (simp add: new_chain_data_def)
  from refreshed_cache [OF run this] us run show ?thesis by (auto simp: demo_utxo_def)
qed

text \<open>
  The balance is the sum of the cached values whenever that sum fits 64 bits; a checked
  build never reports a wrong sum.
\<close>

theorem balance_is_sum:
  assumes "get_utxos c = Ok us"
  shows "(sum_list (map (unat \<circ> ux_value) us) < 2 ^ 64 \<longrightarrow>
      (\<exists>b. get_balance chk c = Ok b \<and> unat b = sum_list (map (unat \<circ> ux_value) us))) \<and>
    (\<forall>b. get_balance True c = Ok b \<longrightarrow> unat b = sum_list (map (unat \<circ> ux_value) us))"
  using assms u64_sum_nat [of "map ux_value us" chk] u64_sum_checked [of "map ux_value us"]
  by (auto simp: get_balance_def)

theorem balance_is_sum_witness:
  "\<exists>b. get_balance False \<lparr>cd_utxos = Some [demo_utxo, demo_utxo], cd_txs = None, cd_height = None\<rparr> = Ok b \<and> unat b = 10"
  using balance_is_sum [of "\<lparr>cd_utxos = Some [demo_utxo, demo_utxo], cd_txs = None, cd_height = None\<rparr>" "[demo_utxo, demo_utxo]" False]
  by (simp add: get_utxos_def demo_utxo_def)

text \<open>
  \<open>is_output_spent\<close> answers the opposite of its name: an output that is in the cache of
  unspent outputs, the only one of its transaction there, is reported as spent.
\<close>

theorem unspent_output_reported_spent:
  assumes "get_utxos c = Ok us" "u \<in> set us" "distinct (map (op_txid \<circ> ux_outpoint) us)"
  shows "is_output_spent (op_txid (ux_outpoint u)) (op_vout (ux_outpoint u)) c = Ok True"
proof -
  have "find (\<lambda>v. op_txid (ux_outpoint v) = op_txid (ux_outpoint u)) us = Some u"
    using assms(2,3) by (induction us) (auto simp: image_iff)
  with assms(1) show ?thesis by (simp add: is_output_spent_def)
qed

theorem unspent_output_reported_spent_witness:
  "is_output_spent [7] 1 \<lparr>cd_utxos = Some [demo_utxo], cd_txs = None, cd_height = None\<rparr> = Ok True"
  using unspent_output_reported_spent [of "\<lparr>cd_utxos = Some [demo_utxo], cd_txs = None, cd_height = None\<rparr>" "[demo_utxo]" demo_utxo]
  by (simp add: get_utxos_def demo_utxo_def)

end
