(* ===== verification/Wallets.thy ===== *)
theory Wallets
  imports Esplora "HOL-Library.Multiset"
begin

text \<open>
  \<open>js-interface-wallet/src/lib.rs\<close>, the wallet of the browser, and \<open>dlc-wallet/src/lib.rs\<close>, the
  one of the router: a key, an address and, for the first, the unspent outputs it was given.
  Coin selection (bdk) and signing (rust-dlc) are parameters.
\<close>

section \<open>The browser's wallet\<close>

record JSInterfaceWallet =
  jw_address :: bytes
  jw_seckey :: bytes
  jw_utxos :: "utxo list"

definition js_wallet_new :: "(string \<Rightarrow> bytes option) \<Rightarrow> string \<Rightarrow> bytes \<Rightarrow> (JSInterfaceWallet, 'e) outcome" where
  "js_wallet_new parse_address address_str privkey =
     outcome_bind (expect (parse_address address_str)) (\<lambda>a.
     Ok \<lparr>jw_address = a, jw_seckey = privkey, jw_utxos = []\<rparr>)"

definition set_utxos :: "utxo list \<Rightarrow> (JSInterfaceWallet, unit, dlc_error) io" where
  "set_utxos utxos = (\<lambda>self. (Ok (), self\<lparr>jw_utxos := utxos\<rparr>))"

record weighted_utxo =
  wu_outpoint :: outpoint
  wu_value :: u64
  wu_script_pubkey :: bytes
  wu_satisfaction_weight :: nat

text \<open>
  \<open>BranchAndBoundCoinSelection::coin_select\<close>: optional utxos, fee rate (in sat/vB, given here as
  the integer it is made from), target amount; the selected ones.
\<close>

type_synonym coin_selection = "weighted_utxo list \<Rightarrow> u64 \<Rightarrow> u64 \<Rightarrow> (weighted_utxo list, string) outcome"

definition weighted :: "utxo \<Rightarrow> weighted_utxo" where
  "weighted x = \<lparr>wu_outpoint = ux_outpoint x, wu_value = ux_value x, wu_script_pubkey = ux_script_pubkey x,
     wu_satisfaction_weight = 107\<rparr>"

definition get_utxos_for_amount ::
  "coin_selection \<Rightarrow> u64 \<Rightarrow> u64 option \<Rightarrow> bool \<Rightarrow> JSInterfaceWallet \<Rightarrow> (utxo list, dlc_error) outcome" where
  "get_utxos_for_amount coin_select amount fee_rate lock_utxos self =
     outcome_bind (outcome_map_err WalletError
       (coin_select (map weighted (filter (\<lambda>x. \<not> ux_reserved x) (jw_utxos self)))
          (case fee_rate of Some r \<Rightarrow> r | None \<Rightarrow> 0) amount)) (\<lambda>selected.
     Ok (map (\<lambda>u. \<lparr>ux_address = jw_address self, ux_outpoint = wu_outpoint u, ux_redeem_script = [],
           ux_reserved = False, ux_value = wu_value u, ux_script_pubkey = wu_script_pubkey u\<rparr>) selected))"

definition js_get_secret_key_for_pubkey :: "bytes \<Rightarrow> JSInterfaceWallet \<Rightarrow> (bytes, dlc_error) outcome" where
  "js_get_secret_key_for_pubkey _ self = Ok (jw_seckey self)"

definition js_get_new_address :: "JSInterfaceWallet \<Rightarrow> (bytes, dlc_error) outcome" where
  "js_get_new_address self = Ok (jw_address self)"

definition js_get_new_secret_key :: "JSInterfaceWallet \<Rightarrow> (bytes, dlc_error) outcome" where
  "js_get_new_secret_key self = Ok (jw_seckey self)"

text \<open>
  \<open>sign_p2wpkh_input\<close> of rust-dlc signs one input of a transaction with a key over the value of
  the output it spends.
\<close>

type_synonym sign_p2wpkh = "bytes \<Rightarrow> transaction \<Rightarrow> nat \<Rightarrow> u64 \<Rightarrow> (transaction, dlc_error) outcome"

definition js_sign_tx_input ::
  "sign_p2wpkh \<Rightarrow> JSInterfaceWallet \<Rightarrow> transaction \<Rightarrow> nat \<Rightarrow> u64 \<Rightarrow> (transaction, dlc_error) outcome" where
  "js_sign_tx_input sign self tx input_index value = sign (jw_seckey self) tx input_index value"

section \<open>The router's wallet\<close>

record DlcWallet =
  dw_address :: bytes
  dw_seckey :: bytes

definition dlc_wallet_sign_tx_input ::
  "sign_p2wpkh \<Rightarrow> DlcWallet \<Rightarrow> transaction \<Rightarrow> nat \<Rightarrow> u64 \<Rightarrow> (transaction, dlc_error) outcome" where
  "dlc_wallet_sign_tx_input sign self tx input_index value = sign (dw_seckey self) tx input_index value"

definition dlc_wallet_get_new_address :: "DlcWallet \<Rightarrow> (bytes, dlc_error) outcome" where
  "dlc_wallet_get_new_address self = Ok (dw_address self)"

definition dlc_wallet_get_secret_key :: "DlcWallet \<Rightarrow> (bytes, dlc_error) outcome" where
  "dlc_wallet_get_secret_key self = Ok (dw_seckey self)"

definition dlc_wallet_get_utxos_for_amount ::
  "u64 \<Rightarrow> u64 option \<Rightarrow> bool \<Rightarrow> DlcWallet \<Rightarrow> (utxo list, dlc_error) outcome" where
  "dlc_wallet_get_utxos_for_amount _ _ _ self = Panic"

section \<open>Funding an offer\<close>

text \<open>What the selection promises: it picks among the given outputs, each at most once, and enough.\<close>

definition coin_selection_ok :: "coin_selection \<Rightarrow> bool" where
  "coin_selection_ok f \<longleftrightarrow> (\<forall>us fee amount sel. f us fee amount = Ok sel \<longrightarrow>
     mset sel \<subseteq># mset us \<and> unat amount \<le> sum_list (map (unat \<circ> wu_value) sel))"

lemma mset_map_sub:
  "mset xs \<subseteq># mset (map f ys) \<Longrightarrow> distinct (map g (map f ys)) \<Longrightarrow> distinct (map g xs) \<and> set xs \<subseteq> f ` set ys"
proof
  assume sub: "mset xs \<subseteq># mset (map f ys)" and d: "distinct (map g (map f ys))"
  have "mset (map g xs) \<subseteq># mset (map g (map f ys))"
    using image_mset_subseteq_mono [OF sub] by (simp del: map_map)
  then have "count (mset (map g xs)) a \<le> count (mset (map g (map f ys))) a" for a by (rule mset_subset_eq_count)
  moreover have "count (mset (map g (map f ys))) a \<le> 1" for a
    using d [unfolded distinct_count_atmost_1] by (metis le_numeral_extra(4) zero_le)
  ultimately have "count (mset (map g xs)) a \<le> 1" for a by (meson le_trans)
  moreover have "0 < count (mset (map g xs)) a" if "a \<in> set (map g xs)" for a
    using that by (simp only: count_greater_zero_iff set_mset_mset)
  ultimately show "distinct (map g xs)"
    unfolding distinct_count_atmost_1 by (metis One_nat_def Suc_leI count_mset_0_iff le_antisym)
  show "set xs \<subseteq> f ` set ys" using set_mset_mono [OF sub] by simp
qed

text \<open>
  C27. The outputs the browser's wallet gives for an amount are unreserved outputs it was last
  set to, each at most once, reported with the wallet's own address, and cover the amount.
\<close>

theorem funding_covers_amount:
  assumes "coin_selection_ok f" "set_utxos us w = (Ok (), w')" "distinct (map ux_outpoint us)"
    and "get_utxos_for_amount f amount fee lock w' = Ok res"
  shows "unat amount \<le> sum_list (map (unat \<circ> ux_value) res) \<and> distinct (map ux_outpoint res) \<and>
    (\<forall>r \<in> set res. ux_address r = jw_address w \<and> \<not> ux_reserved r \<and>
       (\<exists>u \<in> set us. \<not> ux_reserved u \<and> ux_outpoint u = ux_outpoint r \<and> ux_value u = ux_value r))"
proof -
  let ?own = "filter (\<lambda>x. \<not> ux_reserved x) us"
  let ?mk = "\<lambda>u. \<lparr>ux_address = jw_address w, ux_outpoint = wu_outpoint u, ux_redeem_script = [],
           ux_reserved = False, ux_value = wu_value u, ux_script_pubkey = wu_script_pubkey u\<rparr>"
  have w': "w' = w\<lparr>jw_utxos := us\<rparr>" using assms(2) by (simp add: set_utxos_def)
  obtain sel rate where sel: "f (map weighted ?own) rate amount = Ok sel" "res = map ?mk sel"
    using assms(4) by (auto simp: get_utxos_for_amount_def w')
  have sub: "mset sel \<subseteq># mset (map weighted ?own)" and enough: "unat amount \<le> sum_list (map (unat \<circ> wu_value) sel)"
    using assms(1) sel(1) unfolding coin_selection_ok_def by blast+
  have "map wu_outpoint (map weighted ?own) = map ux_outpoint ?own" by (simp add: weighted_def)
  then have "distinct (map wu_outpoint (map weighted ?own))"
    using assms(3) by (simp del: map_map add: distinct_map_filter)
  from mset_map_sub [OF sub this] have sel': "distinct (map wu_outpoint sel)" "set sel \<subseteq> weighted ` set ?own" by auto
  have "\<exists>u \<in> set us. \<not> ux_reserved u \<and> ux_outpoint u = wu_outpoint s \<and> ux_value u = wu_value s" if "s \<in> set sel" for s
  proof -
    obtain u where "u \<in> set ?own" "s = weighted u" using sel'(2) \<open>s \<in> set sel\<close> by blast
    then show ?thesis by (auto simp: weighted_def)
  qed
  then show ?thesis
    using sel'(1) enough by (auto simp: sel(2) comp_def)
qed

theorem funding_covers_amount_witness:
  "\<exists>res. get_utxos_for_amount (\<lambda>us _ amount. if unat amount \<le> sum_list (map (unat \<circ> wu_value) us) then Ok us else Err ''E'')
       3 None True \<lparr>jw_address = [9], jw_seckey = [], jw_utxos = [demo_utxo]\<rparr> = Ok res
     \<and> 3 \<le> sum_list (map (unat \<circ> ux_value) res)"
proof -
  let ?f = "\<lambda>us _ amount. if unat amount \<le> sum_list (map (unat \<circ> wu_value) us) then Ok us else Err ''E''"
  let ?w = "\<lparr>jw_address = [9], jw_seckey = [], jw_utxos = [demo_utxo]\<rparr>"
  have f: "coin_selection_ok ?f" by (auto simp: coin_selection_ok_def)
  have set: "set_utxos [demo_utxo] ?w = (Ok (), ?w)" by (simp add: set_utxos_def)
  obtain res where res: "get_utxos_for_amount ?f 3 None True ?w = Ok res"
    by (simp add: get_utxos_for_amount_def demo_utxo_def weighted_def)
  from funding_covers_amount [OF f set _ res] res show ?thesis by simp
qed

end
