(* ===== verification/Event_Store.thy ===== *)
theory Event_Store
  imports Storage_Ops
begin

text \<open>
  \<open>attestor/src/oracle/handler.rs\<close>: the attestor's connection to the storage API. Events are
  stored under the attestor's public key, their bytes in base64. The locale \<open>event_store\<close> is
  what the attestor relies on, over the view \<open>held\<close> from event ids to bytes; the connection
  linked to the storage service over the lossy network is shown to keep it.
\<close>

section \<open>The connection\<close>

datatype OracleError = OracleStorageApiError ApiError | Base64DecodeError string

record 'w StorageApiConn =
  sc_client :: "'w StorageApiClient"
  sc_public_key :: string

definition conn_new :: "'w StorageApiClient \<Rightarrow> string \<Rightarrow> 'w StorageApiConn" where
  "conn_new client public_key = \<lparr>sc_client = client, sc_public_key = public_key\<rparr>"

text \<open>\<open>EventHandler\<close>; the client made for an endpoint is the parameter \<open>mk_client\<close>.\<close>

record 'w EventHandler =
  eh_storage_api :: "'w StorageApiConn"

definition event_handler_new :: "(string \<Rightarrow> 'w StorageApiClient) \<Rightarrow> string \<Rightarrow> string \<Rightarrow> 'w EventHandler" where
  "event_handler_new mk_client storage_api_endpoint public_key =
     \<lparr>eh_storage_api = conn_new (mk_client storage_api_endpoint) public_key\<rparr>"

definition b64_decoded :: "web_ext \<Rightarrow> string \<Rightarrow> (bytes, OracleError) outcome" where
  "b64_decoded e s = ok_or (b64_decode e s) (Base64DecodeError (display_error e ''base64''))"

definition conn_insert ::
  "web_ext \<Rightarrow> 'w StorageApiConn \<Rightarrow> string \<Rightarrow> bytes \<Rightarrow> bytes \<Rightarrow> ('w, bytes option, OracleError) io" where
  "conn_insert e sc event_id new_event secret_key =
     (let new_content = b64_encode e new_event in
      handle (client_get_event e (sc_client sc)
          \<lparr>cer_key = sc_public_key sc, cer_event_id = event_id\<rparr> secret_key)
        (\<lambda>event.
           if event \<noteq> None then
             handle (client_update_event e (sc_client sc)
                 \<lparr>ue_event_id = event_id, ue_content = new_content, ue_key = sc_public_key sc\<rparr> secret_key)
               (\<lambda>_. ret (Some new_event)) (\<lambda>err. throw (OracleStorageApiError err))
           else
             handle (client_create_event e (sc_client sc)
                 \<lparr>ne_event_id = event_id, ne_content = new_content, ne_key = sc_public_key sc\<rparr> secret_key)
               (\<lambda>_. ret (Some new_event)) (\<lambda>err. throw (OracleStorageApiError err)))
        (\<lambda>err. throw (OracleStorageApiError err)))"

definition conn_get ::
  "web_ext \<Rightarrow> 'w StorageApiConn \<Rightarrow> string \<Rightarrow> bytes \<Rightarrow> ('w, bytes option, OracleError) io" where
  "conn_get e sc event_id secret_key =
     and_then (map_err OracleStorageApiError
        (client_get_event e (sc_client sc)
          \<lparr>cer_key = sc_public_key sc, cer_event_id = event_id\<rparr> secret_key)) (\<lambda>event.
     case event of
       Some event \<Rightarrow> and_then (of_outcome (b64_decoded e (ce_content event))) (\<lambda>res. ret (Some res))
     | None \<Rightarrow> ret None)"

text \<open>The loop of \<open>get_all\<close> stops at the first content that is not base64.\<close>

definition conn_get_all ::
  "web_ext \<Rightarrow> 'w StorageApiConn \<Rightarrow> bytes \<Rightarrow> ('w, (string \<times> bytes) list option, OracleError) io" where
  "conn_get_all e sc secret_key =
     and_then (map_err OracleStorageApiError
        (client_get_events e (sc_client sc)
          \<lparr>erp_key = sc_public_key sc, erp_event_id = None\<rparr> secret_key)) (\<lambda>events.
     and_then (of_outcome (outcome_collect
        (\<lambda>event. outcome_bind (b64_decoded e (ce_content event)) (\<lambda>content. Ok (ce_event_id event, content)))
        events)) (\<lambda>result. ret (Some result)))"

section \<open>What the attestor relies on\<close>

locale event_store =
  fixes insert :: "string \<Rightarrow> bytes \<Rightarrow> ('w, bytes option, 'e) io"
    and get :: "string \<Rightarrow> ('w, bytes option, 'e) io"
    and get_all :: "('w, (string \<times> bytes) list option, 'e) io"
    and held :: "'w \<Rightarrow> string \<Rightarrow> bytes option"
    and inv :: "'w \<Rightarrow> bool"
  assumes insert_law: "inv w \<Longrightarrow> wp (insert i b) (\<lambda>r w'. inv w' \<and> r \<noteq> Panic \<and>
      (if is_ok r then r = Ok (Some b) \<and> held w' = (held w)(i \<mapsto> b)
       else held w' = held w \<or> held w' = (held w)(i \<mapsto> b))) w"
    and get_law: "inv w \<Longrightarrow> wp (get i) (\<lambda>r w'. inv w' \<and> held w' = held w \<and> r \<noteq> Panic \<and>
      (\<forall>x. r = Ok x \<longrightarrow> x = held w i)) w"
    and get_all_law: "inv w \<Longrightarrow> wp get_all (\<lambda>r w'. inv w' \<and> held w' = held w \<and> r \<noteq> Panic \<and>
      (\<forall>x. r = Ok x \<longrightarrow> (\<exists>kvs. x = Some kvs \<and> distinct (map fst kvs) \<and> map_of kvs = held w))) w"
begin

lemma insert_then_get:
  assumes "inv w" "insert i b w = (Ok y, w1)" "get i w1 = (Ok x, w2)"
  shows "x = Some b"
  using wp_run [OF insert_law [OF assms(1)] assms(2)] wp_run [OF get_law assms(3)] by auto

lemma insert_other:
  assumes "inv w" "insert i b w = (r, w1)" "j \<noteq> i"
  shows "held w1 j = held w j"
  using wp_run [OF insert_law [OF assms(1)] assms(2)] assms(3) by (auto split: if_splits)

end

section \<open>The connection over the network\<close>

abbreviation link_conn :: "web_ext \<Rightarrow> string \<Rightarrow> string \<Rightarrow> link StorageApiConn" where
  "link_conn e host key \<equiv> \<lparr>sc_client = link_client e host, sc_public_key = key\<rparr>"

definition events_inv :: "web_ext \<Rightarrow> link \<Rightarrow> bool" where
  "events_inv e w \<longleftrightarrow> web_ok e \<and> link_ok w"

definition row_bytes :: "web_ext \<Rightarrow> Event \<Rightarrow> bytes option" where
  "row_bytes e r = b64_decode e (e_content r)"

definition held_events :: "web_ext \<Rightarrow> string \<Rightarrow> link \<Rightarrow> string \<Rightarrow> bytes option" where
  "held_events e key w i = Option.bind (event_view (link_pg w) (key, i)) (row_bytes e)"

lemma events_invD:
  assumes "events_inv e w"
  shows "web_ok e" "link_ok w" "pg_ok (link_pg w)"
  using assms by (simp_all add: events_inv_def link_ok_def link_pg_def srv_ok_def)

lemma held_same: "event_view (link_pg w') = event_view (link_pg w) \<Longrightarrow> held_events e key w' = held_events e key w"
  by (simp add: held_events_def fun_eq_iff)

lemma held_put:
  assumes "event_view (link_pg w') = (event_view (link_pg w))((key, i) \<mapsto> r)" "row_bytes e r = Some b"
  shows "held_events e key w' = (held_events e key w)(i \<mapsto> b)"
  using assms by (auto simp: held_events_def fun_eq_iff)

text \<open>A call was lost before it had an effect, or its statement ran.\<close>

lemma seenE:
  assumes "lost w r w' \<or> ran m shown w r w'"
  obtains x where "link_pg w' = link_pg w" "r = Err x"
    | dr where "m (link_pg w) = (dr, link_pg w')" "r \<noteq> Panic"
        "\<And>b. r = Ok b \<Longrightarrow> \<exists>a. dr = Ok a \<and> shown a = Some b"
proof -
  from assms show thesis
  proof
    assume "lost w r w'"
    then show thesis using that(1) by (auto simp: lost_def)
  next
    assume "ran m shown w r w'"
    then obtain dr where "m (link_pg w) = (dr, link_pg w')" "r \<noteq> Panic"
      "\<forall>b. r = Ok b \<longrightarrow> (\<exists>a. dr = Ok a \<and> shown a = Some b)"
      unfolding ran_def by (elim exE conjE) (rule that; assumption)
    then show thesis by (intro that(2) [of dr]) simp_all
  qed
qed

lemma those_shown_events: "those (map (shown_event e) rs) = Some cs \<Longrightarrow> cs = map client_event rs"
  by (induction rs arbitrary: cs) (auto simp: shown_event_def split: if_splits option.splits)

lemma get_event_effect:
  assumes inv: "events_inv e w"
  shows "wp (client_get_event e (link_client e host) \<lparr>cer_key = key, cer_event_id = i\<rparr> sk) (\<lambda>r w'.
     events_inv e w' \<and> event_view (link_pg w') = event_view (link_pg w) \<and> r \<noteq> Panic \<and>
     (\<forall>x. r = Ok x \<longrightarrow> x = map_option client_event (event_view (link_pg w) (key, i)))) w"
    (is "wp (client_get_event e _ ?q sk) _ w")
proof (rule wp_mono [OF wp_kept [OF client_event_kept(4) events_invD(2) [OF inv]
        client_get_event_law [OF events_invD(1,2) [OF inv]]]])
  let ?shown = "\<lambda>rs. map_option first_of (those (map (shown_event e) rs))"
  fix r w'
  assume "link_ok w' \<and> (lost w r w' \<or> ran (select_event (cer_key ?q, cer_event_id ?q)) ?shown w r w')"
  then have ok: "events_inv e w'" and seen: "lost w r w' \<or> ran (select_event (cer_key ?q, cer_event_id ?q)) ?shown w r w'"
    using inv by (auto simp: events_inv_def)
  show "events_inv e w' \<and> event_view (link_pg w') = event_view (link_pg w) \<and> r \<noteq> Panic \<and>
     (\<forall>x. r = Ok x \<longrightarrow> x = map_option client_event (event_view (link_pg w) (key, i)))"
    using seen
  proof (cases rule: seenE)
    case (2 dr)
    have run: "select_event (key, i) (link_pg w) = (dr, link_pg w')" using 2(1) by simp
    note eff = events_tbl.select_run [OF events_invD(3) [OF inv] run]
    have "x = map_option client_event (event_view (link_pg w) (key, i))" if x: "r = Ok x" for x
    proof -
      obtain rs cs where rs: "dr = Ok rs" "those (map (shown_event e) rs) = Some cs" "x = first_of cs"
        using 2(3) [OF x] by auto
      have "cs = map client_event (one_row (event_view (link_pg w) (key, i)))"
        using those_shown_events [OF rs(2)] eff rs(1) by simp
      then show ?thesis
        unfolding rs(3) by (cases "event_view (link_pg w) (key, i)") (simp_all add: first_of_def one_row_def)
    qed
    with eff 2(2) ok show ?thesis by blast
  qed (use ok in simp)
qed

lemma create_event_effect:
  assumes inv: "events_inv e w"
  shows "wp (client_create_event e (link_client e host)
       \<lparr>ne_event_id = i, ne_content = b64_encode e b, ne_key = key\<rparr> sk) (\<lambda>r w'.
     events_inv e w' \<and> r \<noteq> Panic \<and>
     (if is_ok r then held_events e key w' = (held_events e key w)(i \<mapsto> b)
      else held_events e key w' = held_events e key w \<or> held_events e key w' = (held_events e key w)(i \<mapsto> b))) w"
    (is "wp (client_create_event e _ ?n sk) _ w")
proof (rule wp_mono [OF wp_kept [OF client_event_kept(1) events_invD(2) [OF inv]
        client_create_event_law [OF events_invD(1,2) [OF inv]]]])
  fix r w'
  assume "link_ok w' \<and> (lost w r w' \<or> ran (db_create_event ?n) (shown_event e) w r w')"
  then have ok: "events_inv e w'" and seen: "lost w r w' \<or> ran (db_create_event ?n) (shown_event e) w r w'"
    using inv by (auto simp: events_inv_def)
  show "events_inv e w' \<and> r \<noteq> Panic \<and>
     (if is_ok r then held_events e key w' = (held_events e key w)(i \<mapsto> b)
      else held_events e key w' = held_events e key w \<or> held_events e key w' = (held_events e key w)(i \<mapsto> b))"
    using seen
  proof (cases rule: seenE)
    case (1 x)
    then show ?thesis using ok held_same [of w' w e key] by simp
  next
    case (2 dr)
    note eff = events_tbl.create_run [OF events_invD(3) [OF inv] 2(1)]
    have "held_events e key w' = (held_events e key w)(i \<mapsto> b)" if "dr = Ok row" for row
      using eff that b64_roundtrip [OF events_invD(1) [OF inv]]
      by (intro held_put [of _ _ _ _ row]) (simp_all add: made_event_def row_bytes_def)
    moreover have "held_events e key w' = held_events e key w" if "\<not> is_ok dr"
      using eff that by (intro held_same) (cases dr; simp)
    ultimately show ?thesis using ok 2(2,3) by (cases r; cases dr) auto
  qed
qed

lemma update_event_effect:
  assumes inv: "events_inv e w"
  shows "wp (client_update_event e (link_client e host)
       \<lparr>ue_event_id = i, ue_content = b64_encode e b, ue_key = key\<rparr> sk) (\<lambda>r w'.
     events_inv e w' \<and> r \<noteq> Panic \<and>
     (if is_ok r then held_events e key w' = (held_events e key w)(i \<mapsto> b)
      else held_events e key w' = held_events e key w \<or> held_events e key w' = (held_events e key w)(i \<mapsto> b))) w"
    (is "wp (client_update_event e _ ?u sk) _ w")
proof (rule wp_mono [OF wp_kept [OF client_event_kept(2) events_invD(2) [OF inv]
        client_update_event_law [OF events_invD(1,2) [OF inv]]]])
  fix r w'
  assume "link_ok w' \<and> (lost w r w' \<or> ran (db_update_event ?u) shown_count w r w')"
  then have ok: "events_inv e w'" and seen: "lost w r w' \<or> ran (db_update_event ?u) shown_count w r w'"
    using inv by (auto simp: events_inv_def)
  show "events_inv e w' \<and> r \<noteq> Panic \<and>
     (if is_ok r then held_events e key w' = (held_events e key w)(i \<mapsto> b)
      else held_events e key w' = held_events e key w \<or> held_events e key w' = (held_events e key w)(i \<mapsto> b))"
    using seen
  proof (cases rule: seenE)
    case (1 x)
    then show ?thesis using ok held_same [of w' w e key] by simp
  next
    case (2 dr)
    note eff = events_tbl.update_run [OF events_invD(3) [OF inv] 2(1)]
    show ?thesis
    proof (cases "\<exists>n. dr = Ok n \<and> event_view (link_pg w) (key, i) \<noteq> None")
      case True
      then obtain row where "event_view (link_pg w') = (event_view (link_pg w))((key, i) \<mapsto> event_changeset ?u row)"
        using eff by auto
      then have "held_events e key w' = (held_events e key w)(i \<mapsto> b)"
        by (rule held_put) (simp add: row_bytes_def event_changeset_def b64_roundtrip [OF events_invD(1) [OF inv]])
      with ok 2(2) show ?thesis by simp
    next
      case False
      have "event_view (link_pg w') = event_view (link_pg w)"
        using eff False by (cases dr) auto
      then have "held_events e key w' = held_events e key w" by (rule held_same)
      moreover have "\<not> is_ok r"
        using 2(3) False eff by (cases r; cases dr) (auto simp: shown_count_def)
      ultimately show ?thesis using ok 2(2) by simp
    qed
  qed
qed

lemma wp_conn_insert:
  assumes inv: "events_inv e w"
  shows "wp (conn_insert e (link_conn e host key) i b sk) (\<lambda>r w'. events_inv e w' \<and> r \<noteq> Panic \<and>
     (if is_ok r then r = Ok (Some b) \<and> held_events e key w' = (held_events e key w)(i \<mapsto> b)
      else held_events e key w' = held_events e key w \<or> held_events e key w' = (held_events e key w)(i \<mapsto> b))) w"
    (is "wp _ ?Q w")
proof -
  have stores: "wp (handle m (\<lambda>_. ret (Some b)) (\<lambda>err. throw (OracleStorageApiError err))) ?Q w1"
    if same: "event_view (link_pg w1) = event_view (link_pg w)"
      and m: "wp m (\<lambda>r w'. events_inv e w' \<and> r \<noteq> Panic \<and>
        (if is_ok r then held_events e key w' = (held_events e key w1)(i \<mapsto> b)
         else held_events e key w' = held_events e key w1 \<or> held_events e key w' = (held_events e key w1)(i \<mapsto> b))) w1"
    for m :: "(link, 'c, ApiError) io" and w1
  proof -
    have held: "held_events e key w1 = held_events e key w" by (rule held_same [OF same])
    show ?thesis
      unfolding wp_handle by (rule wp_mono [OF m]) (auto simp: held wp_simps split: outcome.split)
  qed
  show ?thesis
    unfolding conn_insert_def Let_def wp_handle [of "client_get_event e c q k" for c q k] StorageApiConn.simps
  proof (rule wp_mono [OF get_event_effect [OF inv]])
    fix r :: "(ClientEvent option, ApiError) outcome" and w1
    assume got: "events_inv e w1 \<and> event_view (link_pg w1) = event_view (link_pg w) \<and> r \<noteq> Panic \<and>
       (\<forall>x. r = Ok x \<longrightarrow> x = map_option client_event (event_view (link_pg w) (key, i)))"
    note create = stores [OF _ create_event_effect] and update = stores [OF _ update_event_effect]
    show "case r of
        Ok event \<Rightarrow> wp (if event \<noteq> None
           then handle (client_update_event e (link_client e host)
               \<lparr>ue_event_id = i, ue_content = b64_encode e b, ue_key = key\<rparr> sk)
               (\<lambda>_. ret (Some b)) (\<lambda>err. throw (OracleStorageApiError err))
           else handle (client_create_event e (link_client e host)
               \<lparr>ne_event_id = i, ne_content = b64_encode e b, ne_key = key\<rparr> sk)
               (\<lambda>_. ret (Some b)) (\<lambda>err. throw (OracleStorageApiError err))) ?Q w1
      | Err err \<Rightarrow> wp (throw (OracleStorageApiError err)) ?Q w1 | Panic \<Rightarrow> ?Q Panic w1"
      using got create update held_same [of w1 w e key] by (cases r) (simp_all add: wp_simps)
  qed
qed

lemma wp_conn_get:
  assumes inv: "events_inv e w"
  shows "wp (conn_get e (link_conn e host key) i sk) (\<lambda>r w'. events_inv e w'
     \<and> held_events e key w' = held_events e key w \<and> r \<noteq> Panic \<and> (\<forall>x. r = Ok x \<longrightarrow> x = held_events e key w i)) w"
  unfolding conn_get_def wp_and_then wp_map_err StorageApiConn.simps
proof (rule wp_mono [OF get_event_effect [OF inv]])
  let ?Q = "\<lambda>r w'. events_inv e w' \<and> held_events e key w' = held_events e key w \<and> r \<noteq> Panic
    \<and> (\<forall>x. r = Ok x \<longrightarrow> x = held_events e key w i)"
  fix r :: "(ClientEvent option, ApiError) outcome" and w1
  assume got: "events_inv e w1 \<and> event_view (link_pg w1) = event_view (link_pg w) \<and> r \<noteq> Panic \<and>
     (\<forall>x. r = Ok x \<longrightarrow> x = map_option client_event (event_view (link_pg w) (key, i)))"
  have same: "held_events e key w1 = held_events e key w" using got by (blast intro: held_same)
  have row: "wp (case map_option client_event (event_view (link_pg w) (key, i)) of
        None \<Rightarrow> ret None | Some event \<Rightarrow> and_then (of_outcome (b64_decoded e (ce_content event))) (\<lambda>res. ret (Some res)))
      ?Q w1"
    using got same
    by (cases "event_view (link_pg w) (key, i)"; cases "held_events e key w i")
      (simp_all add: wp_simps held_events_def row_bytes_def b64_decoded_def client_event_def)
  show "case outcome_map_err OracleStorageApiError r of
      Ok event \<Rightarrow> wp (case event of None \<Rightarrow> ret None
        | Some event \<Rightarrow> and_then (of_outcome (b64_decoded e (ce_content event))) (\<lambda>res. ret (Some res))) ?Q w1
    | Err x \<Rightarrow> ?Q (Err x) w1 | Panic \<Rightarrow> ?Q Panic w1"
    using got same row by (cases r) simp_all
qed

text \<open>The rows of the key, decoded one by one.\<close>

lemma decoded_rows:
  assumes ok: "pg_ok pg"
    and rs: "distinct rs" "set rs = {r. event_view pg (event_ident r) = Some r \<and> e_key r = key}"
    and run: "outcome_collect (\<lambda>ev. outcome_bind (b64_decoded e (ce_content ev)) (\<lambda>c. Ok (ce_event_id ev, c)))
      (map client_event rs) = Ok kvs"
  shows "distinct (map fst kvs)" "map_of kvs i = Option.bind (event_view pg (key, i)) (row_bytes e)"
proof -
  have rel: "list_all2 (\<lambda>r kv. fst kv = e_event_id r \<and> row_bytes e r = Some (snd kv)) rs kvs"
    using run unfolding outcome_collect_Ok_iff list_all2_map1
    by (rule list_all2_mono) (auto simp: b64_decoded_def client_event_def row_bytes_def)
  then have keys: "map fst kvs = map e_event_id rs"
    by (induction rule: list_all2_induct) auto
  have "inj_on e_event_id (set rs)"
    by (rule inj_onI) (metis (mono_tags, lifting) event_ident_def mem_Collect_eq option.inject rs(2))
  then show dist: "distinct (map fst kvs)" using rs(1) by (simp add: keys distinct_map)
  have row: "event_view pg (key, e_event_id r) = Some r" if "r \<in> set rs" for r
    using that rs(2) by (auto simp: event_ident_def)
  show "map_of kvs i = Option.bind (event_view pg (key, i)) (row_bytes e)"
  proof (cases "event_view pg (key, i)")
    case None
    then have "i \<notin> set (map fst kvs)" using row by (auto simp: keys)
    then show ?thesis using None by (metis bind.bind_lzero list.set_map map_of_eq_None_iff)
  next
    case (Some r)
    then have id: "event_ident r = (key, i)"
      using ok by (auto simp: event_view_def pg_ok_def tview_Some_iff)
    then have "r \<in> set rs" using Some rs(2) by (auto simp: event_ident_def)
    then obtain n where n: "n < length rs" "rs ! n = r" by (auto simp: in_set_conv_nth)
    have "length kvs = length rs" using rel by (simp add: list_all2_lengthD)
    with n list_all2_nthD [OF rel n(1)] have "kvs ! n \<in> set kvs" "fst (kvs ! n) = i" "row_bytes e r = Some (snd (kvs ! n))"
      using id by (auto simp: event_ident_def)
    with dist have "map_of kvs i = row_bytes e r" by (metis map_of_is_SomeI prod.collapse)
    with Some show ?thesis by simp
  qed
qed

lemma get_events_effect:
  assumes inv: "events_inv e w"
  shows "wp (client_get_events e (link_client e host) \<lparr>erp_key = key, erp_event_id = None\<rparr> sk) (\<lambda>r w'.
     events_inv e w' \<and> event_view (link_pg w') = event_view (link_pg w) \<and> r \<noteq> Panic \<and>
     (\<forall>x. r = Ok x \<longrightarrow> (\<exists>rs. x = map client_event rs \<and> distinct rs
        \<and> set rs = {row. event_view (link_pg w) (event_ident row) = Some row \<and> e_key row = key}))) w"
    (is "wp (client_get_events e _ ?q sk) _ w")
proof (rule wp_mono [OF wp_kept [OF get_events_kept events_invD(2) [OF inv]
        client_get_events_law [OF events_invD(1,2) [OF inv]]]])
  let ?shown = "\<lambda>rs. those (map (shown_event e) rs)"
  fix r w'
  assume "link_ok w' \<and> (lost w r w' \<or> ran (db_get_events ?q) ?shown w r w')"
  then have ok: "events_inv e w'" and seen: "lost w r w' \<or> ran (db_get_events ?q) ?shown w r w'"
    using inv by (auto simp: events_inv_def)
  show "events_inv e w' \<and> event_view (link_pg w') = event_view (link_pg w) \<and> r \<noteq> Panic \<and>
     (\<forall>x. r = Ok x \<longrightarrow> (\<exists>rs. x = map client_event rs \<and> distinct rs
        \<and> set rs = {row. event_view (link_pg w) (event_ident row) = Some row \<and> e_key row = key}))"
    using seen
  proof (cases rule: seenE)
    case (2 dr)
    note eff = wp_run [OF get_events_law [OF events_invD(3) [OF inv]] 2(1)]
    have "\<exists>rs. x = map client_event rs \<and> distinct rs
        \<and> set rs = {row. event_view (link_pg w) (event_ident row) = Some row \<and> e_key row = key}" if x: "r = Ok x" for x
    proof -
      obtain rs where "dr = Ok rs" "x = map client_event rs"
        using 2(3) [OF x] by (auto dest: those_shown_events)
      with eff show ?thesis by (intro exI [of _ rs]) (auto simp: event_matches_def opt_filter_def)
    qed
    with eff 2(2) ok show ?thesis by blast
  qed (use ok in simp)
qed

lemma wp_conn_get_all:
  assumes inv: "events_inv e w"
  shows "wp (conn_get_all e (link_conn e host key) sk) (\<lambda>r w'. events_inv e w'
     \<and> held_events e key w' = held_events e key w \<and> r \<noteq> Panic \<and>
     (\<forall>x. r = Ok x \<longrightarrow> (\<exists>kvs. x = Some kvs \<and> distinct (map fst kvs) \<and> map_of kvs = held_events e key w))) w"
    (is "wp _ ?Q w")
  unfolding conn_get_all_def wp_and_then wp_map_err wp_of_outcome StorageApiConn.simps
proof (rule wp_mono [OF get_events_effect [OF inv]])
  let ?dec = "outcome_collect (\<lambda>ev. outcome_bind (b64_decoded e (ce_content ev)) (\<lambda>c. Ok (ce_event_id ev, c)))"
  fix r :: "(ClientEvent list, ApiError) outcome" and w1
  assume got: "events_inv e w1 \<and> event_view (link_pg w1) = event_view (link_pg w) \<and> r \<noteq> Panic \<and>
     (\<forall>x. r = Ok x \<longrightarrow> (\<exists>rs. x = map client_event rs \<and> distinct rs
        \<and> set rs = {row. event_view (link_pg w) (event_ident row) = Some row \<and> e_key row = key}))"
  have same: "held_events e key w1 = held_events e key w" using got by (blast intro: held_same)
  have total: "?dec evs \<noteq> Panic" for evs :: "ClientEvent list"
  proof (induction evs)
    case (Cons ev evs)
    then show ?case by (cases "b64_decode e (ce_content ev)"; cases "?dec evs") (simp_all add: b64_decoded_def)
  qed simp
  have "distinct (map fst kvs) \<and> map_of kvs = held_events e key w" if x: "r = Ok x" "?dec x = Ok kvs" for x kvs
  proof -
    obtain rs where rs: "x = map client_event rs" "distinct rs"
      "set rs = {row. event_view (link_pg w) (event_ident row) = Some row \<and> e_key row = key}"
      using got x(1) by blast
    note dec = decoded_rows [OF events_invD(3) [OF inv] rs(2,3) x(2) [unfolded rs(1)]]
    have "map_of kvs = held_events e key w" by (rule ext) (simp add: held_events_def dec(2))
    with dec(1) show ?thesis ..
  qed
  with got same total show "case outcome_map_err OracleStorageApiError r of
      Ok evs \<Rightarrow> (case ?dec evs of Ok result \<Rightarrow> wp (ret (Some result)) ?Q w1
         | Err x \<Rightarrow> ?Q (Err x) w1 | Panic \<Rightarrow> ?Q Panic w1)
    | Err x \<Rightarrow> ?Q (Err x) w1 | Panic \<Rightarrow> ?Q Panic w1"
    by (cases r) (auto simp: wp_simps split: outcome.split)
qed

interpretation attestor_events: event_store
  "\<lambda>i b. conn_insert e (link_conn e host key) i b sk" "\<lambda>i. conn_get e (link_conn e host key) i sk"
  "conn_get_all e (link_conn e host key) sk" "held_events e key" "events_inv e"
  by unfold_locales (fact wp_conn_insert wp_conn_get wp_conn_get_all)+

end
