(* ===== verification/Attestor.thy ===== *)
theory Attestor
  imports Event_Store Dlc_Types Hex Rust_Text
begin

text \<open>
  \<open>attestor/src/lib.rs\<close> and \<open>attestor/src/oracle/mod.rs\<close>: the attestor. It draws one secret
  nonce per outcome digit, announces the public nonces in a signed announcement, keeps the
  secret nonces with the announcement in the storage API, and later signs each binary digit of
  the outcome with the nonce of its position. The world is the network the storage connection
  runs on, together with the random number generator that secret keys are drawn from. The
  libraries (secp256k1, bitcoin's key derivation, the DLC messages, the time parser) are the
  fields of \<open>oracle_ext\<close>; \<open>oracle_ok\<close> states what they promise. The values handed to
  JavaScript are the Rust values before \<open>serde_wasm_bindgen\<close>.
\<close>

section \<open>Libraries\<close>

record oracle_ext =
  xpriv_from_str :: "string \<Rightarrow> bytes option"
  path_from_str :: "string \<Rightarrow> (nat \<times> bool) list option"
  derive_priv :: "bytes \<Rightarrow> (nat \<times> bool) list \<Rightarrow> bytes option"
  seckey_valid :: "bytes \<Rightarrow> bool"
  sk_to_string :: "bytes \<Rightarrow> string"
  sk_from_str :: "string \<Rightarrow> bytes option"
  xonly :: "bytes \<Rightarrow> bytes"
  xonly_to_string :: "bytes \<Rightarrow> string"
  xonly_from_str :: "string \<Rightarrow> bytes option"
  parse_rfc3339 :: "string \<Rightarrow> int option"
  schnorr_sign :: "bytes \<Rightarrow> bytes \<Rightarrow> bytes"
  schnorr_sign_with_nonce :: "bytes \<Rightarrow> bytes \<Rightarrow> bytes \<Rightarrow> bytes"
  schnorr_verify :: "bytes \<Rightarrow> bytes \<Rightarrow> bytes \<Rightarrow> bool"
  schnorr_nonce :: "bytes \<Rightarrow> bytes"
  write_event :: "oracle_event \<Rightarrow> bytes"
  encode_announcement :: "announcement \<Rightarrow> bytes"
  read_announcement :: "bytes \<Rightarrow> announcement option"
  encode_attestation :: "attestation \<Rightarrow> bytes"
  read_attestation :: "bytes \<Rightarrow> attestation option"
  announcement_json :: "announcement \<Rightarrow> string option"
  attestation_debug :: "attestation \<Rightarrow> string"
  oracle_error_debug :: "OracleError \<Rightarrow> string"

text \<open>
  \<open>xonly\<close> is the x-only public key of a public key; \<open>schnorr_verify d s p\<close> checks the BIP-340
  signature \<open>s\<close> of the digest \<open>d\<close> under the x-only key \<open>p\<close>, and \<open>schnorr_nonce\<close> reads the
  public nonce a signature starts with. The wire format of the messages counts nonces, signatures
  and outcomes in 16 bits, so only messages within that bound survive encoding.
\<close>

definition oracle_ok :: "web_ext \<Rightarrow> oracle_ext \<Rightarrow> bool" where
  "oracle_ok e X \<longleftrightarrow>
     (\<forall>sk. seckey_valid X sk \<longrightarrow> sk_from_str X (sk_to_string X sk) = Some sk) \<and>
     (\<forall>a. length (oe_nonces (ann_oracle_event a)) < 2 ^ 16 \<longrightarrow>
        read_announcement X (encode_announcement X a) = Some a) \<and>
     (\<forall>a. length (att_signatures a) < 2 ^ 16 \<and> length (att_outcomes a) < 2 ^ 16 \<longrightarrow>
        read_attestation X (encode_attestation X a) = Some a) \<and>
     (\<forall>d sk. seckey_valid X sk \<longrightarrow> schnorr_verify X d (schnorr_sign X d sk) (xonly X (pk_of_sk e sk))) \<and>
     (\<forall>d sk nonce. seckey_valid X sk \<and> seckey_valid X nonce \<longrightarrow>
        schnorr_verify X d (schnorr_sign_with_nonce X d sk nonce) (xonly X (pk_of_sk e sk))
        \<and> schnorr_nonce X (schnorr_sign_with_nonce X d sk nonce) = xonly X (pk_of_sk e nonce))"

section \<open>Stored events\<close>

record DbValue =
  dv_sk_nonces :: "bytes list option"
  dv_announcement :: bytes
  dv_attestation :: "bytes option"
  dv_outcome :: "u64 option"
  dv_uuid :: string
  dv_chain :: "string option"

definition json_bytes :: "bytes \<Rightarrow> json" where
  "json_bytes bs = JArr (map (\<lambda>b. JNum (uint b)) bs)"

fun json_option :: "('a \<Rightarrow> json) \<Rightarrow> 'a option \<Rightarrow> json" where
  "json_option f None = JNull"
| "json_option f (Some a) = f a"

text \<open>The derived serializer of the tuple struct: an array of its six fields.\<close>

definition db_value_json :: "oracle_ext \<Rightarrow> DbValue \<Rightarrow> json" where
  "db_value_json X v = JArr
     [json_option (\<lambda>ks. JArr (map (\<lambda>k. JStr (sk_to_string X k)) ks)) (dv_sk_nonces v),
      json_bytes (dv_announcement v),
      json_option json_bytes (dv_attestation v),
      json_option (\<lambda>n. JNum (uint n)) (dv_outcome v),
      JStr (dv_uuid v),
      opt_json (dv_chain v)]"

fun byte_of_json :: "json \<Rightarrow> u8 option" where
  "byte_of_json (JNum n) = (if 0 \<le> n \<and> n \<le> 255 then Some (word_of_int n) else None)"
| "byte_of_json _ = None"

definition bytes_of_json :: "json \<Rightarrow> bytes option" where
  "bytes_of_json = json_list byte_of_json"

definition u64_of_json :: "json \<Rightarrow> u64 option" where
  "u64_of_json j = map_option word_of_int (as_u64 j)"

definition key_of_json :: "oracle_ext \<Rightarrow> json \<Rightarrow> bytes option" where
  "key_of_json X j = Option.bind (as_str j) (sk_from_str X)"

text \<open>An \<open>Option\<close> reads \<open>null\<close> as \<open>None\<close>.\<close>

definition option_of_json :: "(json \<Rightarrow> 'a option) \<Rightarrow> json \<Rightarrow> 'a option option" where
  "option_of_json f j = (if j = JNull then Some None else map_option Some (f j))"

text \<open>The derived deserializer: five fields are required, the sixth defaults to \<open>None\<close>.\<close>

definition db_fields_of_json :: "oracle_ext \<Rightarrow> json list \<Rightarrow> string option \<Rightarrow> DbValue option" where
  "db_fields_of_json X js chain = (case js of
       [j0, j1, j2, j3, j4] \<Rightarrow>
         (case (option_of_json (json_list (key_of_json X)) j0, bytes_of_json j1,
                option_of_json bytes_of_json j2, option_of_json u64_of_json j3, as_str j4) of
            (Some ks, Some ann, Some att, Some out, Some uuid) \<Rightarrow>
              Some \<lparr>dv_sk_nonces = ks, dv_announcement = ann, dv_attestation = att, dv_outcome = out,
                dv_uuid = uuid, dv_chain = chain\<rparr>
          | _ \<Rightarrow> None)
     | _ \<Rightarrow> None)"

fun db_value_of_json :: "oracle_ext \<Rightarrow> json \<Rightarrow> DbValue option" where
  "db_value_of_json X (JArr [j0, j1, j2, j3, j4]) = db_fields_of_json X [j0, j1, j2, j3, j4] None"
| "db_value_of_json X (JArr [j0, j1, j2, j3, j4, j5]) =
     Option.bind (option_of_json as_str j5) (db_fields_of_json X [j0, j1, j2, j3, j4])"
| "db_value_of_json X _ = None"

text \<open>\<open>serde_json::to_string(..).into_bytes()\<close> and \<open>from_str(&from_utf8_lossy(..))\<close>.\<close>

definition db_value_bytes :: "web_ext \<Rightarrow> oracle_ext \<Rightarrow> DbValue \<Rightarrow> bytes" where
  "db_value_bytes e X v = bytes_of (jprint e (db_value_json X v))"

definition db_value_of_bytes :: "web_ext \<Rightarrow> oracle_ext \<Rightarrow> bytes \<Rightarrow> DbValue option" where
  "db_value_of_bytes e X bs = Option.bind (jparse e (from_utf8_lossy bs)) (db_value_of_json X)"

section \<open>Announcements and attestations\<close>

text \<open>\<open>SecretKey::new(&mut thread_rng())\<close>.\<close>

definition new_secret_key :: "('w \<times> (nat \<Rightarrow> bytes), bytes, 'e) io" where
  "new_secret_key = (\<lambda>(w, rng). (Ok (rng 0), (w, \<lambda>i. rng (Suc i))))"

definition keypair_from_seckey :: "oracle_ext \<Rightarrow> bytes \<Rightarrow> (bytes, 'e) outcome" where
  "keypair_from_seckey X sk = (if seckey_valid X sk then Ok sk else Panic)"

definition nb_nonces :: "event_descriptor \<Rightarrow> (nat, 'e) outcome" where
  "nb_nonces d = (case d of DigitDecompositionEvent dd \<Rightarrow> Ok (unat (dd_nb_digits dd)) | EnumEvent _ \<Rightarrow> Panic)"

definition generate_nonces_for_event ::
  "web_ext \<Rightarrow> oracle_ext \<Rightarrow> event_descriptor \<Rightarrow> ('w \<times> (nat \<Rightarrow> bytes), bytes list \<times> bytes list, 'e) io" where
  "generate_nonces_for_event e X event_descriptor =
     and_then (of_outcome (nb_nonces event_descriptor)) (\<lambda>nb.
     and_then (map_io (\<lambda>_. new_secret_key) [0..<nb]) (\<lambda>priv_nonces.
     and_then (of_outcome (outcome_collect (keypair_from_seckey X) priv_nonces)) (\<lambda>key_pairs.
     ret (map (\<lambda>k. xonly X (pk_of_sk e k)) key_pairs, priv_nonces))))"

definition attestor_descriptor :: event_descriptor where
  "attestor_descriptor = DigitDecompositionEvent
     \<lparr>dd_base = 2, dd_is_signed = False, dd_unit = ''BTCUSD'', dd_precision = 0, dd_nb_digits = 14\<rparr>"

definition digest_of_bytes :: "web_ext \<Rightarrow> bytes \<Rightarrow> bytes" where
  "digest_of_bytes e bs = sha256 e (text_of bs)"

definition build_announcement ::
  "web_ext \<Rightarrow> oracle_ext \<Rightarrow> bytes \<Rightarrow> int \<Rightarrow> string \<Rightarrow>
     ('w \<times> (nat \<Rightarrow> bytes), announcement \<times> bytes list, 'e) io" where
  "build_announcement e X keypair maturation event_id =
     (let event_descriptor = attestor_descriptor in
      and_then (generate_nonces_for_event e X event_descriptor) (\<lambda>(oracle_nonces, sk_nonces).
      and_then (of_outcome (if 0 \<le> maturation \<and> maturation \<le> u32_max then Ok (word_of_int maturation) else Panic))
        (\<lambda>maturity.
      let oracle_event = \<lparr>oe_nonces = oracle_nonces, oe_maturity_epoch = maturity,
            oe_descriptor = event_descriptor, oe_event_id = event_id\<rparr>;
          sig = schnorr_sign X (digest_of_bytes e (write_event X oracle_event)) keypair
      in ret (\<lparr>ann_signature = sig, ann_oracle_public_key = xonly X (pk_of_sk e keypair),
           ann_oracle_event = oracle_event\<rparr>, sk_nonces))))"

text \<open>\<open>outcomes.iter().zip(nonces.iter())\<close> stops at the shorter list.\<close>

definition build_attestation ::
  "web_ext \<Rightarrow> oracle_ext \<Rightarrow> bytes list \<Rightarrow> bytes \<Rightarrow> string list \<Rightarrow> attestation" where
  "build_attestation e X outstanding_sk_nonces key_pair outcomes =
     (let signatures = map (\<lambda>(x, nonce). schnorr_sign_with_nonce X (sha256 e x) key_pair nonce)
            (zip outcomes outstanding_sk_nonces)
      in \<lparr>att_oracle_public_key = xonly X (pk_of_sk e key_pair), att_signatures = signatures,
          att_outcomes = outcomes\<rparr>)"

text \<open>The digits of the outcome, one string each.\<close>

definition outcome_digits :: "u16 \<Rightarrow> u64 \<Rightarrow> string list" where
  "outcome_digits num_digits_to_sign outcome =
     map (\<lambda>c. [c]) (format_binary (unat num_digits_to_sign) (unat outcome))"

section \<open>The attestor\<close>

text \<open>\<open>Oracle\<close>: the key pair is its secret key; \<open>get_keypair\<close> and \<open>get_secp\<close> are its fields.\<close>

record 'w Oracle =
  or_event_handler :: "'w EventHandler"
  or_key_pair :: bytes

record 'w Attestor =
  at_oracle :: "'w Oracle"
  at_secret_key :: bytes

definition oracle_new :: "web_ext \<Rightarrow> (string \<Rightarrow> 'w StorageApiClient) \<Rightarrow> bytes \<Rightarrow> string \<Rightarrow> ('w Oracle, OracleError) outcome" where
  "oracle_new e mk_client key_pair storage_api_endpoint =
     Ok \<lparr>or_event_handler = event_handler_new mk_client storage_api_endpoint (pk_to_string e (pk_of_sk e key_pair)),
       or_key_pair = key_pair\<rparr>"

definition attestor_new ::
  "web_ext \<Rightarrow> oracle_ext \<Rightarrow> (string \<Rightarrow> 'w StorageApiClient) \<Rightarrow> string \<Rightarrow> string \<Rightarrow> ('w Attestor, string) outcome" where
  "attestor_new e X mk_client storage_api_endpoint x_secret_key_str =
     outcome_bind (ok_or (xpriv_from_str X x_secret_key_str) ''Unable to decode xpriv env variable'') (\<lambda>xpriv_key.
     outcome_bind (ok_or (path_from_str X ''m/44h/0h/0h/0'') ''A valid derivation path'') (\<lambda>external_derivation_path.
     outcome_bind (ok_or (derive_priv X xpriv_key (external_derivation_path @ [(0, False), (0, False)]))
        ''Should be able to derive the private key path during wallet setup'') (\<lambda>secret_key.
     outcome_bind (keypair_from_seckey X secret_key) (\<lambda>key_pair.
     outcome_bind (outcome_map_err (\<lambda>_. ''Error creating Oracle'') (oracle_new e mk_client key_pair storage_api_endpoint))
       (\<lambda>oracle. Ok \<lparr>at_oracle = oracle, at_secret_key = secret_key\<rparr>)))))"

abbreviation storage_api :: "'w Attestor \<Rightarrow> 'w StorageApiConn" where
  "storage_api a \<equiv> eh_storage_api (or_event_handler (at_oracle a))"

definition attestor_get_pubkey :: "web_ext \<Rightarrow> oracle_ext \<Rightarrow> 'w Attestor \<Rightarrow> string" where
  "attestor_get_pubkey e X a = xonly_to_string X (xonly X (pk_of_sk e (or_key_pair (at_oracle a))))"

definition attestor_get_health :: json where
  "attestor_get_health =
     JObj [(''data'', JArr [JObj [(''status'', JStr ''healthy''), (''message'', JStr [])]])]"

definition attestor_create_event ::
  "web_ext \<Rightarrow> oracle_ext \<Rightarrow> 'w Attestor \<Rightarrow> string \<Rightarrow> string \<Rightarrow> string \<Rightarrow> ('w \<times> (nat \<Rightarrow> bytes), unit, string) io" where
  "attestor_create_event e X a uuid maturation chain =
     and_then (of_outcome (ok_or (parse_rfc3339 X maturation) ''Unable to parse maturation time'')) (\<lambda>maturation.
     and_then (build_announcement e X (or_key_pair (at_oracle a)) maturation uuid)
       (\<lambda>(announcement_obj, outstanding_sk_nonces).
     let db_value = \<lparr>dv_sk_nonces = Some outstanding_sk_nonces,
           dv_announcement = encode_announcement X announcement_obj, dv_attestation = None,
           dv_outcome = None, dv_uuid = uuid, dv_chain = Some chain\<rparr>
     in handle (lift_fst (conn_insert e (storage_api a) uuid (db_value_bytes e X db_value) (at_secret_key a)))
          (\<lambda>res. case res of Some _ \<Rightarrow> ret () | None \<Rightarrow> throw ''Failed to create event'')
          (\<lambda>_. throw ''Failed to create event'')))"

text \<open>The failures before the attestation is built; what is stored is a \<open>DbValue\<close> with nonces.\<close>

definition attestable_event ::
  "web_ext \<Rightarrow> oracle_ext \<Rightarrow> bytes \<Rightarrow> (DbValue \<times> bytes list \<times> u16, string) outcome" where
  "attestable_event e X event_vec =
     outcome_bind (ok_or (db_value_of_bytes e X event_vec)
        (''[WASM-ATTESTOR] Error deserializing event from StorageAPI: '' @ display_error e ''json'')) (\<lambda>event.
     outcome_bind (ok_or (dv_sk_nonces event) ''Error: event is None'') (\<lambda>outstanding_sk_nonces.
     outcome_bind (ok_or (read_announcement X (dv_announcement event))
        (''[WASM-ATTESTOR] Error reading announcement from StorageAPI: '' @ display_error e ''decode'')) (\<lambda>announcement.
     case oe_descriptor (ann_oracle_event announcement) of
       DigitDecompositionEvent d \<Rightarrow> Ok (event, outstanding_sk_nonces, dd_nb_digits d)
     | EnumEvent _ \<Rightarrow>
         Err ''oracle event with uuid Got an unexpected EventDescriptor type! not found'')))"

text \<open>The event with its attestation and outcome.\<close>

definition attested_event ::
  "web_ext \<Rightarrow> oracle_ext \<Rightarrow> bytes \<Rightarrow> DbValue \<Rightarrow> bytes list \<Rightarrow> u16 \<Rightarrow> u64 \<Rightarrow> DbValue" where
  "attested_event e X key_pair event outstanding_sk_nonces num_digits_to_sign outcome_value =
     (let outcomes = outcome_digits num_digits_to_sign outcome_value;
          attestation = build_attestation e X outstanding_sk_nonces key_pair outcomes
      in event\<lparr>dv_outcome := Some outcome_value, dv_attestation := Some (encode_attestation X attestation)\<rparr>)"

definition attestor_attest ::
  "web_ext \<Rightarrow> oracle_ext \<Rightarrow> 'w Attestor \<Rightarrow> string \<Rightarrow> u64 \<Rightarrow> ('w, unit, string) io" where
  "attestor_attest e X a uuid outcome_value =
     and_then (map_err (\<lambda>x. ''[WASM-ATTESTOR] Error retrieving event from StorageAPI: '' @ oracle_error_debug X x)
        (conn_get e (storage_api a) uuid (at_secret_key a))) (\<lambda>res.
     and_then (of_outcome (ok_or res (''[WASM-ATTESTOR] Event missing in StorageAPI with uuid: '' @ uuid))) (\<lambda>event_vec.
     and_then (of_outcome (attestable_event e X event_vec)) (\<lambda>(event, outstanding_sk_nonces, num_digits_to_sign).
     let event = attested_event e X (or_key_pair (at_oracle a)) event outstanding_sk_nonces num_digits_to_sign outcome_value
     in handle (conn_insert e (storage_api a) uuid (db_value_bytes e X event) (at_secret_key a))
          (\<lambda>_. ret ()) (\<lambda>_. ret ()))))"

section \<open>Reading events\<close>

record ApiOracleEvent =
  ao_event_id :: string
  ao_uuid :: string
  ao_rust_announcement_json :: string
  ao_rust_announcement :: string
  ao_rust_attestation_json :: "string option"
  ao_rust_attestation :: "string option"
  ao_maturation :: string
  ao_outcome :: "u64 option"
  ao_chain :: "string option"

definition attestation_text :: "oracle_ext \<Rightarrow> bytes \<Rightarrow> string" where
  "attestation_text X att_vec = (case read_attestation X att_vec of
       Some att \<Rightarrow> attestation_debug X att
     | None \<Rightarrow> ''[WASM-ATTESTOR] Error decoding attestation'')"

definition parse_database_entry :: "web_ext \<Rightarrow> oracle_ext \<Rightarrow> bytes \<Rightarrow> (ApiOracleEvent, string) outcome" where
  "parse_database_entry e X event =
     outcome_bind (ok_or (db_value_of_bytes e X event) ''[WASM-ATTESTOR] Error parsing event from string'') (\<lambda>event.
     outcome_bind (ok_or (read_announcement X (dv_announcement event)) ''[WASM-ATTESTOR] Error reading OracleAnnouncement'')
       (\<lambda>announcement.
     outcome_bind (ok_or (announcement_json X announcement) ''[WASM-ATTESTOR] Error serializing announcement to JSON'')
       (\<lambda>rust_announcement_json.
     Ok \<lparr>ao_event_id = oe_event_id (ann_oracle_event announcement),
       ao_uuid = dv_uuid event,
       ao_rust_announcement_json = rust_announcement_json,
       ao_rust_announcement = hex_str (dv_announcement event),
       ao_rust_attestation_json = map_option (attestation_text X) (dv_attestation event),
       ao_rust_attestation = map_option hex_str (dv_attestation event),
       ao_maturation = show_nat (unat (oe_maturity_epoch (ann_oracle_event announcement))),
       ao_outcome = dv_outcome event,
       ao_chain = dv_chain event\<rparr>)))"

definition attestor_get_events :: "web_ext \<Rightarrow> oracle_ext \<Rightarrow> 'w Attestor \<Rightarrow> ('w, ApiOracleEvent list, string) io" where
  "attestor_get_events e X a =
     and_then (map_err (\<lambda>_. ''[WASM-ATTESTOR] Error getting all events'')
        (conn_get_all e (storage_api a) (at_secret_key a))) (\<lambda>events.
     and_then (of_outcome (ok_or events ''[WASM-ATTESTOR] Error: events is None'')) (\<lambda>events.
     of_outcome (outcome_collect (\<lambda>event. parse_database_entry e X (snd event)) events)))"

text \<open>\<open>None\<close> stands for \<open>JsValue::NULL\<close>.\<close>

definition attestor_get_event ::
  "web_ext \<Rightarrow> oracle_ext \<Rightarrow> 'w Attestor \<Rightarrow> string \<Rightarrow> ('w, ApiOracleEvent option, string) io" where
  "attestor_get_event e X a uuid =
     and_then (map_err (\<lambda>_. ''[WASM-ATTESTOR] Error getting event'')
        (conn_get e (storage_api a) uuid (at_secret_key a))) (\<lambda>result.
     case result of
       Some event \<Rightarrow>
         and_then (of_outcome (outcome_map_err (\<lambda>_. ''[WASM-ATTESTOR] Error parsing database entry'')
            (parse_database_entry e X event))) (\<lambda>parsed_event. ret (Some parsed_event))
     | None \<Rightarrow> ret None)"

end
