(* ===== verification/Attestor_Laws.thy ===== *)
theory Attestor_Laws
  imports Attestor
begin

text \<open>
  What the attestor keeps: every event it stores carries a signed announcement of the nonces
  whose secrets are stored beside it, and an attestation, when there is one, signs the digits of
  the recorded outcome with those nonces. The invariant \<open>attestor_inv\<close> says so of the whole
  store; every call keeps it, over a network that may lose requests and replies.
\<close>

section \<open>The text of stored events\<close>

text \<open>Documents whose strings are UTF-8, as every Rust \<open>String\<close> is; \<open>serde_json\<close> prints them as UTF-8.\<close>

fun json_text :: "json \<Rightarrow> bool" where
  "json_text (JStr s) = utf8_valid s"
| "json_text (JArr xs) = list_all json_text xs"
| "json_text (JObj kvs) = list_all (\<lambda>kv. utf8_valid (fst kv) \<and> json_text (snd kv)) kvs"
| "json_text _ = True"

definition text_ok :: "web_ext \<Rightarrow> oracle_ext \<Rightarrow> bool" where
  "text_ok e X \<longleftrightarrow> (\<forall>j. json_text j \<longrightarrow> utf8_valid (jprint e j)) \<and> (\<forall>k. utf8_valid (sk_to_string X k))"

definition db_value_ok :: "oracle_ext \<Rightarrow> DbValue \<Rightarrow> bool" where
  "db_value_ok X v \<longleftrightarrow> utf8_valid (dv_uuid v) \<and> (\<forall>c. dv_chain v = Some c \<longrightarrow> utf8_valid c)
     \<and> (\<forall>ks. dv_sk_nonces v = Some ks \<longrightarrow> list_all (seckey_valid X) ks)"

lemma bytes_of_json_bytes: "bytes_of_json (json_bytes bs) = Some bs"
proof -
  have "byte_of_json (JNum (uint b)) = Some b" for b
    using uint_bounded [of b] by simp
  then show ?thesis
    using those_map_Some [of bs byte_of_json "\<lambda>b. JNum (uint b)" id]
    by (simp add: bytes_of_json_def json_bytes_def comp_def)
qed

lemma option_of_json_option:
  assumes "\<And>a. x = Some a \<Longrightarrow> f (g a) = Some a" "\<And>a. g a \<noteq> JNull"
  shows "option_of_json f (json_option g x) = Some x"
  using assms by (cases x) (simp_all add: option_of_json_def)

lemma keys_of_json:
  assumes "oracle_ok e X" "list_all (seckey_valid X) ks"
  shows "json_list (key_of_json X) (JArr (map (\<lambda>k. JStr (sk_to_string X k)) ks)) = Some ks"
  using those_map_Some [of ks "key_of_json X" "\<lambda>k. JStr (sk_to_string X k)" id] assms
  by (simp add: key_of_json_def oracle_ok_def list_all_iff comp_def)

lemma db_value_json_roundtrip:
  assumes "oracle_ok e X" "db_value_ok X v"
  shows "db_value_of_json X (db_value_json X v) = Some v"
proof -
  have ks: "option_of_json (json_list (key_of_json X))
      (json_option (\<lambda>ks. JArr (map (\<lambda>k. JStr (sk_to_string X k)) ks)) (dv_sk_nonces v)) = Some (dv_sk_nonces v)"
    by (rule option_of_json_option) (use keys_of_json [OF assms(1)] assms(2) in \<open>auto simp: db_value_ok_def\<close>)
  have att: "option_of_json bytes_of_json (json_option json_bytes (dv_attestation v)) = Some (dv_attestation v)"
    by (rule option_of_json_option) (simp_all add: bytes_of_json_bytes, simp add: json_bytes_def)
  have out: "option_of_json u64_of_json (json_option (\<lambda>n. JNum (uint n)) (dv_outcome v)) = Some (dv_outcome v)"
  proof (rule option_of_json_option)
    fix n :: u64
    show "u64_of_json (JNum (uint n)) = Some n"
      using uint_bounded [of n] by (simp add: u64_of_json_def u64_max_def)
  qed simp
  have chain: "option_of_json as_str (opt_json (dv_chain v)) = Some (dv_chain v)"
    by (cases "dv_chain v") (simp_all add: option_of_json_def)
  show ?thesis
    by (simp add: db_value_json_def ks att out chain db_fields_of_json_def bytes_of_json_bytes)
qed

lemma db_value_document: "json_wf (db_value_json X v)" "json_canon (db_value_json X v) = db_value_json X v"
  by (cases "dv_sk_nonces v"; cases "dv_attestation v"; cases "dv_outcome v"; cases "dv_chain v";
      simp add: db_value_json_def json_bytes_def list_all_iff comp_def)+

lemma db_value_text:
  assumes "text_ok e X" "db_value_ok X v"
  shows "utf8_valid (jprint e (db_value_json X v))"
proof -
  have "json_text (db_value_json X v)"
    using assms
    by (cases "dv_sk_nonces v"; cases "dv_attestation v"; cases "dv_outcome v"; cases "dv_chain v")
      (simp_all add: db_value_json_def json_bytes_def list_all_iff comp_def text_ok_def db_value_ok_def)
  then show ?thesis using assms(1) by (simp add: text_ok_def)
qed

lemma db_value_roundtrip:
  assumes "web_ok e" "oracle_ok e X" "text_ok e X" "db_value_ok X v"
  shows "db_value_of_bytes e X (db_value_bytes e X v) = Some v"
  using jparse_jprint [OF assms(1) db_value_document(1)]
  by (simp add: db_value_of_bytes_def db_value_bytes_def from_utf8_lossy_bytes [OF db_value_text [OF assms(3,4)]]
      db_value_document(2) db_value_json_roundtrip [OF assms(2,4)])

section \<open>Announcements\<close>

lemma draw_one: "new_secret_key (w, rng) = (Ok (rng 0), (w, \<lambda>i. rng (Suc i)))"
  by (simp add: new_secret_key_def)

lemma draw_keys:
  "map_io (\<lambda>_. new_secret_key) xs (w, rng) = (Ok (map rng [0..<length xs]), (w, \<lambda>i. rng (i + length xs)))"
proof (induction xs arbitrary: rng)
  case (Cons x xs)
  have "map rng [0..<length (x # xs)] = rng 0 # map (\<lambda>i. rng (Suc i)) [0..<length xs]"
    by (simp only: list.size add_Suc_right add_0_right map_upt_Suc)
  then show ?case
    by (simp add: and_then_def draw_one ret_def Cons.IH del: upt_Suc)
qed (simp add: ret_def)

definition announces :: "web_ext \<Rightarrow> oracle_ext \<Rightarrow> bytes \<Rightarrow> bytes list \<Rightarrow> string \<Rightarrow> announcement \<Rightarrow> bool" where
  "announces e X key nonces event_id ann \<longleftrightarrow>
     ann_oracle_public_key ann = xonly X (pk_of_sk e key)
     \<and> schnorr_verify X (digest_of_bytes e (write_event X (ann_oracle_event ann))) (ann_signature ann)
         (ann_oracle_public_key ann)
     \<and> oe_descriptor (ann_oracle_event ann) = attestor_descriptor
     \<and> oe_event_id (ann_oracle_event ann) = event_id
     \<and> oe_nonces (ann_oracle_event ann) = map (\<lambda>k. xonly X (pk_of_sk e k)) nonces
     \<and> length nonces = 14 \<and> list_all (seckey_valid X) nonces"

lemma build_announcement_run:
  assumes "oracle_ok e X" "seckey_valid X key" "\<And>i. seckey_valid X (rng i)"
  obtains "build_announcement e X key maturation event_id (w, rng)
        = (Panic :: (announcement \<times> bytes list, 'e) outcome, (w, \<lambda>i. rng (i + 14)))"
      "\<not> (0 \<le> maturation \<and> maturation \<le> u32_max)"
    | ann where "build_announcement e X key maturation event_id (w, rng)
          = (Ok (ann, map rng [0..<14]) :: (announcement \<times> bytes list, 'e) outcome, (w, \<lambda>i. rng (i + 14)))"
        "announces e X key (map rng [0..<14]) event_id ann"
        "oe_maturity_epoch (ann_oracle_event ann) = word_of_int maturation"
proof -
  have nb: "nb_nonces attestor_descriptor = Ok 14" by (simp add: nb_nonces_def attestor_descriptor_def)
  have keys: "outcome_collect (keypair_from_seckey X) (map rng [0..<14]) = Ok (map rng [0..<14])"
    by (rule trans [OF outcome_collect_all [where g = id]]) (use assms(3) in \<open>auto simp: keypair_from_seckey_def\<close>)
  have gen: "generate_nonces_for_event e X attestor_descriptor (w, rng)
      = (Ok (map (\<lambda>k. xonly X (pk_of_sk e k)) (map rng [0..<14]), map rng [0..<14]), (w, \<lambda>i. rng (i + 14)))"
    unfolding generate_nonces_for_event_def
    by (simp add: and_then_def of_outcome_def nb draw_keys keys ret_def del: upt_Suc)
  define ev where "ev = \<lparr>oe_nonces = map (\<lambda>k. xonly X (pk_of_sk e k)) (map rng [0..<14]),
    oe_maturity_epoch = word_of_int maturation, oe_descriptor = attestor_descriptor, oe_event_id = event_id\<rparr>"
  define ann where "ann = \<lparr>ann_signature = schnorr_sign X (digest_of_bytes e (write_event X ev)) key,
    ann_oracle_public_key = xonly X (pk_of_sk e key), ann_oracle_event = ev\<rparr>"
  show thesis
  proof (cases "0 \<le> maturation \<and> maturation \<le> u32_max")
    case True
    have run: "build_announcement e X key maturation event_id (w, rng)
        = (Ok (ann, map rng [0..<14]), (w, \<lambda>i. rng (i + 14)))"
      unfolding build_announcement_def Let_def
      using True by (simp add: and_then_def of_outcome_def gen ret_def ann_def ev_def del: upt_Suc)
    have "announces e X key (map rng [0..<14]) event_id ann"
      using assms by (simp add: announces_def ann_def ev_def oracle_ok_def list_all_iff del: upt_Suc)
    then show thesis by (rule that(2) [OF run]) (simp add: ann_def ev_def)
  next
    case False
    then show thesis
      by (intro that(1)) (auto simp: build_announcement_def Let_def and_then_def of_outcome_def gen)
  qed
qed

section \<open>Attestations\<close>

definition attests :: "web_ext \<Rightarrow> oracle_ext \<Rightarrow> announcement \<Rightarrow> u64 \<Rightarrow> attestation \<Rightarrow> bool" where
  "attests e X ann outcome_value att \<longleftrightarrow>
     att_oracle_public_key att = ann_oracle_public_key ann
     \<and> att_outcomes att = outcome_digits 14 outcome_value
     \<and> length (att_signatures att) = length (oe_nonces (ann_oracle_event ann))
     \<and> (\<forall>i < length (att_signatures att).
          schnorr_verify X (sha256 e (att_outcomes att ! i)) (att_signatures att ! i) (ann_oracle_public_key ann)
          \<and> schnorr_nonce X (att_signatures att ! i) = oe_nonces (ann_oracle_event ann) ! i)"

lemma length_outcome_digits:
  "14 \<le> length (outcome_digits 14 n)" "length (outcome_digits 14 n) = 14 \<longleftrightarrow> unat n < 2 ^ 14"
  using format_binary(2,3) [of 14 "unat n"] by (simp_all add: outcome_digits_def)

lemma length_outcome_digits_le: "length (outcome_digits 14 n) \<le> 64"
proof -
  have "unat n < 2 ^ 64" using unsigned_less [of n] by simp
  then have "length (bin_digits (unat n)) \<le> 64" using length_bin_digits [of 64 "unat n"] by simp
  then show ?thesis by (simp add: outcome_digits_def format_binary_def Let_def)
qed

lemma announcement_reads: "oracle_ok e X \<Longrightarrow> announces e X key nonces event_id ann \<Longrightarrow>
    read_announcement X (encode_announcement X ann) = Some ann"
  by (simp add: oracle_ok_def announces_def)

lemma attestation_reads:
  assumes "oracle_ok e X" "length nonces = 14"
  shows "read_attestation X (encode_attestation X (build_attestation e X nonces key (outcome_digits 14 n)))
    = Some (build_attestation e X nonces key (outcome_digits 14 n))"
  using assms length_outcome_digits_le [of n] by (simp add: oracle_ok_def build_attestation_def Let_def)

lemma build_attestation_attests:
  assumes "oracle_ok e X" "seckey_valid X key" "announces e X key nonces event_id ann"
  shows "attests e X ann n (build_attestation e X nonces key (outcome_digits 14 n))"
proof -
  let ?ds = "outcome_digits 14 n"
  have len: "length nonces = 14" "length (zip ?ds nonces) = 14"
    using assms(3) length_outcome_digits(1) [of n] by (simp_all add: announces_def)
  show ?thesis
    unfolding attests_def
    using assms len length_outcome_digits(1) [of n]
    by (auto simp: build_attestation_def Let_def announces_def oracle_ok_def list_all_length)
qed

section \<open>The invariant of the store\<close>

definition recorded :: "web_ext \<Rightarrow> oracle_ext \<Rightarrow> announcement \<Rightarrow> u64 option \<Rightarrow> bytes option \<Rightarrow> bool" where
  "recorded e X ann outcome_value attestation_bytes \<longleftrightarrow> (case (outcome_value, attestation_bytes) of
       (None, None) \<Rightarrow> True
     | (Some n, Some bs) \<Rightarrow> (\<exists>att. read_attestation X bs = Some att \<and> attests e X ann n att)
     | _ \<Rightarrow> False)"

definition sound_event :: "web_ext \<Rightarrow> oracle_ext \<Rightarrow> bytes \<Rightarrow> string \<Rightarrow> DbValue \<Rightarrow> bool" where
  "sound_event e X key i v \<longleftrightarrow> db_value_ok X v \<and> dv_uuid v = i \<and>
     (\<exists>nonces ann. dv_sk_nonces v = Some nonces \<and> read_announcement X (dv_announcement v) = Some ann
        \<and> announces e X key nonces i ann \<and> recorded e X ann (dv_outcome v) (dv_attestation v))"

definition sound_store :: "web_ext \<Rightarrow> oracle_ext \<Rightarrow> bytes \<Rightarrow> (string \<Rightarrow> bytes option) \<Rightarrow> bool" where
  "sound_store e X key h \<longleftrightarrow>
     (\<forall>i b. h i = Some b \<longrightarrow> (\<exists>v. db_value_of_bytes e X b = Some v \<and> sound_event e X key i v))"

lemma sound_storeD:
  "sound_store e X key h \<Longrightarrow> h i = Some b \<Longrightarrow> db_value_of_bytes e X b = Some v \<Longrightarrow> sound_event e X key i v"
  unfolding sound_store_def by (metis option.inject)

definition libs_ok :: "web_ext \<Rightarrow> oracle_ext \<Rightarrow> bytes \<Rightarrow> bool" where
  "libs_ok e X key \<longleftrightarrow> web_ok e \<and> oracle_ok e X \<and> text_ok e X \<and> seckey_valid X key"

abbreviation key_text :: "web_ext \<Rightarrow> bytes \<Rightarrow> string" where
  "key_text e key \<equiv> pk_to_string e (pk_of_sk e key)"

definition attestor_inv :: "web_ext \<Rightarrow> oracle_ext \<Rightarrow> bytes \<Rightarrow> link \<times> (nat \<Rightarrow> bytes) \<Rightarrow> bool" where
  "attestor_inv e X key w \<longleftrightarrow> libs_ok e X key \<and> (\<forall>i. seckey_valid X (snd w i)) \<and> events_inv e (fst w)
     \<and> sound_store e X key (held_events e (key_text e key) (fst w))"

definition link_attestor :: "web_ext \<Rightarrow> string \<Rightarrow> bytes \<Rightarrow> link Attestor" where
  "link_attestor e host key =
     \<lparr>at_oracle = \<lparr>or_event_handler = \<lparr>eh_storage_api = link_conn e host (key_text e key)\<rparr>, or_key_pair = key\<rparr>,
      at_secret_key = key\<rparr>"

lemma link_attestor_simps [simp]:
  "storage_api (link_attestor e host key) = link_conn e host (key_text e key)"
  "or_key_pair (at_oracle (link_attestor e host key)) = key" "at_secret_key (link_attestor e host key) = key"
  by (simp_all add: link_attestor_def)

lemma sound_put:
  assumes "libs_ok e X key" "sound_store e X key h" "sound_event e X key i v"
  shows "sound_store e X key (h(i \<mapsto> db_value_bytes e X v))"
proof -
  have "db_value_of_bytes e X (db_value_bytes e X v) = Some v"
    using assms by (intro db_value_roundtrip) (simp_all add: libs_ok_def sound_event_def)
  then show ?thesis using assms(2,3) by (auto simp: sound_store_def)
qed

text \<open>An insertion of a sound event, whether it is reported or not.\<close>

lemma insert_sound:
  assumes inv: "attestor_inv e X key (w, rng)" and v: "sound_event e X key i v"
    and run: "conn_insert e (link_conn e host (key_text e key)) i (db_value_bytes e X v) sk w = (r, w')"
  shows "attestor_inv e X key (w', rng)" "r \<noteq> Panic"
    "held_events e (key_text e key) w' \<in> {held_events e (key_text e key) w,
       (held_events e (key_text e key) w)(i \<mapsto> db_value_bytes e X v)}"
    "is_ok r \<Longrightarrow> r = Ok (Some (db_value_bytes e X v))
       \<and> held_events e (key_text e key) w' = (held_events e (key_text e key) w)(i \<mapsto> db_value_bytes e X v)"
proof -
  let ?h = "held_events e (key_text e key)"
  have ev: "events_inv e w" using inv by (simp add: attestor_inv_def)
  have res: "events_inv e w' \<and> r \<noteq> Panic \<and> (if is_ok r then r = Ok (Some (db_value_bytes e X v))
        \<and> ?h w' = (?h w)(i \<mapsto> db_value_bytes e X v)
      else ?h w' = ?h w \<or> ?h w' = (?h w)(i \<mapsto> db_value_bytes e X v))"
    by (rule wp_run [OF attestor_events.insert_law [OF ev] run])
  then have held: "?h w' = ?h w \<or> ?h w' = (?h w)(i \<mapsto> db_value_bytes e X v)"
    by (simp split: if_splits)
  with sound_put [OF _ _ v, of "?h w"] inv res show "attestor_inv e X key (w', rng)"
    unfolding attestor_inv_def by (metis fst_conv snd_conv)
  show "r \<noteq> Panic" using res by blast
  show "?h w' \<in> {?h w, (?h w)(i \<mapsto> db_value_bytes e X v)}" using held by blast
  show "is_ok r \<Longrightarrow> r = Ok (Some (db_value_bytes e X v)) \<and> ?h w' = (?h w)(i \<mapsto> db_value_bytes e X v)"
    using res by simp
qed

section \<open>Creating an event\<close>

lemma create_event_run:
  assumes inv: "attestor_inv e X key (w, rng)" and texts: "utf8_valid uuid" "utf8_valid chain"
    and run: "attestor_create_event e X (link_attestor e host key) uuid maturation chain (w, rng) = (r, (w', rng'))"
  shows "attestor_inv e X key (w', rng')"
    "r = Ok () \<Longrightarrow> \<exists>v. sound_event e X key uuid v \<and> dv_outcome v = None \<and> dv_chain v = Some chain
       \<and> held_events e (key_text e key) w' = (held_events e (key_text e key) w)(uuid \<mapsto> db_value_bytes e X v)"
    "i \<noteq> uuid \<Longrightarrow> held_events e (key_text e key) w' i = held_events e (key_text e key) w i"
proof -
  have libs: "oracle_ok e X" "seckey_valid X key" "\<And>i. seckey_valid X (rng i)"
    using inv by (simp_all add: attestor_inv_def libs_ok_def)
  let ?goal = "attestor_inv e X key (w', rng') \<and> (r = Ok () \<longrightarrow> (\<exists>v. sound_event e X key uuid v
     \<and> dv_outcome v = None \<and> dv_chain v = Some chain
     \<and> held_events e (key_text e key) w' = (held_events e (key_text e key) w)(uuid \<mapsto> db_value_bytes e X v)))
     \<and> (i \<noteq> uuid \<longrightarrow> held_events e (key_text e key) w' i = held_events e (key_text e key) w i)"
  have ?goal
  proof (cases "parse_rfc3339 X maturation")
    case None
    then show ?thesis using inv run by (auto simp: attestor_create_event_def and_then_def of_outcome_def)
  next
    case (Some m)
    note start = run [unfolded attestor_create_event_def, simplified and_then_def [of "of_outcome z" for z]
        of_outcome_def Some ok_or.simps prod.case outcome.case link_attestor_simps]
    show ?thesis
    proof (cases rule: build_announcement_run [where 'e = string and rng = rng and maturation = m and event_id = uuid and w = w, OF libs])
      case 1
      then show ?thesis using inv start by (auto simp: and_then_def attestor_inv_def)
    next
      case (2 ann)
      define v where "v = \<lparr>dv_sk_nonces = Some (map rng [0..<14]), dv_announcement = encode_announcement X ann,
        dv_attestation = None, dv_outcome = None, dv_uuid = uuid, dv_chain = Some chain\<rparr>"
      have v: "sound_event e X key uuid v"
        using 2(2) texts libs announcement_reads [OF libs(1) 2(2)]
        by (simp add: sound_event_def v_def db_value_ok_def list_all_iff recorded_def del: upt_Suc)
      have inv': "attestor_inv e X key (w, \<lambda>i. rng (i + 14))" using inv by (simp add: attestor_inv_def)
      obtain ir w1 where ins: "conn_insert e (link_conn e host (key_text e key)) uuid (db_value_bytes e X v) key w = (ir, w1)"
        by (rule prod.exhaust)
      note eff = insert_sound [OF inv' v ins]
      have "(r, (w', rng')) = (case ir of Ok (Some _) \<Rightarrow> Ok () | Panic \<Rightarrow> Panic | _ \<Rightarrow> Err ''Failed to create event'',
          (w1, \<lambda>i. rng (i + 14)))"
        using start 2(1) ins
        by (cases ir) (auto simp: and_then_def handle_def lift_fst_def on_part_def v_def Let_def ret_def throw_def
            simp del: upt_Suc split: option.split)
      then show ?thesis
        using eff v by (cases ir) (auto simp: v_def split: option.splits)
    qed
  qed
  then show "attestor_inv e X key (w', rng')"
    "r = Ok () \<Longrightarrow> \<exists>v. sound_event e X key uuid v \<and> dv_outcome v = None \<and> dv_chain v = Some chain
       \<and> held_events e (key_text e key) w' = (held_events e (key_text e key) w)(uuid \<mapsto> db_value_bytes e X v)"
    "i \<noteq> uuid \<Longrightarrow> held_events e (key_text e key) w' i = held_events e (key_text e key) w i"
    by blast+
qed

section \<open>Attesting an event\<close>

lemma attestable_sound:
  assumes libs: "libs_ok e X key" and b: "db_value_of_bytes e X b = Some v" and v: "sound_event e X key i v"
  obtains nonces ann where "attestable_event e X b = Ok (v, nonces, 14)" "dv_sk_nonces v = Some nonces"
    "read_announcement X (dv_announcement v) = Some ann" "announces e X key nonces i ann"
    "\<And>n. sound_event e X key i (attested_event e X key v nonces 14 n)"
proof -
  obtain nonces ann where ann: "dv_sk_nonces v = Some nonces" "read_announcement X (dv_announcement v) = Some ann"
    "announces e X key nonces i ann" "db_value_ok X v" "dv_uuid v = i"
    using v by (auto simp: sound_event_def)
  have ok: "attestable_event e X b = Ok (v, nonces, 14)"
    using b ann by (simp add: attestable_event_def announces_def attestor_descriptor_def)
  have ext: "oracle_ok e X" "seckey_valid X key" using libs by (simp_all add: libs_ok_def)
  have "sound_event e X key i (attested_event e X key v nonces 14 n)" for n
  proof -
    let ?att = "build_attestation e X nonces key (outcome_digits 14 n)"
    have "read_attestation X (encode_attestation X ?att) = Some ?att"
      using ann(3) by (intro attestation_reads [OF ext(1)]) (simp add: announces_def)
    with build_attestation_attests [OF ext ann(3)] ann show ?thesis
      by (auto simp: sound_event_def attested_event_def Let_def db_value_ok_def recorded_def)
  qed
  with ok ann that show thesis by blast
qed

lemma get_sound:
  assumes inv: "attestor_inv e X key (w, rng)"
    and run: "conn_get e (link_conn e host (key_text e key)) i sk w = (r, w')"
  shows "attestor_inv e X key (w', rng)" "r \<noteq> Panic"
    "held_events e (key_text e key) w' = held_events e (key_text e key) w"
    "r = Ok x \<Longrightarrow> x = held_events e (key_text e key) w i"
proof -
  have ev: "events_inv e w" using inv by (simp add: attestor_inv_def)
  have res: "events_inv e w' \<and> held_events e (key_text e key) w' = held_events e (key_text e key) w \<and> r \<noteq> Panic
      \<and> (\<forall>x. r = Ok x \<longrightarrow> x = held_events e (key_text e key) w i)"
    by (rule wp_run [OF attestor_events.get_law [OF ev] run])
  show "attestor_inv e X key (w', rng)" using inv res by (simp add: attestor_inv_def)
  show "r \<noteq> Panic" "held_events e (key_text e key) w' = held_events e (key_text e key) w"
    "r = Ok x \<Longrightarrow> x = held_events e (key_text e key) w i"
    using res by blast+
qed

lemma attest_run:
  assumes inv: "attestor_inv e X key (w, rng)"
    and run: "attestor_attest e X (link_attestor e host key) uuid n w = (r, w')"
  shows "attestor_inv e X key (w', rng)" "r \<noteq> Panic"
    "held_events e (key_text e key) w' = held_events e (key_text e key) w \<or>
     (\<exists>b v nonces. held_events e (key_text e key) w uuid = Some b \<and> db_value_of_bytes e X b = Some v
        \<and> dv_sk_nonces v = Some nonces \<and> r = Ok ()
        \<and> held_events e (key_text e key) w' = (held_events e (key_text e key) w)
            (uuid \<mapsto> db_value_bytes e X (attested_event e X key v nonces 14 n)))"
proof -
  let ?h = "held_events e (key_text e key)"
  have libs: "libs_ok e X key" using inv by (simp add: attestor_inv_def)
  obtain gr w1 where get: "conn_get e (link_conn e host (key_text e key)) uuid key w = (gr, w1)"
    by (rule prod.exhaust)
  note got = get_sound [OF inv get]
  let ?goal = "attestor_inv e X key (w', rng) \<and> r \<noteq> Panic \<and> (?h w' = ?h w \<or>
     (\<exists>b v nonces. ?h w uuid = Some b \<and> db_value_of_bytes e X b = Some v
        \<and> dv_sk_nonces v = Some nonces \<and> r = Ok ()
        \<and> ?h w' = (?h w)(uuid \<mapsto> db_value_bytes e X (attested_event e X key v nonces 14 n))))"
  have ?goal
  proof (cases "\<exists>b. gr = Ok (Some b)")
    case False
    then have "w' = w1" "r \<noteq> Panic"
      using run get got(2) unfolding attestor_attest_def
      by (cases gr; auto simp: and_then_def map_err_def handle_def ret_def throw_def of_outcome_def)+
    with got show ?thesis by simp
  next
    case True
    then obtain b where b: "gr = Ok (Some b)" "?h w uuid = Some b" using got(4) by auto
    have "sound_store e X key (?h w)" using inv by (simp add: attestor_inv_def)
    then obtain v where v: "db_value_of_bytes e X b = Some v" "sound_event e X key uuid v"
      using b(2) unfolding sound_store_def by blast
    obtain nonces where att: "attestable_event e X b = Ok (v, nonces, 14)" "dv_sk_nonces v = Some nonces"
      "\<And>n. sound_event e X key uuid (attested_event e X key v nonces 14 n)"
      by (rule attestable_sound [OF libs v]) blast
    let ?v = "attested_event e X key v nonces 14 n"
    obtain ir w2 where ins: "conn_insert e (link_conn e host (key_text e key)) uuid (db_value_bytes e X ?v) key w1 = (ir, w2)"
      by (rule prod.exhaust)
    note eff = insert_sound [OF got(1) att(3) ins]
    have "r = Ok () \<and> w' = w2"
      using run get b(1) att(1) ins eff(2) unfolding attestor_attest_def
      by (cases ir) (auto simp: and_then_def map_err_def handle_def ret_def of_outcome_def Let_def)
    with eff(1,3) got(3) b(2) v(1) att(2) show ?thesis by auto
  qed
  then show "attestor_inv e X key (w', rng)" "r \<noteq> Panic" "?h w' = ?h w \<or>
     (\<exists>b v nonces. ?h w uuid = Some b \<and> db_value_of_bytes e X b = Some v
        \<and> dv_sk_nonces v = Some nonces \<and> r = Ok ()
        \<and> ?h w' = (?h w)(uuid \<mapsto> db_value_bytes e X (attested_event e X key v nonces 14 n)))"
    by blast+
qed

section \<open>Reading events\<close>

lemma get_event_run:
  assumes inv: "attestor_inv e X key (w, rng)"
    and run: "attestor_get_event e X (link_attestor e host key) uuid w = (r, w')"
  shows "attestor_inv e X key (w', rng)"
    "held_events e (key_text e key) w' = held_events e (key_text e key) w"
    "r = Ok x \<Longrightarrow> (case held_events e (key_text e key) w uuid of
        None \<Rightarrow> x = None | Some b \<Rightarrow> \<exists>y. x = Some y \<and> parse_database_entry e X b = Ok y)"
proof -
  obtain gr w1 where get: "conn_get e (link_conn e host (key_text e key)) uuid key w = (gr, w1)"
    by (rule prod.exhaust)
  note got = get_sound [OF inv get]
  have w': "w' = w1"
    using run get unfolding attestor_get_event_def
    by (cases gr) (auto simp: and_then_def map_err_def handle_def ret_def throw_def of_outcome_def split: option.splits outcome.splits)
  with got show "attestor_inv e X key (w', rng)"
    "held_events e (key_text e key) w' = held_events e (key_text e key) w" by simp_all
  show "r = Ok x \<Longrightarrow> (case held_events e (key_text e key) w uuid of
        None \<Rightarrow> x = None | Some b \<Rightarrow> \<exists>y. x = Some y \<and> parse_database_entry e X b = Ok y)"
    using run get got(4) unfolding attestor_get_event_def
    by (cases gr) (auto simp: and_then_def map_err_def handle_def ret_def throw_def of_outcome_def split: option.splits outcome.splits)
qed

lemma get_events_run:
  assumes inv: "attestor_inv e X key (w, rng)"
    and run: "attestor_get_events e X (link_attestor e host key) w = (r, w')"
  shows "attestor_inv e X key (w', rng)" "held_events e (key_text e key) w' = held_events e (key_text e key) w"
proof -
  have ev: "events_inv e w" using inv by (simp add: attestor_inv_def)
  obtain gr w1 where get: "conn_get_all e (link_conn e host (key_text e key)) key w = (gr, w1)"
    by (rule prod.exhaust)
  have res: "events_inv e w1 \<and> held_events e (key_text e key) w1 = held_events e (key_text e key) w"
    using wp_run [OF attestor_events.get_all_law [OF ev] get] by blast
  have "w' = w1"
    using run get unfolding attestor_get_events_def
    by (cases gr) (auto simp: and_then_def map_err_def handle_def ret_def throw_def of_outcome_def split: option.splits outcome.splits)
  with inv res show "attestor_inv e X key (w', rng)" "held_events e (key_text e key) w' = held_events e (key_text e key) w"
    by (simp_all add: attestor_inv_def)
qed

end
