(* ===== verification/Ref_Oracle.thy ===== *)
theory Ref_Oracle
  imports Attestor_Laws Ref_Dlc
begin

text \<open>
  An instance of the attestor's libraries for which \<open>oracle_ok\<close> and \<open>text_ok\<close> hold, for the
  witnesses: messages are written as JSON documents, a signature lists its nonce, key and digest.
\<close>

section \<open>Messages as documents\<close>

definition json_texts :: "string list \<Rightarrow> json" where
  "json_texts ss = JArr (map JStr ss)"

definition json_byte_lists :: "bytes list \<Rightarrow> json" where
  "json_byte_lists bss = JArr (map json_bytes bss)"

lemma texts_back: "json_list as_str (json_texts ss) = Some ss"
  using those_map_Some [of ss as_str JStr id] by (simp add: json_texts_def comp_def)

lemma byte_lists_back: "json_list bytes_of_json (json_byte_lists bss) = Some bss"
  using those_map_Some [of bss bytes_of_json json_bytes id] bytes_of_json_bytes
  by (simp add: json_byte_lists_def comp_def)

fun descriptor_json :: "event_descriptor \<Rightarrow> json" where
  "descriptor_json (EnumEvent ss) = JArr [json_texts ss]"
| "descriptor_json (DigitDecompositionEvent d) =
     JArr [JNum (uint (dd_base d)), JBool (dd_is_signed d), JStr (dd_unit d), JNum (dd_precision d),
       JNum (uint (dd_nb_digits d))]"

fun descriptor_of_json :: "json \<Rightarrow> event_descriptor option" where
  "descriptor_of_json (JArr [ss]) = map_option EnumEvent (json_list as_str ss)"
| "descriptor_of_json (JArr [JNum b, JBool s, JStr u, JNum p, JNum n]) =
     Some (DigitDecompositionEvent \<lparr>dd_base = word_of_int b, dd_is_signed = s, dd_unit = u, dd_precision = p,
       dd_nb_digits = word_of_int n\<rparr>)"
| "descriptor_of_json _ = None"

lemma descriptor_back: "descriptor_of_json (descriptor_json d) = Some d"
  by (cases d) (simp_all add: texts_back)

definition announcement_doc :: "announcement \<Rightarrow> json" where
  "announcement_doc a = JArr [json_bytes (ann_signature a), json_bytes (ann_oracle_public_key a),
     json_byte_lists (oe_nonces (ann_oracle_event a)), JNum (uint (oe_maturity_epoch (ann_oracle_event a))),
     descriptor_json (oe_descriptor (ann_oracle_event a)), JStr (oe_event_id (ann_oracle_event a))]"

fun announcement_of_doc :: "json \<Rightarrow> announcement option" where
  "announcement_of_doc (JArr [sg, pk, ns, JNum m, d, JStr i]) =
     (case (bytes_of_json sg, bytes_of_json pk, json_list bytes_of_json ns, descriptor_of_json d) of
        (Some sg, Some pk, Some ns, Some d) \<Rightarrow> Some \<lparr>ann_signature = sg, ann_oracle_public_key = pk,
          ann_oracle_event = \<lparr>oe_nonces = ns, oe_maturity_epoch = word_of_int m, oe_descriptor = d, oe_event_id = i\<rparr>\<rparr>
      | _ \<Rightarrow> None)"
| "announcement_of_doc _ = None"

lemma announcement_back: "announcement_of_doc (announcement_doc a) = Some a"
  by (simp add: announcement_doc_def bytes_of_json_bytes byte_lists_back descriptor_back)

definition attestation_doc :: "attestation \<Rightarrow> json" where
  "attestation_doc a = JArr [json_bytes (att_oracle_public_key a), json_byte_lists (att_signatures a),
     json_texts (att_outcomes a)]"

fun attestation_of_doc :: "json \<Rightarrow> attestation option" where
  "attestation_of_doc (JArr [pk, sgs, outs]) =
     (case (bytes_of_json pk, json_list bytes_of_json sgs, json_list as_str outs) of
        (Some pk, Some sgs, Some outs) \<Rightarrow>
          Some \<lparr>att_oracle_public_key = pk, att_signatures = sgs, att_outcomes = outs\<rparr>
      | _ \<Rightarrow> None)"
| "attestation_of_doc _ = None"

lemma attestation_back: "attestation_of_doc (attestation_doc a) = Some a"
  by (simp add: attestation_doc_def bytes_of_json_bytes byte_lists_back texts_back)

lemma docs_canon:
  "json_canon (announcement_doc a) = announcement_doc a" "json_canon (attestation_doc t) = attestation_doc t"
proof -
  have "json_canon (descriptor_json d) = descriptor_json d" for d
    by (cases d) (simp_all add: json_texts_def)
  then show "json_canon (announcement_doc a) = announcement_doc a"
    by (simp add: announcement_doc_def json_bytes_def json_byte_lists_def)
  show "json_canon (attestation_doc t) = attestation_doc t"
    by (simp add: attestation_doc_def json_bytes_def json_byte_lists_def json_texts_def)
qed

definition doc_bytes :: "json \<Rightarrow> bytes" where
  "doc_bytes j = bytes_of (enc j)"

definition read_doc :: "(json \<Rightarrow> 'a option) \<Rightarrow> bytes \<Rightarrow> 'a option" where
  "read_doc f bs = Option.bind (ref_parse (text_of bs)) f"

lemma read_doc_bytes: "json_canon j = j \<Longrightarrow> read_doc f (doc_bytes j) = f j"
  by (simp add: read_doc_def doc_bytes_def)

section \<open>The instance\<close>

definition ref_signature :: "bytes \<Rightarrow> bytes \<Rightarrow> bytes \<Rightarrow> bytes" where
  "ref_signature d sk nonce = replicate (length nonce) 1 @ [0] @ nonce @ sk @ d"

definition ref_nonce_length :: "bytes \<Rightarrow> nat" where
  "ref_nonce_length s = length (takeWhile (\<lambda>b. b = 1) s)"

definition ref_oracle :: oracle_ext where
  "ref_oracle = \<lparr>
     xpriv_from_str = (\<lambda>s. Some (bytes_of s)), path_from_str = (\<lambda>_. Some []), derive_priv = (\<lambda>k _. Some k),
     seckey_valid = (\<lambda>_. True), sk_to_string = hex_str,
     sk_from_str = (\<lambda>s. case decode_hex s of Ok b \<Rightarrow> Some b | _ \<Rightarrow> None),
     xonly = (\<lambda>pk. pk), xonly_to_string = hex_str,
     xonly_from_str = (\<lambda>s. case decode_hex s of Ok b \<Rightarrow> Some b | _ \<Rightarrow> None),
     parse_rfc3339 = (\<lambda>s. if s = [] then None else Some 100),
     schnorr_sign = (\<lambda>d sk. ref_signature d sk []), schnorr_sign_with_nonce = ref_signature,
     schnorr_verify = (\<lambda>d s pk. drop (2 * ref_nonce_length s + 1) s = pk @ d),
     schnorr_nonce = (\<lambda>s. take (ref_nonce_length s) (drop (ref_nonce_length s + 1) s)),
     write_event = (\<lambda>ev. bytes_of (oe_event_id ev)),
     encode_announcement = (\<lambda>a. doc_bytes (announcement_doc a)), read_announcement = read_doc announcement_of_doc,
     encode_attestation = (\<lambda>a. doc_bytes (attestation_doc a)), read_attestation = read_doc attestation_of_doc,
     announcement_json = (\<lambda>a. Some (enc (announcement_doc a))), attestation_debug = (\<lambda>_. ''A''),
     oracle_error_debug = (\<lambda>_. ''E'')\<rparr>"

lemma ref_nonce_length: "ref_nonce_length (ref_signature d sk nonce) = length nonce"
proof -
  have "takeWhile (\<lambda>b. b = 1) (replicate n 1 @ 0 # t) = replicate n (1 :: u8)" for n t
    by (induction n) simp_all
  then show ?thesis by (simp add: ref_nonce_length_def ref_signature_def)
qed

lemma ref_oracle_ok: "oracle_ok ref_web ref_oracle"
  by (simp add: oracle_ok_def ref_oracle_def decode_hex_str read_doc_bytes docs_canon announcement_back
      attestation_back ref_nonce_length) (simp add: ref_signature_def)

section \<open>The printer writes UTF-8\<close>

lemma ascii_nat: "utf8_valid (enc_nat n)"
  by (rule utf8_valid_ascii) (simp add: enc_nat_def list_all_iff)

lemma ascii_head: "of_char c < (128 :: nat) \<Longrightarrow> utf8_valid s \<Longrightarrow> utf8_valid (c # s)"
  using utf8_valid_append [OF utf8_valid_ascii [of "[c]"]] by simp

lemma utf8_enc_str: "utf8_valid s \<Longrightarrow> utf8_valid (enc_str s)"
  by (simp add: enc_str_def utf8_valid_append ascii_nat)

lemma utf8_enc: "json_text j \<Longrightarrow> utf8_valid (enc j)"
proof (induction j rule: json_text.induct)
  case (2 xs)
  then show ?case
    by (auto simp: enc.simps list_all_iff intro!: ascii_head utf8_valid_append ascii_nat utf8_valid_concat)
next
  case (3 kvs)
  then show ?case
    by (auto simp: enc.simps list_all_iff intro!: ascii_head utf8_valid_append ascii_nat utf8_valid_concat utf8_enc_str)
qed (auto simp: enc.simps intro!: ascii_head ascii_nat utf8_enc_str utf8_valid_ascii [of "[]"])

lemma ref_text_ok: "text_ok ref_web ref_oracle"
proof -
  have "utf8_valid (hex_str k)" for k
  proof (rule utf8_valid_ascii)
    have "of_char (hex_digit n) < (128 :: nat)" if "n < 16" for n
      using that by (simp add: hex_digit_def)
    then show "list_all (\<lambda>c. of_char c < (128 :: nat)) (hex_str k)"
      using unat_u8_nibbles by (auto simp: hex_str_def byte_hex_def list_all_iff)
  qed
  then show ?thesis by (simp add: text_ok_def utf8_enc) (simp add: ref_oracle_def)
qed

lemma ref_libs_ok: "libs_ok ref_web ref_oracle key"
  by (simp add: libs_ok_def ref_web_ok ref_oracle_ok ref_text_ok) (simp add: ref_oracle_def)

end
