(* ===== verification/Attestor_Client.thy ===== *)
theory Attestor_Client
  imports Attestor Dlc_Manager
begin

text \<open>
  \<open>attestor-client/src/lib.rs\<close>: the client through which routers and wallets read an attestor
  over HTTP, and its use as the manager's oracle. The request \<open>client.get(path)\<close> is a call on
  the world; \<open>None\<close> as the builder means that \<open>reqwest\<close> cannot make a client. Panics are those
  of \<open>expect\<close> and \<open>unwrap\<close> in the source.
\<close>

record 'w AttestorClient =
  acl_host :: string
  acl_public_key :: bytes
  acl_client :: "string \<Rightarrow> ('w, reply, reqwest_error) io"

definition pubkey_path :: "string \<Rightarrow> string" where
  "pubkey_path host = host @ ''publickey''"

definition announcement_path :: "string \<Rightarrow> string \<Rightarrow> string" where
  "announcement_path host event_id = host @ ''event/'' @ event_id"

definition attestation_path :: "string \<Rightarrow> string \<Rightarrow> string" where
  "attestation_path host event_id = host @ ''event/'' @ event_id"

fun decode_hex_error_text :: "DecodeHexError \<Rightarrow> string" where
  "decode_hex_error_text OddLength = ''input string has an odd number of bytes''"
| "decode_hex_error_text (ParseInt e) = e"

definition attestor_client_new ::
  "oracle_ext \<Rightarrow> (string \<Rightarrow> ('w, reply, reqwest_error) io) option \<Rightarrow> string \<Rightarrow> ('w, 'w AttestorClient, dlc_error) io" where
  "attestor_client_new X client_builder host =
     (if host = [] then throw (InvalidParameters ''Invalid host'')
      else let host = (if \<not> ends_with host (CHR ''/'') then host @ ''/'' else host);
               path = pubkey_path host
      in and_then (of_outcome (expect client_builder)) (\<lambda>client.
         and_then (map_err (\<lambda>x. OracleError (''Oracle PubKey Error: '' @ rqe_text x)) (client path)) (\<lambda>res.
         and_then (of_outcome (outcome_map_err (\<lambda>x. OracleError (''Oracle PubKey Error: '' @ rqe_text x)) (rp_body res)))
           (\<lambda>attestor_key.
         and_then (of_outcome (ok_or (xonly_from_str X attestor_key) (OracleError ''Oracle PubKey Error''))) (\<lambda>public_key.
         ret \<lparr>acl_host = host, acl_public_key = public_key, acl_client = client\<rparr>)))))"

definition client_get_json :: "web_ext \<Rightarrow> 'w AttestorClient \<Rightarrow> string \<Rightarrow> ('w, json, dlc_error) io" where
  "client_get_json e ac path =
     and_then (map_err (\<lambda>x. OracleError (rqe_text x)) (acl_client ac path)) (\<lambda>res.
     of_outcome (outcome_map_err (\<lambda>x. OracleError (rqe_text x)) (reply_json e Some res)))"

definition get_chain :: "web_ext \<Rightarrow> dlc_ext \<Rightarrow> 'w AttestorClient \<Rightarrow> string \<Rightarrow> ('w, string, dlc_error) io" where
  "get_chain e D ac event_id =
     handle (client_get_json e ac (announcement_path (acl_host ac) event_id))
       (\<lambda>v. case as_str (json_index v ''chain'') of
            None \<Rightarrow> throw (OracleError (''missing chain for event '' @ event_id))
          | Some s \<Rightarrow> ret s)
       (\<lambda>x. throw (OracleError (''Error getting announcement: '' @ dlc_error_text D x)))"

definition client_get_announcement ::
  "web_ext \<Rightarrow> dlc_ext \<Rightarrow> oracle_ext \<Rightarrow> 'w AttestorClient \<Rightarrow> string \<Rightarrow> ('w, announcement, dlc_error) io" where
  "client_get_announcement e D X ac event_id =
     handle (client_get_json e ac (announcement_path (acl_host ac) event_id))
       (\<lambda>v. case as_str (json_index v ''rust_announcement'') of
            None \<Rightarrow> throw (OracleError (''missing announcement for event '' @ event_id))
          | Some encoded_hex_announcement \<Rightarrow>
              and_then (of_outcome (outcome_map_err
                 (\<lambda>x. OracleError (''Error decoding hex: '' @ decode_hex_error_text x))
                 (decode_hex encoded_hex_announcement))) (\<lambda>buffer.
              of_outcome (expect (read_announcement X buffer))))
       (\<lambda>x. throw (OracleError (''Error getting announcement '' @ event_id @ '': '' @ dlc_error_text D x)))"

text \<open>\<open>decode_hex(..).unwrap()\<close>: here broken hexadecimal text panics.\<close>

fun unwrap :: "('a, 'e) outcome \<Rightarrow> ('a, 'f) outcome" where
  "unwrap (Ok a) = Ok a"
| "unwrap (Err x) = Panic"
| "unwrap Panic = Panic"

definition client_get_attestation ::
  "web_ext \<Rightarrow> oracle_ext \<Rightarrow> 'w AttestorClient \<Rightarrow> string \<Rightarrow> ('w, attestation, dlc_error) io" where
  "client_get_attestation e X ac event_id =
     and_then (client_get_json e ac (attestation_path (acl_host ac) event_id)) (\<lambda>v.
     case as_str (json_index v ''rust_attestation'') of
       None \<Rightarrow> throw (OracleError (''missing attestation for event '' @ event_id))
     | Some encoded_hex_attestation \<Rightarrow>
         and_then (of_outcome (unwrap (decode_hex encoded_hex_attestation))) (\<lambda>buffer.
         of_outcome (expect (read_attestation X buffer))))"

definition client_get_public_key :: "'w AttestorClient \<Rightarrow> bytes" where
  "client_get_public_key ac = acl_public_key ac"

text \<open>\<open>impl AsyncOracle for AttestorClient\<close>.\<close>

definition client_oracle :: "web_ext \<Rightarrow> dlc_ext \<Rightarrow> oracle_ext \<Rightarrow> 'w AttestorClient \<Rightarrow> 'w async_oracle" where
  "client_oracle e D X ac = \<lparr>
     or_get_announcement = client_get_announcement e D X ac,
     or_get_attestation = client_get_attestation e X ac\<rparr>"

section \<open>What the client makes of a reply\<close>

lemma client_get_json_reply:
  assumes "acl_client ac path w = (Ok \<lparr>rp_status = st, rp_body = Ok body\<rparr>, w')" "jparse e body = Some j"
  shows "client_get_json e ac path w = (Ok j, w')"
  using assms by (simp add: client_get_json_def and_then_def map_err_def handle_def ret_def of_outcome_def reply_json_def)

lemma client_get_json_not_panic:
  assumes "\<And>w. fst (acl_client ac path w) \<noteq> Panic" "\<And>rep w'. acl_client ac path w = (Ok rep, w') \<Longrightarrow> rp_body rep \<noteq> Panic"
  shows "fst (client_get_json e ac path w) \<noteq> Panic"
proof (cases "acl_client ac path w")
  case (Pair r w')
  show ?thesis
  proof (cases r)
    case (Ok rep)
    with Pair assms(2) show ?thesis
      by (cases "rp_body rep"; cases "\<exists>b. rp_body rep = Ok b \<and> jparse e b \<noteq> None")
        (auto simp: client_get_json_def and_then_def map_err_def handle_def ret_def of_outcome_def reply_json_def)
  next
    case Panic
    with Pair assms(1) [of w] show ?thesis by simp
  qed (use Pair in \<open>simp add: client_get_json_def and_then_def map_err_def handle_def throw_def\<close>)
qed

text \<open>The document an event is served as, and what the two readers take from it.\<close>

definition serves :: "web_ext \<Rightarrow> 'w AttestorClient \<Rightarrow> string \<Rightarrow> 'w \<Rightarrow> json \<Rightarrow> 'w \<Rightarrow> bool" where
  "serves e ac event_id w j w' \<longleftrightarrow>
     (\<exists>st body. acl_client ac (announcement_path (acl_host ac) event_id) w = (Ok \<lparr>rp_status = st, rp_body = Ok body\<rparr>, w')
        \<and> jparse e body = Some j)"

lemma serves_json: "serves e ac i w j w' \<Longrightarrow> client_get_json e ac (announcement_path (acl_host ac) i) w = (Ok j, w')"
  by (auto simp: serves_def client_get_json_reply)

lemma attestation_path_same: "attestation_path host i = announcement_path host i"
  by (simp add: attestation_path_def announcement_path_def)

lemma client_announcement_served:
  assumes "serves e ac i w j w'" "as_str (json_index j ''rust_announcement'') = Some (hex_str bs)"
    "read_announcement X bs = Some ann"
  shows "client_get_announcement e D X ac i w = (Ok ann, w')"
  using serves_json [OF assms(1)] assms(2,3)
  by (simp add: client_get_announcement_def handle_def and_then_def of_outcome_def decode_hex_str)

lemma client_attestation_served:
  assumes "serves e ac i w j w'" "as_str (json_index j ''rust_attestation'') = Some (hex_str bs)"
    "read_attestation X bs = Some att"
  shows "client_get_attestation e X ac i w = (Ok att, w')"
  using serves_json [OF assms(1)] assms(2,3)
  by (simp add: client_get_attestation_def attestation_path_same and_then_def of_outcome_def decode_hex_str)

lemma client_attestation_missing:
  assumes "serves e ac i w j w'" "as_str (json_index j ''rust_attestation'') = None"
  shows "client_get_attestation e X ac i w = (Err (OracleError (''missing attestation for event '' @ i)), w')"
  using serves_json [OF assms(1)] assms(2)
  by (simp add: client_get_attestation_def attestation_path_same and_then_def throw_def)

text \<open>Text that is not hexadecimal: an error for the announcement, a panic for the attestation.\<close>

lemma client_bad_hex:
  assumes "serves e ac i w j w'" "decode_hex s = Err x"
  shows "as_str (json_index j ''rust_announcement'') = Some s \<Longrightarrow>
      client_get_announcement e D X ac i w = (Err (OracleError (''Error decoding hex: '' @ decode_hex_error_text x)), w')"
    and "as_str (json_index j ''rust_attestation'') = Some s \<Longrightarrow> client_get_attestation e X ac i w = (Panic, w')"
  using serves_json [OF assms(1)] assms(2)
  by (simp_all add: client_get_announcement_def client_get_attestation_def attestation_path_same handle_def
      and_then_def of_outcome_def)

end
