(* ===== verification/Live_Events.thy ===== *)
theory Live_Events
  imports Live_Store Attestor_Laws
begin

text \<open>
  The attestor's storage path when nothing goes wrong: on a quiet link the connection reads a held
  event and replaces it, so that attesting a held event stores its attestation. The locale
  \<open>quiet_event_store\<close> adds these promises to the contract of an event store.
\<close>

section \<open>The client's calls\<close>

lemma those_typed_events:
  assumes "pg_typed c" "set rs \<subseteq> set (rows (events c))"
  shows "those (map (shown_event e) rs) = Some (map client_event rs)"
  using assms(2) by (induction rs) (auto simp: typed_shown [OF assms(1)])

lemma event_rows_run:
  assumes "quiet w" "link_ok w" "db_get_events q (link_pg w) = (dr, c)"
  shows "\<exists>rs. dr = Ok rs \<and> those (map (shown_event e) rs) = Some (map client_event rs)"
proof -
  have "order_ok (pg_order (link_pg w))" using assms(2) by (simp add: link_ok_def srv_ok_def pg_ok_def link_pg_def)
  then show ?thesis
    using assms(3) those_typed_events [OF _ select_subset] assms(1)
    by (auto simp: db_get_events_def quiet_stmt [OF assms(1)] quiet_def)
qed

lemma get_event_live:
  assumes "events_inv e w" "quiet w"
  shows "wp (client_get_event e (link_client e host) er sk) (\<lambda>r w'. is_ok r \<and> quiet w') w"
proof (rule wp_mono [OF quiet_op [OF assms(2) link_quiet.client_event_kept(4)
      client_get_event_law [OF events_invD(1,2) [OF assms(1)]]]])
  fix r :: "(ClientEvent option, ApiError) outcome" and w'
  assume "quiet w' \<and> r \<noteq> Panic \<and> (\<exists>dr. select_event (cer_key er, cer_event_id er) (link_pg w) = (dr, link_pg w')
     \<and> (\<forall>a b. dr = Ok a \<and> map_option first_of (those (map (shown_event e) a)) = Some b \<longrightarrow> r = Ok b))"
  then show "is_ok r \<and> quiet w'"
    using event_rows_run [OF assms(2) events_invD(2) [OF assms(1)]] by (fastforce simp: select_event_def)
qed

lemma update_event_live:
  assumes "events_inv e w" "quiet w" "event_view (link_pg w) (ue_key u, ue_event_id u) \<noteq> None"
  shows "wp (client_update_event e (link_client e host) u sk) (\<lambda>r w'. is_ok r \<and> quiet w') w"
proof (rule wp_mono [OF quiet_op [OF assms(2) link_quiet.client_event_kept(2)
      client_update_event_law [OF events_invD(1,2) [OF assms(1)]]]])
  fix r :: "(unit, ApiError) outcome" and w'
  assume "quiet w' \<and> r \<noteq> Panic \<and> (\<exists>dr. db_update_event u (link_pg w) = (dr, link_pg w')
     \<and> (\<forall>a b. dr = Ok a \<and> shown_count a = Some b \<longrightarrow> r = Ok b))"
  then obtain dr where w': "quiet w'" and dr: "db_update_event u (link_pg w) = (dr, link_pg w')"
    and shown: "\<And>a b. dr = Ok a \<Longrightarrow> shown_count a = Some b \<Longrightarrow> r = Ok b" by blast
  have "\<exists>m. dr = Ok m"
    using dr by (auto simp: db_update_event_def quiet_stmt [OF assms(2)] on_part_def sql_update_def)
  then have "is_ok r"
    using events_tbl.update_run [OF events_invD(3) [OF assms(1)] dr] shown assms(3)
    by (auto simp: shown_count_def u32_max_def)
  with w' show "is_ok r \<and> quiet w'" by simp
qed

section \<open>Event stores that answer\<close>

locale quiet_event_store = event_store insert get get_all held inv
  for insert :: "string \<Rightarrow> bytes \<Rightarrow> ('w, bytes option, 'e) io" and get :: "string \<Rightarrow> ('w, bytes option, 'e) io"
    and get_all :: "('w, (string \<times> bytes) list option, 'e) io"
    and held :: "'w \<Rightarrow> string \<Rightarrow> bytes option" and inv :: "'w \<Rightarrow> bool" +
  fixes still :: "'w \<Rightarrow> bool"
  assumes get_still: "inv w \<Longrightarrow> still w \<Longrightarrow> held w i \<noteq> None \<Longrightarrow> wp (get i) (\<lambda>r w'. is_ok r \<and> still w') w"
    and insert_still: "inv w \<Longrightarrow> still w \<Longrightarrow> held w i \<noteq> None \<Longrightarrow> wp (insert i b) (\<lambda>r w'. is_ok r \<and> still w') w"
begin

lemma get_run:
  assumes "inv w" "still w" "held w i = Some b"
  obtains w' where "get i w = (Ok (Some b), w')" "inv w'" "still w'" "held w' = held w"
proof -
  obtain r w' where run: "get i w = (r, w')" by (rule prod.exhaust)
  have "is_ok r \<and> still w'" using wp_run [OF get_still [OF assms(1,2)] run] assms(3) by simp
  with wp_run [OF get_law [OF assms(1)] run] that run assms(3) show thesis by (auto elim!: is_ok.elims)
qed

lemma replace_run:
  assumes "inv w" "still w" "held w i \<noteq> None"
  obtains w' where "insert i b w = (Ok (Some b), w')" "inv w'" "still w'" "held w' = (held w)(i \<mapsto> b)"
proof -
  obtain r w' where run: "insert i b w = (r, w')" by (rule prod.exhaust)
  have "is_ok r \<and> still w'" using wp_run [OF insert_still [OF assms] run] .
  with wp_run [OF insert_law [OF assms(1)] run] that run show thesis by auto
qed

end

interpretation quiet_events: quiet_event_store
  "\<lambda>i b. conn_insert e (link_conn e host key) i b sk" "\<lambda>i. conn_get e (link_conn e host key) i sk"
  "conn_get_all e (link_conn e host key) sk" "held_events e key" "events_inv e" quiet
proof (intro quiet_event_store.intro attestor_events.event_store_axioms quiet_event_store_axioms.intro)
  fix w i b
  assume w: "events_inv e w" "quiet w" "held_events e key w i \<noteq> None"
  obtain row where row: "event_view (link_pg w) (key, i) = Some row" "row_bytes e row \<noteq> None"
    using w(3) by (auto simp: held_events_def bind_eq_Some_conv)
  note got = wp_conj [OF get_event_effect [OF w(1)] get_event_live [OF w(1,2)]]
  show "wp (conn_get e (link_conn e host key) i sk) (\<lambda>r w'. is_ok r \<and> quiet w') w"
    unfolding conn_get_def wp_and_then wp_map_err StorageApiConn.simps
    by (rule wp_mono [OF got])
      (use row in \<open>auto simp: row_bytes_def client_event_def b64_decoded_def wp_simps elim!: is_ok.elims\<close>)
  show "wp (conn_insert e (link_conn e host key) i b sk) (\<lambda>r w'. is_ok r \<and> quiet w') w"
    unfolding conn_insert_def Let_def wp_handle [of "client_get_event e c q k" for c q k] StorageApiConn.simps
  proof (rule wp_mono [OF got])
    fix r :: "(ClientEvent option, ApiError) outcome" and w1
    assume r: "(events_inv e w1 \<and> event_view (link_pg w1) = event_view (link_pg w) \<and> r \<noteq> Panic \<and>
       (\<forall>x. r = Ok x \<longrightarrow> x = map_option client_event (event_view (link_pg w) (key, i)))) \<and> is_ok r \<and> quiet w1"
    have "wp (handle (client_update_event e (link_client e host)
               \<lparr>ue_event_id = i, ue_content = b64_encode e b, ue_key = key\<rparr> sk)
               (\<lambda>_. ret (Some b)) (\<lambda>err. throw (OracleStorageApiError err))) (\<lambda>r w'. is_ok r \<and> quiet w') w1"
      unfolding wp_handle
      by (rule wp_mono [OF update_event_live]) (use r row in \<open>auto simp: wp_simps elim!: is_ok.elims\<close>)
    with r row show "case r of
        Ok event \<Rightarrow> wp (if event \<noteq> None
           then handle (client_update_event e (link_client e host)
               \<lparr>ue_event_id = i, ue_content = b64_encode e b, ue_key = key\<rparr> sk)
               (\<lambda>_. ret (Some b)) (\<lambda>err. throw (OracleStorageApiError err))
           else handle (client_create_event e (link_client e host)
               \<lparr>ne_event_id = i, ne_content = b64_encode e b, ne_key = key\<rparr> sk)
               (\<lambda>_. ret (Some b)) (\<lambda>err. throw (OracleStorageApiError err))) (\<lambda>r w'. is_ok r \<and> quiet w') w1
      | Err err \<Rightarrow> wp (throw (OracleStorageApiError err)) (\<lambda>r w'. is_ok r \<and> quiet w') w1
      | Panic \<Rightarrow> is_ok (Panic :: (bytes option, OracleError) outcome) \<and> quiet w1"
      by (auto elim!: is_ok.elims)
  qed
qed

section \<open>Attesting a held event\<close>

text \<open>The event with its attestation of the outcome, from the map of held events before to the one after.\<close>

definition newly_attested ::
  "web_ext \<Rightarrow> oracle_ext \<Rightarrow> bytes \<Rightarrow> string \<Rightarrow> u64 \<Rightarrow> (string \<Rightarrow> bytes option) \<Rightarrow> (string \<Rightarrow> bytes option) \<Rightarrow> bool" where
  "newly_attested e X key uuid n h h' \<longleftrightarrow> (\<exists>b v v' nonces ann att. h uuid = Some b \<and> db_value_of_bytes e X b = Some v
     \<and> dv_sk_nonces v = Some nonces \<and> read_announcement X (dv_announcement v) = Some ann \<and> announces e X key nonces uuid ann
     \<and> attests e X ann n att \<and> read_attestation X (encode_attestation X att) = Some att
     \<and> v' = v\<lparr>dv_outcome := Some n, dv_attestation := Some (encode_attestation X att)\<rparr>
     \<and> h' = h(uuid \<mapsto> db_value_bytes e X v') \<and> db_value_of_bytes e X (db_value_bytes e X v') = Some v')"

lemma attested_newly:
  assumes "libs_ok e X key" "sound_store e X key h" "h uuid = Some b" "db_value_of_bytes e X b = Some v" "dv_sk_nonces v = Some nonces"
  shows "newly_attested e X key uuid n h (h(uuid \<mapsto> db_value_bytes e X (attested_event e X key v nonces 14 n)))"
proof -
  let ?att = "build_attestation e X nonces key (outcome_digits 14 n)"
  have libs: "oracle_ok e X" "seckey_valid X key" "web_ok e" "text_ok e X" using assms(1) by (simp_all add: libs_ok_def)
  have v: "sound_event e X key uuid v" by (rule sound_storeD [OF assms(2-4)])
  obtain ann where ann: "read_announcement X (dv_announcement v) = Some ann" "announces e X key nonces uuid ann"
    "sound_event e X key uuid (attested_event e X key v nonces 14 n)"
    by (rule attestable_sound [OF assms(1,4) v]) (use assms(5) in auto)
  have "db_value_of_bytes e X (db_value_bytes e X (attested_event e X key v nonces 14 n))
      = Some (attested_event e X key v nonces 14 n)"
    using ann(3) by (intro db_value_roundtrip libs) (simp add: sound_event_def)
  moreover have "read_attestation X (encode_attestation X ?att) = Some ?att"
    using ann(2) by (intro attestation_reads [OF libs(1)]) (simp add: announces_def)
  moreover have "attested_event e X key v nonces 14 n
      = v\<lparr>dv_outcome := Some n, dv_attestation := Some (encode_attestation X ?att)\<rparr>"
    by (simp add: attested_event_def Let_def)
  ultimately show ?thesis
    unfolding newly_attested_def using assms(3-5) ann(1,2) build_attestation_attests [OF libs(1,2) ann(2), of n] by metis
qed

lemma attest_live:
  assumes inv: "attestor_inv e X key (w, rng)" and "quiet w" "held_events e (key_text e key) w uuid \<noteq> None"
  obtains w' where "attestor_attest e X (link_attestor e host key) uuid n w = (Ok (), w')" "quiet w'"
    "newly_attested e X key uuid n (held_events e (key_text e key) w) (held_events e (key_text e key) w')"
proof -
  let ?h = "held_events e (key_text e key)"
  have ok: "libs_ok e X key" "events_inv e w" "sound_store e X key (?h w)" using inv by (simp_all add: attestor_inv_def)
  obtain b where b: "?h w uuid = Some b" using assms(3) by blast
  then obtain v where v: "db_value_of_bytes e X b = Some v" "sound_event e X key uuid v"
    using ok(3) unfolding sound_store_def by blast
  obtain nonces where att: "attestable_event e X b = Ok (v, nonces, 14)" "dv_sk_nonces v = Some nonces"
    by (rule attestable_sound [OF ok(1) v]) blast
  let ?v = "attested_event e X key v nonces 14 n"
  obtain w1 where get: "conn_get e (link_conn e host (key_text e key)) uuid key w = (Ok (Some b), w1)"
    "events_inv e w1" "quiet w1" "?h w1 = ?h w"
    by (rule quiet_events.get_run [OF ok(2) assms(2) b])
  obtain w2 where ins: "conn_insert e (link_conn e host (key_text e key)) uuid (db_value_bytes e X ?v) key w1
      = (Ok (Some (db_value_bytes e X ?v)), w2)" "quiet w2" "?h w2 = (?h w1)(uuid \<mapsto> db_value_bytes e X ?v)"
    by (rule quiet_events.replace_run [OF get(2,3), of "key_text e key" uuid]) (use get(4) b in simp_all)
  have "attestor_attest e X (link_attestor e host key) uuid n w = (Ok (), w2)"
    using get(1) att(1) ins(1) unfolding attestor_attest_def
    by (simp add: and_then_def map_err_def handle_def ret_def of_outcome_def Let_def)
  with that ins(2,3) get(4) attested_newly [OF ok(1,3) b v(1) att(2)] show thesis by metis
qed

end
