(* ===== verification/Attestor_Props.thy ===== *)
theory Attestor_Props
  imports Ref_Oracle Attestor_Client Storage_Props Live_Events
begin

text \<open>
  Properties of the attestor on its storage and of the clients that read it: the announcements
  and attestations of the store are sound whatever the network loses, what an attestation says,
  what repeated attestations share, and what the manager's oracle makes of a served event.
\<close>

section \<open>A stored event for the witnesses\<close>

definition event_link :: "bytes \<Rightarrow> DbValue \<Rightarrow> link" where
  "event_link key v = demo_link\<lparr>lk_server := (demo_server [])
     \<lparr>srv_pg := demo_pg\<lparr>events := \<lparr>rows = [\<lparr>e_id = 1, e_event_id = dv_uuid v,
        e_content = b64_encode ref_web (db_value_bytes ref_web ref_oracle v), e_key = key_text ref_web key\<rparr>],
        serial = 2\<rparr>\<rparr>\<rparr>\<rparr>"

lemma event_link_held:
  "held_events ref_web (key_text ref_web key) (event_link key v) i
     = (if i = dv_uuid v then Some (db_value_bytes ref_web ref_oracle v) else None)"
  by (simp add: held_events_def event_link_def link_pg_def event_view_def tview_def event_ident_def row_bytes_def)

lemma event_link_inv:
  assumes "sound_event ref_web ref_oracle key i v"
  shows "attestor_inv ref_web ref_oracle key (event_link key v, \<lambda>i. [8])"
proof -
  have "sound_store ref_web ref_oracle key ((\<lambda>_. None)(i \<mapsto> db_value_bytes ref_web ref_oracle v))"
    by (rule sound_put [OF ref_libs_ok _ assms]) (simp add: sound_store_def)
  moreover have "dv_uuid v = i" using assms by (simp add: sound_event_def)
  then have "held_events ref_web (key_text ref_web key) (event_link key v) = (\<lambda>_. None)(i \<mapsto> db_value_bytes ref_web ref_oracle v)"
    by (auto simp: event_link_held [simplified])
  moreover have "link_ok (event_link key v)"
    by (simp add: event_link_def demo_link_def link_ok_def srv_ok_def demo_server_def pg_ok_def order_ok_def
        table_ok_def demo_pg_def alphanumeric_def NONCE_VEC_LENGTH_def)
  ultimately show ?thesis
    by (simp add: attestor_inv_def ref_libs_ok events_inv_def ref_web_ok) (simp add: ref_oracle_def)
qed

lemma sound_event_exists:
  obtains v where "sound_event ref_web ref_oracle key ''u'' v" "dv_outcome v = None"
proof -
  have ext: "oracle_ok ref_web ref_oracle" "seckey_valid ref_oracle key" "\<And>i. seckey_valid ref_oracle ((\<lambda>i. [8]) i)"
    by (simp_all add: ref_oracle_ok) (simp_all add: ref_oracle_def)
  obtain ann where ann: "announces ref_web ref_oracle key (map (\<lambda>i. [8]) [0..<14]) ''u'' ann"
    by (rule build_announcement_run [where maturation = 0 and event_id = "''u''" and w = "()", OF ext])
      (auto simp: u32_max_def)
  let ?v = "\<lparr>dv_sk_nonces = Some (map (\<lambda>i. [8]) [0..<14]), dv_announcement = encode_announcement ref_oracle ann,
    dv_attestation = None, dv_outcome = None, dv_uuid = ''u'', dv_chain = None\<rparr>"
  have "sound_event ref_web ref_oracle key ''u'' ?v"
    using ann ext announcement_reads [OF ref_oracle_ok ann]
    by (simp add: sound_event_def db_value_ok_def utf8_valid_ascii recorded_def list_all_iff del: upt_Suc)
  then show thesis using that by simp
qed

section \<open>The store of the attestor\<close>

datatype attestor_call =
  CreateEvent string string string | AttestEvent string u64 | ReadEvent string | ReadEvents

text \<open>The texts JavaScript hands over are strings of Rust, that is UTF-8.\<close>

fun call_text :: "attestor_call \<Rightarrow> bool" where
  "call_text (CreateEvent uuid maturation chain) = (utf8_valid uuid \<and> utf8_valid chain)"
| "call_text _ = True"

fun attestor_effect ::
  "web_ext \<Rightarrow> oracle_ext \<Rightarrow> 'w Attestor \<Rightarrow> attestor_call \<Rightarrow> 'w \<times> (nat \<Rightarrow> bytes) \<Rightarrow> 'w \<times> (nat \<Rightarrow> bytes)" where
  "attestor_effect e X a (CreateEvent uuid maturation chain) w = snd (attestor_create_event e X a uuid maturation chain w)"
| "attestor_effect e X a (AttestEvent uuid n) w = snd (lift_fst (attestor_attest e X a uuid n) w)"
| "attestor_effect e X a (ReadEvent uuid) w = snd (lift_fst (attestor_get_event e X a uuid) w)"
| "attestor_effect e X a ReadEvents w = snd (lift_fst (attestor_get_events e X a) w)"

lemma snd_lift_fst: "snd (lift_fst m (w, rng)) = (snd (m w), rng)"
  by (simp add: lift_fst_def on_part_def split: prod.split)

lemma attestor_effect_inv:
  assumes "attestor_inv e X key w" "call_text c"
  shows "attestor_inv e X key (attestor_effect e X (link_attestor e host key) c w)"
proof -
  obtain l rng where w: "w = (l, rng)" by (cases w)
  show ?thesis
  proof (cases c)
    case (CreateEvent uuid maturation chain)
    obtain r l' rng' where run: "attestor_create_event e X (link_attestor e host key) uuid maturation chain (l, rng) = (r, (l', rng'))"
      by (metis prod.exhaust)
    have "attestor_inv e X key (l', rng')"
      by (rule create_event_run(1) [OF _ _ _ run]) (use assms CreateEvent in \<open>simp_all add: w\<close>)
    then show ?thesis by (simp add: CreateEvent w run)
  next
    case (AttestEvent uuid n)
    obtain r l' where run: "attestor_attest e X (link_attestor e host key) uuid n l = (r, l')" by (rule prod.exhaust)
    show ?thesis using attest_run(1) [OF assms(1) [unfolded w] run] by (simp add: AttestEvent w snd_lift_fst run)
  next
    case (ReadEvent uuid)
    obtain r l' where run: "attestor_get_event e X (link_attestor e host key) uuid l = (r, l')" by (rule prod.exhaust)
    show ?thesis using get_event_run(1) [OF assms(1) [unfolded w] run] by (simp add: ReadEvent w snd_lift_fst run)
  next
    case ReadEvents
    obtain r l' where run: "attestor_get_events e X (link_attestor e host key) l = (r, l')" by (rule prod.exhaust)
    show ?thesis using get_events_run(1) [OF assms(1) [unfolded w] run] by (simp add: ReadEvents w snd_lift_fst run)
  qed
qed

lemma attestor_calls_inv:
  "attestor_inv e X key w \<Longrightarrow> \<forall>c \<in> set calls. call_text c \<Longrightarrow>
     attestor_inv e X key (fold (attestor_effect e X (link_attestor e host key)) calls w)"
  by (induction calls arbitrary: w) (simp_all add: attestor_effect_inv)

text \<open>
  C28. Whatever calls the attestor gets and whatever the network loses on the way to the storage
  service, every event stored under its key decodes to a signed announcement of fourteen nonces,
  with their secrets beside it, and an attestation, when there is one, signs each digit of the
  recorded outcome with the nonce announced for its position.
\<close>

theorem attestor_history:
  assumes "attestor_inv e X key w" "\<forall>c \<in> set calls. call_text c"
    and "w' = fold (attestor_effect e X (link_attestor e host key)) calls w"
    and "held_events e (key_text e key) (fst w') uuid = Some b"
  shows "\<exists>v. db_value_of_bytes e X b = Some v \<and> sound_event e X key uuid v"
proof -
  have "sound_store e X key (held_events e (key_text e key) (fst w'))"
    using attestor_calls_inv [OF assms(1,2), of host] assms(3) by (simp add: attestor_inv_def)
  with assms(4) show ?thesis by (simp add: sound_store_def)
qed

theorem attestor_history_witness:
  "\<exists>v b. held_events ref_web (key_text ref_web [7]) (fst (fold (attestor_effect ref_web ref_oracle
        (link_attestor ref_web ''h'' [7])) [AttestEvent ''u'' 5] (event_link [7] v, \<lambda>i. [8]))) ''u'' = Some b
     \<and> (\<exists>v'. db_value_of_bytes ref_web ref_oracle b = Some v' \<and> sound_event ref_web ref_oracle [7] ''u'' v')"
proof -
  obtain v where v: "sound_event ref_web ref_oracle [7] ''u'' v" "dv_outcome v = None" by (rule sound_event_exists)
  note inv = event_link_inv [OF v(1)]
  let ?h = "held_events ref_web (key_text ref_web [7])"
  have uuid: "dv_uuid v = ''u''" using v(1) by (simp add: sound_event_def)
  obtain r l' where run: "attestor_attest ref_web ref_oracle (link_attestor ref_web ''h'' [7]) ''u'' 5 (event_link [7] v) = (r, l')"
    by (rule prod.exhaust)
  have "?h (event_link [7] v) ''u'' \<noteq> None" by (simp add: event_link_held [simplified] uuid)
  then have "?h l' ''u'' \<noteq> None" using attest_run(3) [OF inv run] by auto
  then obtain b where held: "?h (fst (fold (attestor_effect ref_web ref_oracle
        (link_attestor ref_web ''h'' [7])) [AttestEvent ''u'' 5] (event_link [7] v, \<lambda>i. [8]))) ''u'' = Some b"
    by (auto simp: snd_lift_fst run)
  have "\<exists>v'. db_value_of_bytes ref_web ref_oracle b = Some v' \<and> sound_event ref_web ref_oracle [7] ''u'' v'"
    by (rule attestor_history [OF inv _ refl held]) simp
  with held show ?thesis by blast
qed

text \<open>
  C29. Attesting an outcome never panics. Either the store is left as it was, or the answer is
  \<open>Ok\<close> and the event's record alone changes: it keeps its announcement (signed by the
  oracle, for this event), nonces and chain, and gains the outcome and an attestation of the
  outcome's digits whose fourteen signatures verify under the oracle's key with the announced
  nonces. On a quiet link an event that is held is attested so. An answer \<open>Ok\<close> alone does not
  tell the two apart.
\<close>

theorem attest_result:
  assumes "attestor_inv e X key (w, rng)"
    and "attestor_attest e X (link_attestor e host key) uuid n w = (r, w')"
  shows "let h = held_events e (key_text e key) w; h' = held_events e (key_text e key) w' in
    r \<noteq> Panic \<and> (h' = h \<or> r = Ok () \<and> newly_attested e X key uuid n h h')
    \<and> (quiet w \<and> h uuid \<noteq> None \<longrightarrow> r = Ok () \<and> newly_attested e X key uuid n h h')"
proof -
  let ?h = "held_events e (key_text e key)"
  have libs: "libs_ok e X key" "sound_store e X key (?h w)" using assms(1) by (simp_all add: attestor_inv_def)
  have "?h w' = ?h w \<or> r = Ok () \<and> newly_attested e X key uuid n (?h w) (?h w')"
    using attest_run(3) [OF assms] attested_newly [OF libs] by metis
  moreover have "r = Ok () \<and> newly_attested e X key uuid n (?h w) (?h w')" if "quiet w" "?h w uuid \<noteq> None"
    by (rule attest_live [where n = n and host = host, OF assms(1) that]) (use assms(2) in auto)
  ultimately show ?thesis using attest_run(2) [OF assms] by (simp add: Let_def)
qed

lemma event_link_quiet: "quiet (event_link key v)"
  by (simp add: quiet_def calm_server_def event_link_def link_pg_def demo_link_def demo_server_def demo_pg_def
      pg_typed_def serials_ok_def i32_max_def)

lemma event_link_holds: "sound_event ref_web ref_oracle key i v \<Longrightarrow>
    held_events ref_web (key_text ref_web key) (event_link key v) i = Some (db_value_bytes ref_web ref_oracle v)"
  by (simp add: event_link_held [simplified] sound_event_def)

theorem attest_result_witness:
  "\<exists>v w' v'. sound_event ref_web ref_oracle [7] ''u'' v \<and> dv_outcome v = None
     \<and> attestor_attest ref_web ref_oracle (link_attestor ref_web ''h'' [7]) ''u'' 5 (event_link [7] v) = (Ok (), w')
     \<and> Option.bind (held_events ref_web (key_text ref_web [7]) w' ''u'') (db_value_of_bytes ref_web ref_oracle) = Some v'
     \<and> dv_announcement v' = dv_announcement v \<and> dv_outcome v' = Some 5 \<and> dv_attestation v' \<noteq> None"
proof -
  obtain v where v: "sound_event ref_web ref_oracle [7] ''u'' v" "dv_outcome v = None" by (rule sound_event_exists)
  obtain r w' where run: "attestor_attest ref_web ref_oracle (link_attestor ref_web ''h'' [7]) ''u'' 5 (event_link [7] v) = (r, w')"
    by (rule prod.exhaust)
  have "db_value_of_bytes ref_web ref_oracle (db_value_bytes ref_web ref_oracle v) = Some v"
    using v(1) by (intro db_value_roundtrip ref_web_ok ref_oracle_ok ref_text_ok) (simp add: sound_event_def)
  moreover have "r = Ok () \<and> newly_attested ref_web ref_oracle [7] ''u'' 5
      (held_events ref_web (key_text ref_web [7]) (event_link [7] v)) (held_events ref_web (key_text ref_web [7]) w')"
    using attest_result [OF event_link_inv [OF v(1)] run] event_link_holds [OF v(1)] event_link_quiet [of "[7]" v]
    unfolding Let_def by blast
  ultimately show ?thesis using event_link_holds [OF v(1)] v run by (auto simp: newly_attested_def)
qed

section \<open>Outcomes\<close>

text \<open>
  C30. The outcome can be read back from the digits of an attestation; every nonce gives one
  signature, and the signatures match the digits one to one exactly when the outcome is below
  2 to the 14th: a larger outcome has more digits than signatures.
\<close>

theorem attestation_digits:
  assumes "announces e X key nonces uuid ann"
    and "att = build_attestation e X nonces key (outcome_digits 14 n)"
  shows "bin_value 0 (concat (att_outcomes att)) = unat n \<and> length (att_signatures att) = 14
    \<and> (length (att_signatures att) = length (att_outcomes att) \<longleftrightarrow> unat n < 2 ^ 14)"
proof -
  have "concat (map (\<lambda>c. [c]) s) = s" for s :: string by (induction s) simp_all
  then have "bin_value 0 (concat (outcome_digits 14 n)) = unat n"
    by (simp add: outcome_digits_def format_binary(1))
  with assms length_outcome_digits [of n] show ?thesis
    by (auto simp: build_attestation_def Let_def announces_def)
qed

theorem attestation_digits_witness:
  "length (att_signatures (build_attestation ref_web ref_oracle (map (\<lambda>i. [8]) [0..<14]) [7] (outcome_digits 14 16384)))
     < length (att_outcomes (build_attestation ref_web ref_oracle (map (\<lambda>i. [8]) [0..<14]) [7] (outcome_digits 14 16384)))"
proof -
  have ext: "oracle_ok ref_web ref_oracle" "seckey_valid ref_oracle [7]" "\<And>i. seckey_valid ref_oracle ((\<lambda>i. [8]) i)"
    by (simp_all add: ref_oracle_ok) (simp_all add: ref_oracle_def)
  obtain ann where ann: "announces ref_web ref_oracle [7] (map (\<lambda>i. [8]) [0..<14]) ''u'' ann"
    by (rule build_announcement_run [where maturation = 0 and event_id = "''u''" and w = "()", OF ext])
      (auto simp: u32_max_def)
  have "14 \<le> length (outcome_digits 14 16384)" by (rule length_outcome_digits(1))
  with attestation_digits [OF ann refl, of 16384] show ?thesis
    by (auto simp: build_attestation_def Let_def simp del: upt_Suc)
qed

section \<open>Attesting again\<close>

text \<open>What a call leaves of a stored event: only its outcome and attestation may change.\<close>

definition event_kept :: "DbValue \<Rightarrow> DbValue \<Rightarrow> bool" where
  "event_kept v v' \<longleftrightarrow> v' = v\<lparr>dv_outcome := dv_outcome v', dv_attestation := dv_attestation v'\<rparr>
     \<and> (dv_attestation v \<noteq> None \<longrightarrow> dv_attestation v' \<noteq> None)"

definition event_at :: "web_ext \<Rightarrow> oracle_ext \<Rightarrow> bytes \<Rightarrow> link \<times> (nat \<Rightarrow> bytes) \<Rightarrow> string \<Rightarrow> DbValue option" where
  "event_at e X key w uuid = Option.bind (held_events e (key_text e key) (fst w) uuid) (db_value_of_bytes e X)"

text \<open>Every call but a creation of the event, which announces it anew.\<close>

fun creates :: "string \<Rightarrow> attestor_call \<Rightarrow> bool" where
  "creates uuid (CreateEvent i _ _) = (i = uuid)"
| "creates uuid _ = False"

lemma event_same:
  "held_events e (key_text e key) (fst w') uuid = held_events e (key_text e key) (fst w) uuid \<Longrightarrow>
     event_at e X key w uuid = Some v \<Longrightarrow> \<exists>v'. event_at e X key w' uuid = Some v' \<and> event_kept v v'"
  by (simp add: event_at_def event_kept_def)

lemma event_attested:
  assumes "newly_attested e X key i n (held_events e (key_text e key) (fst w)) (held_events e (key_text e key) (fst w'))"
    and "event_at e X key w uuid = Some v"
  shows "\<exists>v'. event_at e X key w' uuid = Some v' \<and> event_kept v v' \<and> (i = uuid \<longrightarrow> dv_outcome v' = Some n)"
  using assms by (cases "i = uuid") (auto simp: newly_attested_def event_at_def event_kept_def)

lemma event_kept_effect:
  assumes "attestor_inv e X key w" "call_text c" "\<not> creates uuid c" "event_at e X key w uuid = Some v"
  shows "\<exists>v'. event_at e X key (attestor_effect e X (link_attestor e host key) c w) uuid = Some v' \<and> event_kept v v'"
proof -
  obtain l rng where w: "w = (l, rng)" by (cases w)
  note inv = assms(1) [unfolded w]
  show ?thesis
  proof (cases c)
    case (CreateEvent i maturation chain)
    obtain r l' rng' where run: "attestor_create_event e X (link_attestor e host key) i maturation chain (l, rng) = (r, (l', rng'))"
      by (metis prod.exhaust)
    have "held_events e (key_text e key) l' uuid = held_events e (key_text e key) l uuid"
      by (rule create_event_run(3) [OF inv _ _ run]) (use assms(2,3) CreateEvent in simp_all)
    then show ?thesis by (intro event_same [OF _ assms(4)]) (simp add: CreateEvent w run)
  next
    case (AttestEvent i n)
    obtain r l' where run: "attestor_attest e X (link_attestor e host key) i n l = (r, l')" by (rule prod.exhaust)
    have w': "attestor_effect e X (link_attestor e host key) c w = (l', rng)" by (simp add: AttestEvent w snd_lift_fst run)
    have libs: "libs_ok e X key" "sound_store e X key (held_events e (key_text e key) l)"
      using inv by (simp_all add: attestor_inv_def)
    have "held_events e (key_text e key) l' = held_events e (key_text e key) l
        \<or> newly_attested e X key i n (held_events e (key_text e key) l) (held_events e (key_text e key) l')"
      using attest_run(3) [OF inv run] attested_newly [OF libs] by metis
    then show ?thesis
      unfolding w' using event_same [of e key "(l', rng)" uuid w] event_attested [of e X key i n w "(l', rng)"] assms(4) w
      by (metis fst_conv)
  next
    case (ReadEvent i)
    obtain r l' where run: "attestor_get_event e X (link_attestor e host key) i l = (r, l')" by (rule prod.exhaust)
    show ?thesis
      by (rule event_same [OF _ assms(4)]) (use get_event_run(2) [OF inv run] in \<open>simp add: ReadEvent w snd_lift_fst run\<close>)
  next
    case ReadEvents
    obtain r l' where run: "attestor_get_events e X (link_attestor e host key) l = (r, l')" by (rule prod.exhaust)
    show ?thesis
      by (rule event_same [OF _ assms(4)]) (use get_events_run(2) [OF inv run] in \<open>simp add: ReadEvents w snd_lift_fst run\<close>)
  qed
qed

lemma event_kept_trans: "event_kept u v \<Longrightarrow> event_kept v w \<Longrightarrow> event_kept u w"
  by (cases u; cases v; cases w) (simp add: event_kept_def)

lemma event_kept_calls:
  assumes "attestor_inv e X key w" "\<forall>c \<in> set calls. call_text c \<and> \<not> creates uuid c" "event_at e X key w uuid = Some v"
  shows "\<exists>v'. event_at e X key (fold (attestor_effect e X (link_attestor e host key)) calls w) uuid = Some v' \<and> event_kept v v'"
  using assms
proof (induction calls arbitrary: w v)
  case (Cons c calls)
  let ?w = "attestor_effect e X (link_attestor e host key) c w"
  obtain u where u: "event_at e X key ?w uuid = Some u" "event_kept v u"
    using event_kept_effect [OF Cons.prems(1) _ _ Cons.prems(3)] Cons.prems(2) by force
  moreover have "attestor_inv e X key ?w" using attestor_effect_inv [OF Cons.prems(1)] Cons.prems(2) by simp
  ultimately obtain v' where "event_at e X key (fold (attestor_effect e X (link_attestor e host key)) calls ?w) uuid = Some v'" "event_kept u v'"
    using Cons.IH [of ?w u] Cons.prems(2) by auto
  then show ?case using event_kept_trans [OF u(2)] by auto
qed (simp add: event_kept_def)

text \<open>A signature of a digit of the outcome at position \<open>i\<close>, with this public nonce.\<close>

definition signs_digit :: "web_ext \<Rightarrow> oracle_ext \<Rightarrow> bytes \<Rightarrow> u64 \<Rightarrow> nat \<Rightarrow> bytes \<Rightarrow> DbValue \<Rightarrow> bool" where
  "signs_digit e X key n i nonce v \<longleftrightarrow> (\<exists>bs att. dv_outcome v = Some n \<and> dv_attestation v = Some bs \<and> read_attestation X bs = Some att
     \<and> schnorr_verify X (sha256 e (outcome_digits 14 n ! i)) (att_signatures att ! i) (xonly X (pk_of_sk e key))
     \<and> schnorr_nonce X (att_signatures att ! i) = nonce)"

lemma event_signs:
  assumes "attestor_inv e X key w" "event_at e X key w uuid = Some v" "dv_outcome v = Some n"
  obtains nonces where "dv_sk_nonces v = Some nonces" "\<And>i. i < 14 \<Longrightarrow> signs_digit e X key n i (xonly X (pk_of_sk e (nonces ! i))) v"
proof -
  have "sound_event e X key uuid v"
    using assms(1,2) by (auto simp: event_at_def bind_eq_Some_conv attestor_inv_def dest: sound_storeD)
  then obtain nonces ann where ann: "dv_sk_nonces v = Some nonces" "announces e X key nonces uuid ann"
    "recorded e X ann (Some n) (dv_attestation v)"
    using assms(3) by (auto simp: sound_event_def)
  then obtain bs att where att: "dv_attestation v = Some bs" "read_attestation X bs = Some att" "attests e X ann n att"
    by (auto simp: recorded_def split: option.splits)
  have "signs_digit e X key n i (xonly X (pk_of_sk e (nonces ! i))) v" if "i < 14" for i
    using that att ann(2) assms(3) by (auto simp: signs_digit_def attests_def announces_def)
  with that ann(1) show thesis by blast
qed

text \<open>
  C31. An attested event can be attested again, and then with the nonces of the first time:
  whatever calls come after its attestation of the outcome n (but a call that creates the event
  anew), when the event is attested with m on a quiet link, its record signs the digits of m,
  each with the public nonce of the signature that the earlier record has for the same position.
  Where n and m differ in a digit, the oracle's key has signed two messages with one nonce.
\<close>

theorem reattest_shares_nonces:
  assumes "attestor_inv e X key w" "\<forall>c \<in> set calls. call_text c \<and> \<not> creates uuid c"
    and "event_at e X key w uuid = Some v" "dv_outcome v = Some n"
    and "w' = fold (attestor_effect e X (link_attestor e host key)) calls w" "quiet (fst w')"
    and "attestor_attest e X (link_attestor e host key) uuid m (fst w') = (r, l)"
  shows "r = Ok () \<and> (\<exists>v'. event_at e X key (l, snd w') uuid = Some v' \<and>
    (\<forall>i < 14. \<exists>nonce. signs_digit e X key n i nonce v \<and> signs_digit e X key m i nonce v'))"
proof -
  obtain u where u: "event_at e X key w' uuid = Some u" "event_kept v u"
    using event_kept_calls [OF assms(1,2,3)] assms(5) by blast
  have "\<forall>c \<in> set calls. call_text c" using assms(2) by blast
  then have "attestor_inv e X key w'" unfolding assms(5) by (rule attestor_calls_inv [OF assms(1)])
  then have inv: "attestor_inv e X key (fst w', snd w')" by simp
  have "held_events e (key_text e key) (fst w') uuid \<noteq> None" using u(1) by (auto simp: event_at_def bind_eq_Some_conv)
  then have att: "r = Ok ()" "newly_attested e X key uuid m (held_events e (key_text e key) (fst w')) (held_events e (key_text e key) l)"
    using assms(6,7) attest_live [OF inv, of uuid host m] by (metis prod.inject)+
  obtain v' where v': "event_at e X key (l, snd w') uuid = Some v'" "event_kept u v'" "dv_outcome v' = Some m"
    using event_attested [of e X key uuid m w' "(l, snd w')" uuid u] att(2) u(1) by auto
  have inv': "attestor_inv e X key (l, snd w')" by (rule attest_run(1) [OF inv assms(7)])
  have "dv_sk_nonces v' = dv_sk_nonces v"
    using event_kept_trans [OF u(2) v'(2)] by (cases v'; cases v) (simp add: event_kept_def)
  with event_signs [OF assms(1,3,4)] event_signs [OF inv' v'(1,3)]
  have "\<forall>i < 14. \<exists>nonce. signs_digit e X key n i nonce v \<and> signs_digit e X key m i nonce v'" by (metis option.inject)
  with att(1) v'(1) show ?thesis by blast
qed

theorem reattest_shares_nonces_witness:
  "\<exists>w l v v'. let a = link_attestor ref_web ''h'' [7] in
     attestor_attest ref_web ref_oracle a ''u'' 1 (fst w) = (Ok (), l)
     \<and> event_at ref_web ref_oracle [7] w ''u'' = Some v \<and> event_at ref_web ref_oracle [7] (l, snd w) ''u'' = Some v'
     \<and> (\<exists>nonce. signs_digit ref_web ref_oracle [7] 0 13 nonce v \<and> signs_digit ref_web ref_oracle [7] 1 13 nonce v')"
proof -
  let ?a = "link_attestor ref_web ''h'' [7]" and ?rng = "\<lambda>i :: nat. [8] :: bytes"
  obtain u where u: "sound_event ref_web ref_oracle [7] ''u'' u" "dv_outcome u = None" by (rule sound_event_exists)
  note inv = event_link_inv [OF u(1)]
  have held: "held_events ref_web (key_text ref_web [7]) (event_link [7] u) ''u'' \<noteq> None" using event_link_holds [OF u(1)] by simp
  obtain l where l: "attestor_attest ref_web ref_oracle ?a ''u'' 0 (event_link [7] u) = (Ok (), l)" "quiet l"
    "newly_attested ref_web ref_oracle [7] ''u'' 0 (held_events ref_web (key_text ref_web [7]) (event_link [7] u))
       (held_events ref_web (key_text ref_web [7]) l)"
    by (rule attest_live [OF inv event_link_quiet held])
  have inv': "attestor_inv ref_web ref_oracle [7] (l, ?rng)" by (rule attest_run(1) [OF inv l(1)])
  obtain v where v: "event_at ref_web ref_oracle [7] (l, ?rng) ''u'' = Some v" "dv_outcome v = Some 0"
    using l(3) by (auto simp: newly_attested_def event_at_def)
  obtain r l' where run: "attestor_attest ref_web ref_oracle ?a ''u'' 1 (fst (l, ?rng)) = (r, l')" by (rule prod.exhaust)
  have "r = Ok () \<and> (\<exists>v'. event_at ref_web ref_oracle [7] (l', snd (l, ?rng)) ''u'' = Some v' \<and>
      (\<forall>i < 14. \<exists>nonce. signs_digit ref_web ref_oracle [7] 0 i nonce v \<and> signs_digit ref_web ref_oracle [7] 1 i nonce v'))"
    by (rule reattest_shares_nonces [OF inv' _ v, of "[]", OF _ _ _ run]) (use l(2) in simp_all)
  then obtain v' where "r = Ok ()" "event_at ref_web ref_oracle [7] (l', snd (l, ?rng)) ''u'' = Some v'"
    "\<exists>nonce. signs_digit ref_web ref_oracle [7] 0 13 nonce v \<and> signs_digit ref_web ref_oracle [7] 1 13 nonce v'" by force
  with run v(1) show ?thesis unfolding Let_def by blast
qed

section \<open>The client\<close>

text \<open>
  C32. What the attestor reports of a stored event, served as JSON, is what the manager's oracle
  reads: the announcement that was stored, and the attestation once there is one; before that the
  oracle answers with an error.
\<close>

theorem served_event_read:
  assumes "parse_database_entry e X b = Ok y" "db_value_of_bytes e X b = Some v"
    and "serves e ac uuid w j w'"
    and "as_str (json_index j ''rust_announcement'') = Some (ao_rust_announcement y)"
    and "as_str (json_index j ''rust_attestation'') = ao_rust_attestation y"
    and "rel_option (\<lambda>bs t. read_attestation X bs = Some t) (dv_attestation v) att"
  shows "(\<exists>ann. read_announcement X (dv_announcement v) = Some ann
       \<and> or_get_announcement (client_oracle e D X ac) uuid w = (Ok ann, w'))
    \<and> or_get_attestation (client_oracle e D X ac) uuid w =
        ((case att of Some t \<Rightarrow> Ok t | None \<Rightarrow> Err (OracleError (''missing attestation for event '' @ uuid))), w')"
proof -
  obtain ann where ann: "read_announcement X (dv_announcement v) = Some ann"
    "ao_rust_announcement y = hex_str (dv_announcement v)" "ao_rust_attestation y = map_option hex_str (dv_attestation v)"
    using assms(1,2) by (auto simp: parse_database_entry_def)
  have "client_get_announcement e D X ac uuid w = (Ok ann, w')"
    by (rule client_announcement_served [OF assms(3)]) (use assms(4) ann in auto)
  moreover have "client_get_attestation e X ac uuid w =
      ((case att of Some t \<Rightarrow> Ok t | None \<Rightarrow> Err (OracleError (''missing attestation for event '' @ uuid))), w')"
  proof (cases att)
    case None
    with assms(5,6) ann(3) show ?thesis by (simp add: client_attestation_missing [OF assms(3)])
  next
    case (Some t)
    then obtain bs where bs: "dv_attestation v = Some bs" "read_attestation X bs = Some t"
      using assms(6) by (cases "dv_attestation v") simp_all
    with client_attestation_served [OF assms(3) _ bs(2)] assms(5) ann(3) Some show ?thesis by simp
  qed
  ultimately show ?thesis using ann(1) by (simp add: client_oracle_def)
qed

definition demo_reader :: "json \<Rightarrow> unit AttestorClient" where
  "demo_reader j = \<lparr>acl_host = ''h/'', acl_public_key = [7],
     acl_client = (\<lambda>path. ret \<lparr>rp_status = 200, rp_body = Ok (enc j)\<rparr>)\<rparr>"

lemma demo_reader_serves: "serves ref_web (demo_reader j) i () (json_canon j) ()"
  by (simp add: serves_def demo_reader_def ret_def)

theorem served_event_read_witness:
  "\<exists>v j. sound_event ref_web ref_oracle [7] ''u'' v \<and>
     or_get_attestation (client_oracle ref_web ref_dlc ref_oracle (demo_reader j)) ''u'' ()
       = (Err (OracleError ''missing attestation for event u''), ())"
proof -
  obtain v where v: "sound_event ref_web ref_oracle [7] ''u'' v" "dv_outcome v = None" by (rule sound_event_exists)
  then have none: "dv_attestation v = None" by (auto simp: sound_event_def recorded_def split: option.splits)
  let ?b = "db_value_bytes ref_web ref_oracle v"
  have "db_value_ok ref_oracle v" using v(1) by (simp add: sound_event_def)
  then have db: "db_value_of_bytes ref_web ref_oracle ?b = Some v"
    by (rule db_value_roundtrip [OF ref_web_ok ref_oracle_ok ref_text_ok])
  obtain ann where "read_announcement ref_oracle (dv_announcement v) = Some ann" using v(1) by (auto simp: sound_event_def)
  then obtain y where y: "parse_database_entry ref_web ref_oracle ?b = Ok y"
    using db by (auto simp: parse_database_entry_def) (simp add: ref_oracle_def)
  have att: "ao_rust_attestation y = None" using y db none by (auto simp: parse_database_entry_def)
  let ?j = "JObj [(''rust_announcement'', JStr (ao_rust_announcement y)), (''rust_attestation'', JNull)]"
  have "or_get_attestation (client_oracle ref_web ref_dlc ref_oracle (demo_reader ?j)) ''u'' ()
      = (Err (OracleError (''missing attestation for event '' @ ''u'')), ())"
    using served_event_read [OF y db demo_reader_serves [of ?j], of None ref_dlc "''u''"] none att
    by (simp add: read_canon del: json_canon.simps)
  then show ?thesis using v(1) by auto
qed

text \<open>
  A reply whose text is not hexadecimal is an error for the reader of the announcement, and
  a panic for the reader of the attestation.
\<close>

theorem bad_hex_attestation_panics:
  assumes "serves e ac uuid w j w'" "decode_hex s = Err x"
    and "as_str (json_index j ''rust_announcement'') = Some s" "as_str (json_index j ''rust_attestation'') = Some s"
  shows "(\<exists>msg. client_get_announcement e D X ac uuid w = (Err (OracleError msg), w'))
    \<and> client_get_attestation e X ac uuid w = (Panic, w')"
  using client_bad_hex [OF assms(1,2)] assms(3,4) by blast

theorem bad_hex_attestation_panics_witness:
  "client_get_attestation ref_web ref_oracle (demo_reader (JObj [(''rust_announcement'', JStr ''abc''),
     (''rust_attestation'', JStr ''abc'')])) ''u'' () = (Panic, ())"
  using bad_hex_attestation_panics [OF demo_reader_serves, of "''abc''" OddLength
      "JObj [(''rust_announcement'', JStr ''abc''), (''rust_attestation'', JStr ''abc'')]" ref_dlc ref_oracle "''u''"]
  by (simp add: read_canon decode_hex_def del: json_canon.simps)

end
