(* ===== verification/Router_Wallet.thy ===== *)
theory Router_Wallet
  imports Attestor_Client Dlc_Checks
begin

text \<open>
  \<open>wallet/src/main.rs\<close> and \<open>wallet/src/macros.rs\<close>: the router wallet, an HTTP service around
  the manager. It makes offers, takes acceptances, lists its contracts, asks the attestors for
  the chain of an event, and after each periodic check tells the blockchain interface which
  contracts were funded and which are being closed. Its attestors are a hash map: a list of
  entries with distinct keys, read in the arbitrary order \<open>rt_order\<close>. Response headers and
  logging are left out; an error of type \<open>Box<dyn Error>\<close> is its text.
\<close>

section \<open>Retrying\<close>

text \<open>
  The macro \<open>retry!\<close>. Its counter and its limit are \<open>i32\<close>; with a limit of 0 or less it never
  gives up, and \<open>None\<close> is a loop that never ends: a call that always fails, in a build without
  overflow checks. The sleep between two attempts has no effect on the result.
\<close>

partial_function (option) retry_from ::
  "bool \<Rightarrow> ('w, 'a, 'e) io \<Rightarrow> i32 \<Rightarrow> i32 \<Rightarrow> 'w \<Rightarrow> (('a, 'e) outcome \<times> 'w) option" where
  "retry_from chk m limit retries w =
     (case m w of
        (Ok v, w') \<Rightarrow> Some (Ok v, w')
      | (Err e, w') \<Rightarrow>
          (case i32_succ chk retries of
             Some retries' \<Rightarrow>
               if 0 <s limit \<and> limit \<le>s retries' then Some (Err e, w')
               else retry_from chk m limit retries' w'
           | None \<Rightarrow> Some (Panic, w'))
      | (Panic, w') \<Rightarrow> Some (Panic, w'))"

definition retry :: "bool \<Rightarrow> ('w, 'a, 'e) io \<Rightarrow> i32 \<Rightarrow> 'w \<Rightarrow> (('a, 'e) outcome \<times> 'w) option" where
  "retry chk m limit = retry_from chk m limit 0"

section \<open>The service and its surroundings\<close>

record 'w router_ext =
  rx_http_get :: "string \<Rightarrow> ('w, reply, reqwest_error) io"
  rx_post_json :: "string \<Rightarrow> json \<Rightarrow> ('w, unit, reqwest_error) io"
  rx_network_from_str :: "string \<Rightarrow> (string, string) outcome"
  rx_address_from_str :: "string \<Rightarrow> (bytes, string) outcome"
  rx_address_text :: "bytes \<Rightarrow> string"
  rx_node_id :: "string \<Rightarrow> bytes option"
  rx_txid_text :: "bytes \<Rightarrow> string"
  rx_offer_json :: "offer_dlc \<Rightarrow> (string, string) outcome"
  rx_sign_json :: "sign_dlc \<Rightarrow> (string, string) outcome"
  rx_accept_of_json :: "string \<Rightarrow> (accept_dlc, string) outcome"

type_synonym 'w attestor_map = "(bytes \<times> 'w AttestorClient) list"

record 'w Router =
  rt_manager :: "'w Manager"
  rt_attestors :: "'w attestor_map option"
  rt_order :: "nat \<Rightarrow> nat list"
  rt_store :: "'w async_storage"
  rt_wallet_address :: bytes
  rt_active_network :: string
  rt_blockchain_interface_url :: string

definition STATIC_COUNTERPARTY_NODE_ID :: string where
  "STATIC_COUNTERPARTY_NODE_ID = ''02fc8e97419286cf05e5d133f41ff6d51f691dda039e9dc007245a421e2c7ec61c''"

definition TEN_DAYS :: u32 where
  "TEN_DAYS = 86400 * 10"

definition in_order :: "(nat \<Rightarrow> nat list) \<Rightarrow> 'a list \<Rightarrow> 'a list" where
  "in_order order xs = map ((!) xs) (order (length xs))"

definition wallet_error :: "string \<Rightarrow> string" where
  "wallet_error msg = ''Wallet Error: '' @ msg"

section \<open>Attestors\<close>

definition get_attestors :: "web_ext \<Rightarrow> 'w router_ext \<Rightarrow> string \<Rightarrow> ('w, string list, dlc_error) io" where
  "get_attestors e x blockchain_interface_url =
     and_then (map_err (\<lambda>r. OracleError (rqe_text r))
        (rx_http_get x (blockchain_interface_url @ ''/get-all-attestors''))) (\<lambda>res.
     and_then (of_outcome (outcome_map_err (\<lambda>r. OracleError (rqe_text r)) (reply_json e (json_list as_str) res)))
       (\<lambda>attestors.
     if length attestors = 0 then throw (OracleError ''No attestors found'') else ret attestors))"

text \<open>Insertion into the hash map: an entry of the same key is replaced.\<close>

fun put_attestor :: "bytes \<Rightarrow> 'w AttestorClient \<Rightarrow> 'w attestor_map \<Rightarrow> 'w attestor_map" where
  "put_attestor k c [] = [(k, c)]"
| "put_attestor k c ((k', c') # m) = (if k' = k then (k, c) # m else (k', c') # put_attestor k c m)"

text \<open>Six attempts for each attestor; when they fail, a panic.\<close>

fun add_attestors ::
  "bool \<Rightarrow> (string \<Rightarrow> ('w, 'w AttestorClient, dlc_error) io) \<Rightarrow> string list \<Rightarrow> 'w attestor_map \<Rightarrow> 'w \<Rightarrow>
     (('w attestor_map, 'e) outcome \<times> 'w) option" where
  "add_attestors chk new_client [] attestor_clients w = Some (Ok attestor_clients, w)"
| "add_attestors chk new_client (url # urls) attestor_clients w =
     Option.bind (retry chk (new_client url) 6 w) (\<lambda>(r, w').
     case r of
       Ok p2p_client \<Rightarrow>
         add_attestors chk new_client urls (put_attestor (client_get_public_key p2p_client) p2p_client attestor_clients) w'
     | _ \<Rightarrow> Some (Panic, w'))"

definition generate_attestor_client ::
  "bool \<Rightarrow> (string \<Rightarrow> ('w, 'w AttestorClient, dlc_error) io) \<Rightarrow> string list \<Rightarrow> 'w \<Rightarrow> (('w attestor_map, 'e) outcome \<times> 'w) option" where
  "generate_attestor_client chk new_client attestor_urls = add_attestors chk new_client attestor_urls []"

definition get_chain_from_attestors ::
  "web_ext \<Rightarrow> dlc_ext \<Rightarrow> (nat \<Rightarrow> nat list) \<Rightarrow> 'w attestor_map \<Rightarrow> string \<Rightarrow> ('w, string, string) io" where
  "get_chain_from_attestors e D order attestors uuid =
     and_then (map_io (\<lambda>(_, v). handle (get_chain e D v uuid) (\<lambda>chain. ret (Some chain)) (\<lambda>_. ret None))
        (in_order order attestors)) (\<lambda>chains.
     case chains of
       [] \<Rightarrow> throw ''Chains from attestors are not all the same.''
     | c # _ \<Rightarrow>
         if \<not> (\<forall>d \<in> set chains. d = c) then throw ''Chains from attestors are not all the same.''
         else (case c of
             Some chain \<Rightarrow> ret (jprint e (JStr chain))
           | None \<Rightarrow> throw ''Failed to get chain from attestors''))"

section \<open>Offers\<close>

record OfferRequest =
  of_uuid :: string
  of_accept_collateral :: u64
  of_offer_collateral :: u64
  of_total_outcomes :: u64
  of_refund_delay :: u32
  of_btc_fee_recipient :: string
  of_btc_fee_basis_points :: u64

definition offer_request_of_json :: "json \<Rightarrow> OfferRequest option" where
  "offer_request_of_json j =
     (let u64_field = (\<lambda>k. map_option (word_of_int :: int \<Rightarrow> u64) (req_int 0 u64_max j k)) in
      case (req_str j ''uuid'', u64_field ''acceptCollateral'', u64_field ''offerCollateral'', u64_field ''totalOutcomes'',
          req_int 0 u32_max j ''refundDelay'', req_str j ''btcFeeRecipient'', u64_field ''btcFeeBasisPoints'') of
        (Some uuid, Some ac, Some oc, Some t, Some rd, Some fr, Some bp) \<Rightarrow>
          Some \<lparr>of_uuid = uuid, of_accept_collateral = ac, of_offer_collateral = oc, of_total_outcomes = t,
            of_refund_delay = word_of_int rd, of_btc_fee_recipient = fr, of_btc_fee_basis_points = bp\<rparr>
      | _ \<Rightarrow> None)"

definition adjusted_refund_delay :: "u32 \<Rightarrow> u32" where
  "adjusted_refund_delay refund_delay =
     (if refund_delay = 0 then TEN_DAYS else if TEN_DAYS \<le> refund_delay then TEN_DAYS else refund_delay)"

text \<open>The contract handed to the manager: one contract info, all attestors, all of them required.\<close>

definition offer_input ::
  "(nat \<Rightarrow> nat list) \<Rightarrow> 'w attestor_map \<Rightarrow> string \<Rightarrow> string \<Rightarrow> u64 \<Rightarrow> u64 \<Rightarrow> numerical_descriptor \<Rightarrow> contract_input" where
  "offer_input order attestors network event_id accept_collateral offer_collateral descriptor =
     (let public_keys = map fst (in_order order attestors);
          contract_info = \<lparr>cii_oracles = \<lparr>oi_public_keys = public_keys, oi_event_id = event_id,
              oi_threshold = of_nat (length attestors)\<rparr>, cii_contract_descriptor = Numerical descriptor\<rparr>;
          fee_rate = (if network = ''regtest'' then 1 else 400)
      in \<lparr>cin_offer_collateral = offer_collateral, cin_accept_collateral = accept_collateral,
          cin_fee_rate = fee_rate, cin_contract_infos = [contract_info]\<rparr>)"

definition create_new_offer ::
  "bool \<Rightarrow> payout_ext \<Rightarrow> dlc_ext \<Rightarrow> 'w router_ext \<Rightarrow> 'w Router \<Rightarrow> 'w attestor_map \<Rightarrow> OfferRequest \<Rightarrow> ('w, string, string) io" where
  "create_new_offer chk px D x rt attestors q =
     and_then (of_outcome (outcome_map_err (\<lambda>t. ''Unknown Network in offer creation: '' @ t)
        (rx_network_from_str x (rt_active_network rt)))) (\<lambda>active_network.
     and_then (of_outcome (outcome_map_err (dlc_error_text D)
        (get_numerical_contract_info chk px (of_accept_collateral q) (of_offer_collateral q) (of_total_outcomes q)
          (length attestors)))) (\<lambda>(_, descriptor).
     let contract_input = offer_input (rt_order rt) attestors active_network (of_uuid q) (of_accept_collateral q)
           (of_offer_collateral q) descriptor;
         fee_address_string = (if 0 < of_btc_fee_basis_points q then of_btc_fee_recipient q
           else ''bcrt1qvgkz8m4m73kly4xhm28pcnv46n6u045lfq9ta3'')
     in and_then (of_outcome (outcome_map_err (\<lambda>t. ''Error parsing fee address: '' @ t)
          (rx_address_from_str x fee_address_string))) (\<lambda>fee_address.
        and_then (of_outcome (expect (rx_node_id x STATIC_COUNTERPARTY_NODE_ID))) (\<lambda>counter_party.
        and_then (map_err (dlc_error_text D)
          (send_offer (rt_manager rt) contract_input counter_party (adjusted_refund_delay (of_refund_delay q))
             (of_btc_fee_basis_points q) fee_address)) (\<lambda>offer.
        of_outcome (rx_offer_json x offer))))))"

definition accept_offer :: "dlc_ext \<Rightarrow> 'w router_ext \<Rightarrow> 'w Router \<Rightarrow> accept_dlc \<Rightarrow> ('w, string, string) io" where
  "accept_offer D x rt accept_msg =
     and_then (of_outcome (expect (rx_node_id x STATIC_COUNTERPARTY_NODE_ID))) (\<lambda>counter_party.
     and_then (map_err (dlc_error_text D) (on_dlc_message D (rt_manager rt) (AcceptMsg accept_msg) counter_party)) (\<lambda>dlc.
     case dlc of
       Some (SignMsg sign) \<Rightarrow> of_outcome (rx_sign_json x sign)
     | _ \<Rightarrow> throw ''Error: invalid Sign message for accept_offer function''))"

section \<open>Responses\<close>

definition build_success_response :: "string \<Rightarrow> http_response" where
  "build_success_response message = respond 200 message"

definition build_error_response :: "web_ext \<Rightarrow> string \<Rightarrow> http_response" where
  "build_error_response e message = respond 400 (jprint e (json_canon
     (JObj [(''status'', JNum 400),
       (''errors'', JArr [JObj [(''message'', JStr message), (''code'', JNull)]])])))"

text \<open>\<open>match result.await\<close>: the answer of a route.\<close>

definition answer_with :: "web_ext \<Rightarrow> (string \<Rightarrow> string) \<Rightarrow> ('w, string, string) io \<Rightarrow> ('w, http_response, string) io" where
  "answer_with e error_text m =
     handle m (\<lambda>message. ret (build_success_response message)) (\<lambda>x. ret (build_error_response e (error_text x)))"

section \<open>The list of contracts\<close>

text \<open>The state names in the order they are set, each with the slot its contracts are collected in.\<close>

fun info_slot :: "dlc_contract \<Rightarrow> nat" where
  "info_slot (Offered _) = 0"
| "info_slot (Accepted _) = 1"
| "info_slot (Confirmed _) = 2"
| "info_slot (Signed _) = 3"
| "info_slot (Closed _) = 4"
| "info_slot (Refunded _) = 5"
| "info_slot (FailedAccept _) = 6"
| "info_slot (FailedSign _) = 6"
| "info_slot (Rejected _) = 7"
| "info_slot (PreClosed _) = 8"

definition collect_contracts :: "dlc_ext \<Rightarrow> dlc_contract list \<Rightarrow> string list list" where
  "collect_contracts D cs =
     foldl (\<lambda>slots c. slots[info_slot c := slots ! info_slot c @ [hex_str (get_id D c)]]) (replicate 9 []) cs"

definition info_names :: "string list" where
  "info_names = [''Offered'', ''Accepted'', ''Confirmed'', ''Signed'', ''Closed'', ''Refunded'', ''Failed'',
     ''Rejected'', ''PreClosed'']"

definition contracts_info :: "string list list \<Rightarrow> json" where
  "contracts_info slots =
     JObj (foldl (\<lambda>kvs (k, ids). obj_put k (JArr (map JStr ids)) kvs) [] (zip info_names slots))"

definition get_wallet_info :: "web_ext \<Rightarrow> dlc_ext \<Rightarrow> 'w router_ext \<Rightarrow> 'w Router \<Rightarrow> ('w, http_response, string) io" where
  "get_wallet_info e D x rt =
     handle (as_get_contracts (rt_store rt))
       (\<lambda>contracts.
          let contracts_json = contracts_info (collect_contracts D contracts);
              wallet_json = JObj [(''address'', JStr (rx_address_text x (rt_wallet_address rt)))];
              info_response = JObj (obj_put ''contracts'' contracts_json (obj_put ''wallet'' wallet_json []))
          in ret (respond 200 (jprint e info_response)))
       (\<lambda>err. ret (build_error_response e (dlc_error_text D err)))"

section \<open>The periodic check\<close>

text \<open>What a moved contract makes the router tell the blockchain interface.\<close>

datatype notice = Funded string bytes | PostClose string bytes

definition notice_of :: "dlc_ext \<Rightarrow> string \<Rightarrow> dlc_contract \<Rightarrow> notice option" where
  "notice_of D uuid contract = (case contract of
       Confirmed c \<Rightarrow> Some (Funded uuid (txid D (ac_fund (sc_accepted_contract c))))
     | PreClosed c \<Rightarrow> Some (PostClose uuid (txid D (pc_signed_cet c)))
     | _ \<Rightarrow> None)"

definition moved_notice :: "dlc_ext \<Rightarrow> 'w Router \<Rightarrow> bytes \<times> string \<Rightarrow> ('w, notice option, string) io" where
  "moved_notice D rt moved =
     handle (as_get_contract (rt_store rt) (fst moved))
       (\<lambda>found. ret (Option.bind found (notice_of D (snd moved))))
       (\<lambda>_. ret None)"

fun is_funded :: "notice \<Rightarrow> bool" where
  "is_funded (Funded _ _) = True"
| "is_funded (PostClose _ _) = False"

fun notice_data :: "notice \<Rightarrow> string \<times> bytes" where
  "notice_data (Funded uuid tx_id) = (uuid, tx_id)"
| "notice_data (PostClose uuid tx_id) = (uuid, tx_id)"

definition post_notice ::
  "web_ext \<Rightarrow> dlc_ext \<Rightarrow> 'w router_ext \<Rightarrow> 'w Router \<Rightarrow> 'w attestor_map \<Rightarrow> string \<Rightarrow> notice \<Rightarrow> ('w, unit, string) io" where
  "post_notice e D x rt attestors url n =
     (case notice_data n of (uuid, tx_id) \<Rightarrow>
        and_then (get_chain_from_attestors e D (rt_order rt) attestors uuid) (\<lambda>chain.
        map_err rqe_text (rx_post_json x url (json_canon (JObj [(''uuid'', JStr uuid),
          (''btcTxId'', JStr (rx_txid_text x tx_id)), (''chain'', JStr chain)])))))"

definition router_periodic_check ::
  "web_ext \<Rightarrow> dlc_ext \<Rightarrow> 'w router_ext \<Rightarrow> 'w Router \<Rightarrow> ('w, string, string) io" where
  "router_periodic_check e D x rt =
     (let funded_url = rt_blockchain_interface_url rt @ ''/set-status-funded'';
          closed_url = rt_blockchain_interface_url rt @ ''/post-close-dlc''
      in case rt_attestors rt of
           None \<Rightarrow> throw ''No attestors from manager''
         | Some attestors \<Rightarrow>
             and_then (handle (periodic_check D (rt_manager rt)) ret (\<lambda>_. ret [])) (\<lambda>updated_contracts.
             and_then (map_io (moved_notice D rt) updated_contracts) (\<lambda>found.
             let notices = List.map_filter (\<lambda>n. n) found;
                 newly_confirmed_uuids = filter is_funded notices;
                 newly_closed_uuids = filter (\<lambda>n. \<not> is_funded n) notices
             in and_then (map_io (post_notice e D x rt attestors funded_url) newly_confirmed_uuids) (\<lambda>_.
                and_then (map_io (post_notice e D x rt attestors closed_url) newly_closed_uuids) (\<lambda>_.
                ret ''Success running periodic check'')))))"

section \<open>Routes\<close>

text \<open>\<open>str::trim_start_matches\<close>: the prefix is removed as often as it is there.\<close>

function trim_start_matches :: "string \<Rightarrow> string \<Rightarrow> string" where
  "trim_start_matches s p =
     (if p \<noteq> [] \<and> starts_with s p then trim_start_matches (drop (length p) s) p else s)"
  by pat_completeness auto

termination
proof (relation "measure (length \<circ> fst)")
  fix s p :: string
  assume "p \<noteq> [] \<and> starts_with s p"
  then have "s \<noteq> []" "p \<noteq> []" by (auto simp: starts_with_def)
  then show "((drop (length p) s, p), s, p) \<in> measure (length \<circ> fst)" by simp
qed simp

declare trim_start_matches.simps [simp del]

definition offer_route ::
  "bool \<Rightarrow> payout_ext \<Rightarrow> web_ext \<Rightarrow> dlc_ext \<Rightarrow> 'w router_ext \<Rightarrow> 'w Router \<Rightarrow> http_request \<Rightarrow> ('w, string, string) io" where
  "offer_route chk px e D x rt req =
     and_then (of_outcome (ok_or (rt_attestors rt) ''No attestors from Manager'')) (\<lambda>attestors.
     and_then (of_outcome (ok_or (rq_body req) (''Error aggregating body: '' @ display_error e ''body''))) (\<lambda>whole_body.
     and_then (of_outcome (ok_or (Option.bind (jparse e whole_body) offer_request_of_json)
        (''Error parsing http input to create Offer endpoint: '' @ display_error e ''json''))) (\<lambda>q.
     create_new_offer chk px D x rt attestors q)))"

definition accept_route ::
  "web_ext \<Rightarrow> dlc_ext \<Rightarrow> 'w router_ext \<Rightarrow> 'w Router \<Rightarrow> http_request \<Rightarrow> ('w, string, string) io" where
  "accept_route e D x rt req =
     and_then (of_outcome (ok_or (rq_body req) (display_error e ''body''))) (\<lambda>whole_body.
     and_then (of_outcome (ok_or (Option.bind (jparse e whole_body) (\<lambda>j. req_str j ''acceptMessage''))
        (display_error e ''json''))) (\<lambda>accept_message.
     and_then (of_outcome (rx_accept_of_json x accept_message)) (\<lambda>accept_dlc.
     accept_offer D x rt accept_dlc)))"

definition chain_route ::
  "web_ext \<Rightarrow> dlc_ext \<Rightarrow> 'w Router \<Rightarrow> string \<Rightarrow> ('w, string, string) io" where
  "chain_route e D rt path =
     (let event_id = trim_start_matches path ''/get_chain/'' in
      and_then (of_outcome (ok_or (rt_attestors rt) (wallet_error ''No attestors from Manager''))) (\<lambda>attestors.
      get_chain_from_attestors e D (rt_order rt) attestors event_id))"

definition process_request ::
  "bool \<Rightarrow> payout_ext \<Rightarrow> web_ext \<Rightarrow> dlc_ext \<Rightarrow> 'w router_ext \<Rightarrow> 'w Router \<Rightarrow> http_request \<Rightarrow> ('w, http_response, string) io" where
  "process_request chk px e D x rt req =
     (let meth = rq_method req; path = rq_path req in
      if meth = GET \<and> path = ''/health'' then
        ret (build_success_response (jprint e (json_canon
          (JObj [(''data'', JArr [JObj [(''status'', JStr ''healthy''), (''message'', JStr [])]])]))))
      else if meth = GET \<and> path = ''/info'' then get_wallet_info e D x rt
      else if meth = GET \<and> starts_with path ''/get_chain/'' then
        answer_with e (\<lambda>t. t) (chain_route e D rt path)
      else if meth = GET \<and> path = ''/periodic_check'' then
        answer_with e (\<lambda>t. t) (and_then (router_periodic_check e D x rt) (\<lambda>_. ret ''Periodic check complete''))
      else if meth = OPTIONS \<and> path = ''/offer'' then ret (build_success_response [])
      else if meth = POST \<and> path = ''/offer'' then answer_with e wallet_error (offer_route chk px e D x rt req)
      else if meth = OPTIONS \<and> path = ''/offer/accept'' then ret (build_success_response [])
      else if meth = PUT \<and> path = ''/offer/accept'' then answer_with e (\<lambda>t. t) (accept_route e D x rt req)
      else ret (respond 404 ''Not Found''))"

section \<open>Start-up\<close>

text \<open>
  What \<open>main\<close> reads and builds before it serves: the environment, the libraries' constructors,
  and the parts of the manager that are fields of \<open>Manager\<close>.
\<close>

record 'w start_ext =
  se_env :: "string \<Rightarrow> string option"
  se_fingerprint :: "bytes \<Rightarrow> string"
  se_static_address :: "bytes \<Rightarrow> (nat \<times> bool) list \<Rightarrow> string \<Rightarrow> bytes option"
  se_pubkey_text :: "bytes \<Rightarrow> string"
  se_store :: "string \<Rightarrow> bytes \<Rightarrow> string \<Rightarrow> 'w async_storage"
  se_blockchain :: "string \<Rightarrow> string \<Rightarrow> 'w async_blockchain"
  se_get_height :: "string \<Rightarrow> ('w, u32, string) io"
  se_import_address :: "bytes \<Rightarrow> string \<Rightarrow> ('w, unit, dlc_error) io"
  se_updater :: "'w contract_updater"
  se_http_get_json :: "string \<Rightarrow> ('w, json, string) io"
  se_client_builder :: "(string \<Rightarrow> ('w, reply, reqwest_error) io) option"
  se_order :: "nat \<Rightarrow> nat list"

definition setup_wallets ::
  "oracle_ext \<Rightarrow> 'w start_ext \<Rightarrow> bytes \<Rightarrow> string \<Rightarrow> (string \<times> bytes \<times> bytes, string) outcome" where
  "setup_wallets X sx xpriv active_network =
     outcome_bind (expect (path_from_str X ''m/44h/0h/0h/0'')) (\<lambda>external_derivation_path.
     outcome_bind (expect (se_static_address sx xpriv (external_derivation_path @ [(0, False)]) active_network)) (\<lambda>static_address.
     outcome_bind (expect (derive_priv X xpriv (external_derivation_path @ [(0, False), (0, False)]))) (\<lambda>seckey_ext.
     Ok (se_pubkey_text sx seckey_ext, static_address, seckey_ext))))"

definition bitcoin_network :: "string option \<Rightarrow> (string, 'e) outcome" where
  "bitcoin_network name = (case name of
       Some n \<Rightarrow> if n \<in> set [''bitcoin'', ''testnet'', ''signet'', ''regtest''] then Ok n else Panic
     | None \<Rightarrow> Panic)"

record start_config =
  st_blockchain_interface_url :: string
  st_xpriv :: bytes
  st_storage_api_url :: string
  st_electrs_host :: string
  st_active_network :: string

definition fingerprint_mismatch :: string where
  "fingerprint_mismatch = ''Fingerprint does not match xpriv fingerprint! Please make sure you have the correct xpriv and fingerprint set in your env variables''
     @ [CHR 0x0A, CHR 0x0A] @ ''Exiting...''"

definition read_config :: "oracle_ext \<Rightarrow> 'w start_ext \<Rightarrow> (start_config, string) outcome" where
  "read_config X sx =
     outcome_bind (expect (se_env sx ''BLOCKCHAIN_INTERFACE_URL'')) (\<lambda>blockchain_interface_url.
     outcome_bind (expect (se_env sx ''XPRIV'')) (\<lambda>xpriv_str.
     outcome_bind (expect (xpriv_from_str X xpriv_str)) (\<lambda>xpriv.
     outcome_bind (expect (se_env sx ''FINGERPRINT'')) (\<lambda>fingerprint.
     outcome_bind (if fingerprint \<noteq> se_fingerprint sx xpriv
        then Err fingerprint_mismatch else Ok ()) (\<lambda>_.
     outcome_bind (expect (se_env sx ''STORAGE_API_ENDPOINT'')) (\<lambda>storage_api_url.
     outcome_bind (expect (se_env sx ''ELECTRUM_API_URL'')) (\<lambda>electrs_host.
     outcome_bind (bitcoin_network (se_env sx ''BITCOIN_NETWORK'')) (\<lambda>active_network.
     Ok \<lparr>st_blockchain_interface_url = blockchain_interface_url, st_xpriv = xpriv,
       st_storage_api_url = storage_api_url, st_electrs_host = electrs_host, st_active_network = active_network\<rparr>))))))))"

text \<open>An attempt that gave up is a panic of \<open>main\<close>; \<open>None\<close> when it never gives up and never succeeds.\<close>

definition or_panic :: "(('a, 'f) outcome \<times> 'w) option \<Rightarrow> ('a \<Rightarrow> 'w \<Rightarrow> (('b, 'e) outcome \<times> 'w) option) \<Rightarrow>
    (('b, 'e) outcome \<times> 'w) option" where
  "or_panic m f = Option.bind m (\<lambda>(r, w). case r of Ok a \<Rightarrow> f a w | _ \<Rightarrow> Some (Panic, w))"

definition router_start ::
  "bool \<Rightarrow> web_ext \<Rightarrow> dlc_ext \<Rightarrow> oracle_ext \<Rightarrow> 'w router_ext \<Rightarrow> 'w start_ext \<Rightarrow> 'w \<Rightarrow> (('w Router, string) outcome \<times> 'w) option" where
  "router_start chk e D X x sx w =
     (case read_config X sx of
        Err t \<Rightarrow> Some (Err t, w)
      | Panic \<Rightarrow> Some (Panic, w)
      | Ok c \<Rightarrow>
     (case setup_wallets X sx (st_xpriv c) (st_active_network c) of
        Ok (pubkey, static_address, secret_key) \<Rightarrow>
          or_panic (retry chk (get_attestors e x (st_blockchain_interface_url c)) 0 w) (\<lambda>attestor_urls w.
          or_panic (generate_attestor_client chk (attestor_client_new X (se_client_builder sx)) attestor_urls w
              :: (('w attestor_map, string) outcome \<times> 'w) option) (\<lambda>attestors w.
          or_panic (retry chk (se_get_height sx (st_electrs_host c)) 0 w) (\<lambda>height w.
          let dlc_store = se_store sx pubkey secret_key (st_storage_api_url c);
              manager = \<lparr>mg_oracles = Some (\<lambda>k. map_option (client_oracle e D X) (map_of attestors k)),
                mg_store = dlc_store, mg_blockchain = se_blockchain sx (st_electrs_host c) (st_active_network c),
                mg_import_address = se_import_address sx, mg_updater = se_updater sx,
                mg_http_get_json = se_http_get_json sx\<rparr>
          in Some (Ok \<lparr>rt_manager = manager, rt_attestors = Some attestors, rt_order = se_order sx, rt_store = dlc_store,
                rt_wallet_address = static_address, rt_active_network = st_active_network c,
                rt_blockchain_interface_url = st_blockchain_interface_url c\<rparr>, w))))
      | _ \<Rightarrow> Some (Panic, w)))"

end
