(* ===== verification/Live_Manager.thy ===== *)
theory Live_Manager
  imports Live_Store Dlc_Linked
begin

text \<open>
  The manager when nothing goes wrong: over a contract store that answers, and with a library,
  chain and wallet that succeed, taking and accepting an offer and taking a sign message succeed.
  The locale \<open>live_manager\<close> joins the contracts \<open>dlc_manager\<close> and \<open>live_store\<close>; the manager on the
  linked storage service is interpreted as one.
\<close>

section \<open>Calls that succeed\<close>

definition succeeds :: "('w, 'a, 'e) io \<Rightarrow> ('a \<Rightarrow> bool) \<Rightarrow> bool" where
  "succeeds m P \<longleftrightarrow> (\<forall>w. \<exists>a w'. m w = (Ok a, w') \<and> P a)"

lemma succeeds_wp: "succeeds m P \<Longrightarrow> wp m (\<lambda>r _. \<exists>a. r = Ok a \<and> P a) w"
  unfolding succeeds_def wp_def by (metis fst_conv)

lemma succeeds_lift: "succeeds m P \<Longrightarrow> succeeds (lift_snd m) P"
  unfolding succeeds_def lift_snd_def on_part_def by (auto split: prod.split) (metis prod.inject)

definition library_accepts :: "'w Manager \<Rightarrow> (dlc_contract \<Rightarrow> bool) \<Rightarrow> offer_dlc \<Rightarrow> bytes \<Rightarrow> offered_contract \<Rightarrow>
    (accepted_contract \<Rightarrow> accept_dlc \<Rightarrow> bool) \<Rightarrow> bool" where
  "library_accepts M ok o' cp oc P \<longleftrightarrow> (let U = mg_updater M in
     cu_validate_offer U o' 0 FIFTY_YEARS = Ok () \<and> cu_try_from_offer_dlc U o' cp = Ok oc \<and> cu_validate_offered U oc = Ok ()
     \<and> ok (Offered oc) \<and> succeeds (cu_accept_contract U oc) (\<lambda>(ac, am). ok (Accepted ac) \<and> P ac am)
     \<and> succeeds (bc_get_network (mg_blockchain M)) (\<lambda>_. True) \<and> (\<forall>s n. succeeds (mg_import_address M s n) (\<lambda>_. True)))"

definition library_signs ::
  "'w Manager \<Rightarrow> (dlc_contract \<Rightarrow> bool) \<Rightarrow> offered_contract \<Rightarrow> accept_dlc \<Rightarrow> (signed_contract \<Rightarrow> sign_dlc \<Rightarrow> bool) \<Rightarrow> bool" where
  "library_signs M ok oc am Q \<longleftrightarrow>
     succeeds (cu_verify_accepted_and_sign (mg_updater M) oc am) (\<lambda>(sc, sm). ok (Signed sc) \<and> Q sc sm)
     \<and> succeeds (bc_get_network (mg_blockchain M)) (\<lambda>_. True) \<and> (\<forall>s n. succeeds (mg_import_address M s n) (\<lambda>_. True))"

definition library_verifies :: "'w Manager \<Rightarrow> (dlc_contract \<Rightarrow> bool) \<Rightarrow> accepted_contract \<Rightarrow> sign_dlc \<Rightarrow> bool" where
  "library_verifies M ok ac sm \<longleftrightarrow>
     succeeds (cu_verify_signed (mg_updater M) ac sm) (\<lambda>(sc, tx). ok (Signed sc))
     \<and> (\<forall>tx. succeeds (bc_send_transaction (mg_blockchain M) tx) (\<lambda>_. True))"

section \<open>A manager over a store that answers\<close>

locale live_manager = dlc_manager D M view inv + live_store D "mg_store M" view inv calm_for storable
  for D :: dlc_ext and M :: "'w Manager" and view :: "'w \<Rightarrow> bytes \<Rightarrow> dlc_contract option" and inv :: "'w \<Rightarrow> bool"
    and calm_for :: "nat \<Rightarrow> 'w \<Rightarrow> bool" and storable :: "dlc_contract \<Rightarrow> bool" +
  assumes calm_surroundings: "surroundings_ok (\<lambda>_. ()) (calm_for n) M"
begin

lemma calm_order: "reflp (frame (\<lambda>_. ()) (calm_for n))" "transp (frame (\<lambda>_. ()) (calm_for n))"
  by (rule frame_order)+

end

text \<open>Calm is kept by every part of an operation that does not use the store.\<close>

sublocale live_manager \<subseteq> calm_out: surroundings_relation "frame (\<lambda>_. ()) (calm_for n)" M for n
  by unfold_locales (rule calm_order calm_surroundings)+

context live_manager begin

lemmas calm_calls = calm_out.calls_move

text \<open>A call outside the store that succeeds leaves store and calm as they were.\<close>

lemma outside_run:
  assumes "moves same m" "moves (frame (\<lambda>_. ()) (calm_for n)) m" "succeeds m P" "inv w" "calm_for n w"
  obtains a w' where "m w = (Ok a, w')" "P a" "inv w'" "view w' = view w" "calm_for n w'"
proof -
  obtain a w' where run: "m w = (Ok a, w')" "P a" using assms(3) unfolding succeeds_def by blast
  have "frame view inv w w'" "frame (\<lambda>_. ()) (calm_for n) w w'"
    using movesD [OF assms(1) run(1)] movesD [OF assms(2) run(1)] by auto
  with that run assms(4,5) show thesis by (simp add: frame_def)
qed

lemma get_run:
  assumes "inv w" "calm_for n w"
  obtains w' where "as_get_contract (mg_store M) i w = (Ok (view w i), w')" "inv w'" "view w' = view w" "calm_for n w'"
proof -
  obtain r w' where run: "as_get_contract (mg_store M) i w = (r, w')" by (rule prod.exhaust)
  with wp_run [OF get_law [OF assms(1)] run] wp_run [OF get_calm [OF assms] run] that show thesis
    by (cases r) auto
qed

lemma update_calm_run:
  assumes "inv w" "calm_for (Suc n) w" "storable c" "replaces c \<or> view w (get_id D c) \<noteq> None"
  obtains w' where "as_update_contract (mg_store M) c w = (Ok (), w')" "inv w'" "stored D c (view w) (view w')" "calm_for n w'"
proof -
  obtain r w' where run: "as_update_contract (mg_store M) c w = (r, w')" by (rule prod.exhaust)
  have "is_ok r" "calm_for n w'" using wp_run [OF update_calm [OF assms] run] by simp_all
  with wp_run [OF update_law [OF assms(1)] run] run that show thesis by (cases r) auto
qed

lemma offer_live:
  assumes "inv w" "calm_for (Suc n) w" "library_accepts M storable o' cp oc P" "view w (oc_id oc) = None"
  obtains w' where "on_offer_message M o' cp w = (Ok (), w')" "inv w'" "view w' = (view w)(oc_id oc \<mapsto> Offered oc)" "calm_for n w'"
proof -
  obtain w1 where get: "as_get_contract (mg_store M) (oc_id oc) w = (Ok None, w1)" "inv w1" "view w1 = view w" "calm_for (Suc n) w1"
    by (rule get_run [OF assms(1,2), of "oc_id oc"]) (use assms(4) in simp)
  have free: "view w1 (oc_id oc) = None" "storable (Offered oc)" using assms(3,4) get(3) by (simp_all add: library_accepts_def Let_def)
  obtain r w' where create: "as_create_contract (mg_store M) oc w1 = (r, w')" by (rule prod.exhaust)
  have r: "is_ok r" "calm_for n w'" using wp_run [OF create_calm [OF get(2,4) free(2,1)] create] by simp_all
  then have "r = Ok ()" by (cases r) auto
  with wp_run [OF create_law [OF get(2)] create] get(3) r(2) that create get(1) assms(3) show thesis
    by (auto simp: on_offer_message_def library_accepts_def Let_def Ok_runs)
qed

lemma import_live:
  assumes "inv w" "calm_for n w" "succeeds (bc_get_network (mg_blockchain M)) (\<lambda>_. True)"
    "\<And>s net. succeeds (mg_import_address M s net) (\<lambda>_. True)"
  obtains w' where "import_funding_address M ac w = (Ok (), w')" "inv w'" "view w' = view w" "calm_for n w'"
proof -
  obtain net w1 where net: "bc_get_network (mg_blockchain M) w = (Ok net, w1)" "inv w1" "view w1 = view w" "calm_for n w1"
    by (rule outside_run [OF frame_calls(5) calm_calls(5) assms(3,1,2)])
  obtain u w2 where imp: "mg_import_address M (ac_funding_script_pubkey ac) net w1 = (Ok u, w2)" "inv w2" "view w2 = view w1" "calm_for n w2"
    by (rule outside_run [OF frame_calls(6) calm_calls(6) assms(4) net(2,4)])
  have "import_funding_address M ac w = (Ok (), w2)"
    using net(1) imp(1) by (simp add: import_funding_address_def and_then_def)
  with that imp(2-4) net(3) show thesis by simp
qed

lemma accept_live:
  assumes "inv w" "calm_for (Suc n) w" "library_accepts M storable o' cp oc P" "view w (oc_id oc) = Some (Offered oc)"
  obtains j p ac am w' where "accept_contract_offer D M (oc_id oc) w = (Ok (j, p, am), w')" "P ac am"
    "stored D (Accepted ac) (view w) (view w')" "inv w'" "calm_for n w'"
proof -
  have lib: "succeeds (cu_accept_contract (mg_updater M) oc) (\<lambda>(ac, am). storable (Accepted ac) \<and> P ac am)"
    "succeeds (bc_get_network (mg_blockchain M)) (\<lambda>_. True)" "\<And>s net. succeeds (mg_import_address M s net) (\<lambda>_. True)"
    using assms(3) by (simp_all add: library_accepts_def Let_def)
  obtain w1 where get: "as_get_contract (mg_store M) (oc_id oc) w = (Ok (Some (Offered oc)), w1)" "inv w1" "view w1 = view w" "calm_for (Suc n) w1"
    by (rule get_run [OF assms(1,2), of "oc_id oc"]) (use assms(4) in simp)
  obtain ac am w2 where acc: "cu_accept_contract (mg_updater M) oc w1 = (Ok (ac, am), w2)" "storable (Accepted ac)" "P ac am"
    "inv w2" "view w2 = view w1" "calm_for (Suc n) w2"
    by (rule outside_run [OF frame_calls(9) calm_calls(9) lib(1) get(2,4)]) auto
  obtain w3 where imp: "import_funding_address M ac w2 = (Ok (), w3)" "inv w3" "view w3 = view w2" "calm_for (Suc n) w3"
    by (rule import_live [OF acc(4,6) lib(2,3)])
  obtain w4 where upd: "as_update_contract (mg_store M) (Accepted ac) w3 = (Ok (), w4)" "inv w4"
    "stored D (Accepted ac) (view w3) (view w4)" "calm_for n w4"
    by (rule update_calm_run [OF imp(2,4) acc(2)]) auto
  have "accept_contract_offer D M (oc_id oc) w = (Ok (accepted_id D ac, oc_counter_party oc, am), w4)"
    using get(1) acc(1) imp(1) upd(1) by (auto simp: accept_contract_offer_def get_contract_in_state_def Ok_runs)
  moreover have "stored D (Accepted ac) (view w) (view w4)" using upd(3) imp(3) acc(5) get(3) by simp
  ultimately show thesis using that acc(3) upd(2,4) by blast
qed

text \<open>The offering side, when the acceptance comes back from the counter party.\<close>

lemma accept_message_live:
  assumes "inv w" "calm_for (Suc n) w" "library_signs M storable oc am Q" "view w (ad_temporary_contract_id am) = Some (Offered oc)"
    and "get_counter_party_id D (Offered oc) = cp"
  obtains sc sm w' where "on_accept_message D M am cp w = (Ok (SignMsg sm), w')" "Q sc sm"
    "stored D (Signed sc) (view w) (view w')" "inv w'" "calm_for n w'"
proof -
  have lib: "succeeds (cu_verify_accepted_and_sign (mg_updater M) oc am) (\<lambda>(sc, sm). storable (Signed sc) \<and> Q sc sm)"
    "succeeds (bc_get_network (mg_blockchain M)) (\<lambda>_. True)" "\<And>s net. succeeds (mg_import_address M s net) (\<lambda>_. True)"
    using assms(3) by (simp_all add: library_signs_def)
  obtain w1 where get: "as_get_contract (mg_store M) (ad_temporary_contract_id am) w = (Ok (Some (Offered oc)), w1)" "inv w1"
    "view w1 = view w" "calm_for (Suc n) w1"
    by (rule get_run [OF assms(1,2), of "ad_temporary_contract_id am"]) (use assms(4) in simp)
  obtain sc sm w2 where ver: "cu_verify_accepted_and_sign (mg_updater M) oc am w1 = (Ok (sc, sm), w2)" "storable (Signed sc)" "Q sc sm"
    "inv w2" "view w2 = view w1" "calm_for (Suc n) w2"
    by (rule outside_run [OF frame_calls(10) calm_calls(10) lib(1) get(2,4)]) auto
  obtain w3 where imp: "import_funding_address M (sc_accepted_contract sc) w2 = (Ok (), w3)" "inv w3" "view w3 = view w2" "calm_for (Suc n) w3"
    by (rule import_live [OF ver(4,6) lib(2,3)])
  obtain w4 where upd: "as_update_contract (mg_store M) (Signed sc) w3 = (Ok (), w4)" "inv w4"
    "stored D (Signed sc) (view w3) (view w4)" "calm_for n w4"
    by (rule update_calm_run [OF imp(2,4) ver(2)]) auto
  have "on_accept_message D M am cp w = (Ok (SignMsg sm), w4)"
    using get(1) ver(1) imp(1) upd(1) assms(5) by (auto simp: on_accept_message_def get_contract_in_state_def Ok_runs)
  moreover have "stored D (Signed sc) (view w) (view w4)" using upd(3) imp(3) ver(5) get(3) by simp
  ultimately show thesis using that ver(3) upd(2,4) by blast
qed

lemma sign_live:
  assumes "inv w" "calm_for (Suc n) w" "library_verifies M storable ac sm" "view w (sd_contract_id sm) = Some (Accepted ac)"
    and "get_counter_party_id D (Accepted ac) = cp"
  obtains w' where "on_sign_message D M sm cp w = (Ok (), w')" "inv w'" "calm_for n w'"
proof -
  have lib: "succeeds (cu_verify_signed (mg_updater M) ac sm) (\<lambda>(sc, tx). storable (Signed sc))"
    "\<And>tx. succeeds (bc_send_transaction (mg_blockchain M) tx) (\<lambda>_. True)"
    using assms(3) by (simp_all add: library_verifies_def)
  obtain w1 where get: "as_get_contract (mg_store M) (sd_contract_id sm) w = (Ok (Some (Accepted ac)), w1)" "inv w1" "calm_for (Suc n) w1"
    by (rule get_run [OF assms(1,2), of "sd_contract_id sm"]) (use assms(4) in simp)
  obtain sc tx w2 where ver: "cu_verify_signed (mg_updater M) ac sm w1 = (Ok (sc, tx), w2)" "storable (Signed sc)" "inv w2" "calm_for (Suc n) w2"
    by (rule outside_run [OF frame_calls(11) calm_calls(11) lib(1) get(2,3)]) auto
  obtain w3 where upd: "as_update_contract (mg_store M) (Signed sc) w2 = (Ok (), w3)" "inv w3" "calm_for n w3"
    by (rule update_calm_run [OF ver(3,4,2)]) auto
  obtain u w4 where send: "bc_send_transaction (mg_blockchain M) tx w3 = (Ok u, w4)" "inv w4" "calm_for n w4"
    by (rule outside_run [OF frame_calls(4) calm_calls(4) lib(2) upd(2,3)])
  have "on_sign_message D M sm cp w = (Ok (), w4)"
    using get(1) ver(1) upd(1) send(1) assms(5)
    by (auto simp: on_sign_message_def get_contract_in_state_def Ok_runs)
  with that send(2,3) show thesis by blast
qed

end

section \<open>The linked manager\<close>

context live_store begin

lemma lifted_live:
  "live_store D (lift_storage st) (\<lambda>w. view (fst w)) (\<lambda>w. inv (fst w) \<and> P) (\<lambda>n w. calm_for n (fst w)) storable"
proof (intro live_store.intro lifted live_store_axioms.intro)
  fix n i c oc and w :: "'w \<times> 'o"
  show "calm_for (Suc n) (fst w) \<Longrightarrow> calm_for n (fst w)" by (rule calm_fewer)
  assume "inv (fst w) \<and> P"
  then have inv: "inv (fst w)" by simp
  show "wp (as_get_contract (lift_storage st) i) (\<lambda>r w'. is_ok r \<and> calm_for n (fst w')) w" if "calm_for n (fst w)"
    using get_calm [OF inv that] by (simp add: wp_lift)
  show "wp (as_create_contract (lift_storage st) oc) (\<lambda>r w'. is_ok r \<and> calm_for n (fst w')) w"
    if "calm_for (Suc n) (fst w)" "storable (Offered oc)" "view (fst w) (oc_id oc) = None"
    using create_calm [OF inv that] by (simp add: wp_lift)
  show "wp (as_update_contract (lift_storage st) c) (\<lambda>r w'. is_ok r \<and> calm_for n (fst w')) w"
    if "calm_for (Suc n) (fst w)" "storable c" "replaces c \<or> view (fst w) (get_id D c) \<noteq> None"
    using update_calm [OF inv that] by (simp add: wp_lift)
  show "wp (as_get_signed_contracts (lift_storage st)) (\<lambda>r w'. is_ok r \<and> calm_for n (fst w')) w" if "calm_for n (fst w)"
    using signed_calm [OF inv that] by (simp add: wp_lift)
qed

end

lemma calm_link_surroundings: "surroundings_ok (\<lambda>_. ()) (\<lambda>w. I (fst w)) (link_manager st N)"
  by (auto simp: surroundings_move_def link_manager_def lift_oracle_def lift_blockchain_def lift_updater_def
      Let_def moves_def frame_def lift_snd_def on_part_def split: prod.split)

interpretation live_linked: live_manager D "stack_manager e D host key sk N" "\<lambda>w. store_view e D key (fst w)"
    "\<lambda>w. store_inv e D key (fst w) \<and> updater_ok (mg_updater N)" "\<lambda>n w. calm n (fst w)" "encodes e D"
  for e D host key sk and N :: "'o Manager"
proof (intro live_manager.intro linked.dlc_manager_axioms live_manager_axioms.intro calm_link_surroundings)
  have "mg_store (stack_manager e D host key sk N) = lift_storage (provider_storage e D (link_provider e host key sk))"
    by (simp add: link_manager_def)
  then show "live_store D (mg_store (stack_manager e D host key sk N)) (\<lambda>w. store_view e D key (fst w))
      (\<lambda>w. store_inv e D key (fst w) \<and> updater_ok (mg_updater N)) (\<lambda>n w. calm n (fst w)) (encodes e D)"
    using live_provider.lifted_live by simp
qed

lemma library_lift:
  "library_accepts N ok o' cp oc P \<Longrightarrow> library_accepts (link_manager st N) ok o' cp oc P"
  "library_verifies N ok ac sm \<Longrightarrow> library_verifies (link_manager st N) ok ac sm"
  "library_signs N ok oc am Q \<Longrightarrow> library_signs (link_manager st N) ok oc am Q"
  by (simp_all add: library_accepts_def library_verifies_def library_signs_def link_manager_def lift_updater_def lift_blockchain_def
      Let_def succeeds_lift)

end
