(* ===== verification/Router_Props.thy ===== *)
theory Router_Props
  imports Router_Wallet Dlc_Props Live_Manager
begin

text \<open>
  Properties of the router wallet: when its retries end, what an offer it makes asks of the
  manager, and what the chain it reports means.
\<close>

section \<open>Retries\<close>

text \<open>The world after \<open>n\<close> attempts, and whether the next attempt fails.\<close>

definition after_attempts :: "('w, 'a, 'e) io \<Rightarrow> nat \<Rightarrow> 'w \<Rightarrow> 'w" where
  "after_attempts m n = (\<lambda>w. snd (m w)) ^^ n"

definition attempt_fails :: "('w, 'a, 'e) io \<Rightarrow> nat \<Rightarrow> 'w \<Rightarrow> bool" where
  "attempt_fails m n w \<longleftrightarrow> (\<exists>x. fst (m (after_attempts m n w)) = Err x)"

lemma after_Suc: "after_attempts m (Suc n) w = after_attempts m n (snd (m w))"
  by (simp add: after_attempts_def funpow_Suc_right del: funpow.simps)

lemma attempt_Suc: "attempt_fails m (Suc n) w = attempt_fails m n (snd (m w))"
  by (simp add: attempt_fails_def after_Suc)

lemma attempt_0: "attempt_fails m 0 w \<longleftrightarrow> (\<exists>x w'. m w = (Err x, w'))"
  by (cases "m w") (auto simp: attempt_fails_def after_attempts_def)

lemma attempt_after: "attempt_fails m n w \<longleftrightarrow> attempt_fails m 0 (after_attempts m n w)"
  by (simp add: attempt_fails_def after_attempts_def)

lemma after_next: "snd (m (after_attempts m n w)) = after_attempts m (Suc n) w"
  by (simp add: after_attempts_def)

text \<open>One unfolding: the first attempt ends the loop, or fails and is counted.\<close>

lemma retry_ends: "\<not> attempt_fails m 0 w \<Longrightarrow> retry_from chk m limit c w = Some (m w)"
  unfolding attempt_0 by (subst retry_from.simps) (auto split: prod.split outcome.split)

lemma retry_fails:
  "attempt_fails m 0 w \<Longrightarrow> retry_from chk m limit c w = (case i32_succ chk c of
       None \<Rightarrow> Some (Panic, snd (m w))
     | Some c' \<Rightarrow> if 0 <s limit \<and> limit \<le>s c' then Some (m w) else retry_from chk m limit c' (snd (m w)))"
  unfolding attempt_0 by (subst retry_from.simps) (auto split: option.split)

definition goes_on :: "bool \<Rightarrow> i32 \<Rightarrow> i32 \<Rightarrow> bool" where
  "goes_on chk limit c \<longleftrightarrow> i32_succ chk c = Some (c + 1) \<and> \<not> (0 <s limit \<and> limit \<le>s c + 1)"

lemma retry_skips:
  assumes "\<forall>i < n. attempt_fails m i w" "\<forall>i < n. goes_on chk limit (c + of_nat i)"
  shows "retry_from chk m limit c w = retry_from chk m limit (c + of_nat n) (after_attempts m n w)"
  using assms
proof (induction n)
  case (Suc n)
  have f: "attempt_fails m 0 (after_attempts m n w)" and g: "goes_on chk limit (c + of_nat n)"
    using Suc.prems attempt_after [of m n w] by (blast, simp)
  have "retry_from chk m limit (c + of_nat n) (after_attempts m n w)
      = retry_from chk m limit (c + of_nat n + 1) (after_attempts m (Suc n) w)"
    using g by (simp add: retry_fails [OF f] goes_on_def after_next del: de_Morgan_conj)
  with Suc show ?case by (simp add: algebra_simps)
qed (simp add: after_attempts_def)

text \<open>How often a call is attempted at most: the limit, or what the counter of a checked build holds.\<close>

definition most_attempts :: "bool \<Rightarrow> i32 \<Rightarrow> nat option" where
  "most_attempts chk limit = (if 0 <s limit then Some (nat (sint limit)) else if chk then Some (2 ^ 31) else None)"

lemma sint_count: "k < 2 ^ 31 \<Longrightarrow> sint (of_nat k :: i32) = int k"
  by (simp add: signed_of_nat signed_take_bit_int_eq_self)

lemma limit_range: "0 <s (limit :: i32) \<Longrightarrow> 0 < sint limit \<and> sint limit < 2 ^ 31"
  using sint_lt [of limit] by (simp add: word_sless_alt)

lemma goes_on_below:
  assumes "\<And>b. most_attempts chk limit = Some b \<Longrightarrow> Suc i < b"
  shows "goes_on chk limit (0 + of_nat i)"
proof (cases "0 <s limit")
  case True
  then have "Suc i < nat (sint limit)" using assms by (simp add: most_attempts_def)
  then have i: "int (Suc i) < sint limit" by linarith
  have "sint limit < 2147483648" using limit_range [OF True] by simp
  with i have "Suc i < 2 ^ 31" by simp
  with i show ?thesis
    using sint_count [of i] sint_count [of "Suc i"] by (auto simp: goes_on_def i32_succ_def word_sle_eq add.commute)
next
  case False
  then show ?thesis
    using assms sint_count [of i] by (auto simp: goes_on_def i32_succ_def most_attempts_def)
qed

lemma retry_reaches:
  assumes "\<forall>i < n. attempt_fails m i w" "\<And>b. most_attempts chk limit = Some b \<Longrightarrow> n < b"
  shows "retry chk m limit w = retry_from chk m limit (of_nat n) (after_attempts m n w)"
  using retry_skips [OF assms(1), of chk limit 0] goes_on_below [of chk limit] assms(2)
  by (force simp: retry_def)

text \<open>Without a limit and without overflow checks the loop only ends when an attempt does not fail.\<close>

lemma retry_unlimited:
  "retry_from chk m limit c w = Some y \<Longrightarrow> most_attempts chk limit = None \<longrightarrow> (\<exists>n. \<not> attempt_fails m n w)"
proof (rule retry_from.raw_induct [where P = "\<lambda>chk m limit c w y. most_attempts chk limit = None \<longrightarrow> (\<exists>n. \<not> attempt_fails m n w)"])
  fix rec :: "bool \<Rightarrow> ('w, 'a, 'e) io \<Rightarrow> i32 \<Rightarrow> i32 \<Rightarrow> 'w \<Rightarrow> (('a, 'e) outcome \<times> 'w) option"
    and chk and m :: "('w, 'a, 'e) io" and limit c w y
  assume rec: "\<And>chk m limit c w y. rec chk m limit c w = Some y \<Longrightarrow>
        most_attempts chk limit = None \<longrightarrow> (\<exists>n. \<not> attempt_fails m n w)"
    and body: "(case m w of
        (Ok v, w') \<Rightarrow> Some (Ok v, w')
      | (Err e, w') \<Rightarrow> (case i32_succ chk c of
            None \<Rightarrow> Some (Panic, w')
          | Some c' \<Rightarrow> if 0 <s limit \<and> limit \<le>s c' then Some (Err e, w') else rec chk m limit c' w')
      | (Panic, w') \<Rightarrow> Some (Panic, w')) = Some y"
  show "most_attempts chk limit = None \<longrightarrow> (\<exists>n. \<not> attempt_fails m n w)"
  proof (cases "attempt_fails m 0 w")
    case True
    then obtain x w' where run: "m w = (Err x, w')" unfolding attempt_0 by blast
    show ?thesis
    proof
      assume none: "most_attempts chk limit = None"
      then have "rec chk m limit (c + 1) w' = Some y"
        using body run by (simp add: most_attempts_def i32_succ_def split: if_splits)
      then obtain n where "\<not> attempt_fails m n w'" using rec none by blast
      then have "\<not> attempt_fails m (Suc n) w" by (simp add: attempt_Suc run)
      then show "\<exists>n. \<not> attempt_fails m n w" ..
    qed
  qed blast
qed

text \<open>The first attempt that does not answer an error: a success, or a panic of the call itself.\<close>

definition settles :: "('w, 'a, 'e) io \<Rightarrow> nat \<Rightarrow> 'w \<Rightarrow> bool" where
  "settles m n w \<longleftrightarrow> \<not> attempt_fails m n w \<and> (\<forall>i < n. attempt_fails m i w)"

lemma settles_exists: "\<not> attempt_fails m k w \<Longrightarrow> \<exists>n \<le> k. settles m n w"
proof (induction k rule: less_induct)
  case (less k)
  show ?case
  proof (cases "\<exists>i < k. \<not> attempt_fails m i w")
    case True
    then show ?thesis using less.IH by (meson le_trans less_imp_le)
  qed (use less.prems in \<open>auto simp: settles_def\<close>)
qed

lemma retry_settles:
  assumes "settles m n w" "\<And>b. most_attempts chk limit = Some b \<Longrightarrow> n < b"
  shows "retry chk m limit w = Some (m (after_attempts m n w))"
  using assms retry_reaches [of n m w chk limit] retry_ends [of m "after_attempts m n w"]
  by (simp add: settles_def attempt_after [of m n])

lemma retry_exhausted:
  assumes "most_attempts chk limit = Some b" "\<forall>i < b. attempt_fails m i w"
  shows "retry chk m limit w
    = Some (if 0 <s limit then m (after_attempts m (b - 1) w) else (Panic, after_attempts m b w))"
proof -
  have b: "0 < b" using assms(1) limit_range [of limit] by (auto simp: most_attempts_def split: if_splits)
  define k where "k = b - 1"
  have "b \<le> 2 ^ 31" using assms(1) limit_range [of limit] by (auto simp: most_attempts_def split: if_splits)
  then have k: "Suc k = b" "k < b" "k < 2 ^ 31" using b by (simp_all add: k_def)
  have f: "attempt_fails m 0 (after_attempts m k w)" using assms(2) k(2) attempt_after [of m k w] by blast
  have "retry chk m limit w = retry_from chk m limit (of_nat k) (after_attempts m k w)"
    by (rule retry_reaches) (use assms k(2) in auto)
  also have "\<dots> = Some (if 0 <s limit then m (after_attempts m k w) else (Panic, after_attempts m b w))"
  proof (cases "0 <s limit")
    case True
    then have "Suc k = nat (sint limit)" using assms(1) k(1) by (simp add: most_attempts_def)
    then have "int (Suc k) = sint limit" "int (Suc k) < 2147483648" using limit_range [OF True] by simp_all
    then have "sint (of_nat k + 1 :: i32) = sint limit" "int k \<noteq> 2 ^ 31 - 1"
      using sint_count [of "Suc k"] by (simp_all add: add.commute)
    with True show ?thesis
      using k(3) retry_fails [OF f, of chk limit "of_nat k"] sint_count [of k]
      by (simp add: i32_succ_def word_sle_eq)
  next
    case False
    then have "chk" "k = 2 ^ 31 - 1" using assms(1) k(1) by (auto simp: most_attempts_def split: if_splits)
    then have "i32_succ chk (of_nat k) = None"
      using sint_count [of k] by (simp add: i32_succ_def)
    with False show ?thesis
      using retry_fails [OF f, of chk limit "of_nat k"] k(1) after_next [of m k w] by simp
  qed
  finally show ?thesis by (simp add: k_def)
qed

text \<open>
  C33. A retried call returns exactly when its attempts are bounded, by a positive limit or by the
  counter of a build with overflow checks, or some attempt does not answer an error. It gives the
  result of the first attempt that does not (a success, or a panic of the call) when that is
  within the bound. When all attempts within the bound fail it gives the last error under a
  limit, and without one a panic: the counter overflows at the 2 to the 31st failure. Without
  a limit and without overflow checks a call that always fails is retried for ever.
\<close>

theorem retry_terminates:
  "((\<exists>y. retry chk m limit w = Some y) \<longleftrightarrow> most_attempts chk limit \<noteq> None \<or> (\<exists>n. \<not> attempt_fails m n w))
   \<and> (\<forall>n. settles m n w \<and> (\<forall>b. most_attempts chk limit = Some b \<longrightarrow> n < b) \<longrightarrow>
        retry chk m limit w = Some (m (after_attempts m n w)))
   \<and> (\<forall>b. most_attempts chk limit = Some b \<and> (\<forall>i < b. attempt_fails m i w) \<longrightarrow>
        retry chk m limit w = Some (if 0 <s limit then m (after_attempts m (b - 1) w) else (Panic, after_attempts m b w)))"
proof (intro conjI)
  have "\<exists>y. retry chk m limit w = Some y" if b: "most_attempts chk limit = Some b" for b
  proof (cases "\<exists>k < b. \<not> attempt_fails m k w")
    case True
    then obtain n where "settles m n w" "n < b" using settles_exists by (meson le_less_trans)
    with b show ?thesis using retry_settles [of m n w chk limit] by simp
  next
    case False
    then have "\<forall>i < b. attempt_fails m i w" by simp
    then show ?thesis by (intro exI, rule retry_exhausted [OF b])
  qed
  moreover have "\<exists>y. retry chk m limit w = Some y" if "most_attempts chk limit = None" "\<not> attempt_fails m n w" for n
    using settles_exists [OF that(2)] retry_settles [of m _ w chk limit] that(1) by auto
  ultimately show "(\<exists>y. retry chk m limit w = Some y) \<longleftrightarrow> most_attempts chk limit \<noteq> None \<or> (\<exists>n. \<not> attempt_fails m n w)"
    using retry_unlimited [of chk m limit 0 w] unfolding retry_def by fast
  show "\<forall>n. settles m n w \<and> (\<forall>b. most_attempts chk limit = Some b \<longrightarrow> n < b) \<longrightarrow>
        retry chk m limit w = Some (m (after_attempts m n w))"
    by (intro allI impI, elim conjE, rule retry_settles) blast+
  show "\<forall>b. most_attempts chk limit = Some b \<and> (\<forall>i < b. attempt_fails m i w) \<longrightarrow>
        retry chk m limit w = Some (if 0 <s limit then m (after_attempts m (b - 1) w) else (Panic, after_attempts m b w))"
    by (intro allI impI, elim conjE, rule retry_exhausted)
qed

theorem retry_terminates_witness:
  "retry True (\<lambda>k :: nat. (if k < 2 then Err () else Ok k, Suc k)) 6 0 = Some (Ok 2, 3)
   \<and> retry True (\<lambda>k :: nat. (Err () :: (nat, unit) outcome, Suc k)) 2 0 = Some (Err (), 2)"
proof -
  let ?m = "\<lambda>k :: nat. (if k < 2 then Err () else Ok k, Suc k)" and ?f = "\<lambda>k :: nat. (Err () :: (nat, unit) outcome, Suc k)"
  have after: "after_attempts ?m n 0 = n" "after_attempts ?f n 0 = n" for n
    by (induction n) (simp_all add: after_attempts_def)
  have "settles ?m 2 0" by (auto simp: settles_def attempt_fails_def after)
  moreover have "most_attempts True 6 = Some 6" "most_attempts True 2 = Some 2" "0 <s (2 :: i32)"
    by (simp_all add: most_attempts_def word_sless_alt)
  moreover have "\<forall>i < 2. attempt_fails ?f i 0" by (simp add: attempt_fails_def after)
  ultimately show ?thesis
    using retry_terminates [of True ?m 6 0, THEN conjunct2, THEN conjunct1, rule_format, of 2]
      retry_terminates [of True ?f 2 0, THEN conjunct2, THEN conjunct2, rule_format, of 2] by (simp add: after)
qed

section \<open>Offers\<close>

lemma mset_in_order: "order_ok order \<Longrightarrow> mset (in_order order xs) = mset xs"
proof -
  assume "order_ok order"
  then have "mset (in_order order xs) = image_mset ((!) xs) (mset [0..<length xs])"
    by (simp add: in_order_def order_ok_def)
  also have "\<dots> = mset (map ((!) xs) [0..<length xs])" by simp
  also have "\<dots> = mset xs" by (simp only: map_nth)
  finally show ?thesis .
qed

lemma set_in_order: "order_ok order \<Longrightarrow> set (in_order order xs) = set xs"
  by (rule mset_eq_setD) (rule mset_in_order)

lemma map_io_each:
  "map_io f xs w = (Ok ys, w') \<Longrightarrow> list_all2 (\<lambda>x y. \<exists>w1 w2. f x w1 = (Ok y, w2)) xs ys"
  by (induction xs arbitrary: w ys) (auto simp: ret_run and_then_Ok)

text \<open>The announcement of an event by the oracle of a key, whatever the world was at the time.\<close>

definition announced :: "(bytes \<rightharpoonup> 'o async_oracle) \<Rightarrow> string \<Rightarrow> bytes \<Rightarrow> announcement \<Rightarrow> bool" where
  "announced os event_id k ann \<longleftrightarrow> (\<exists>orc u u'. os k = Some orc \<and> or_get_announcement orc event_id u = (Ok ann, u'))"

lemma announced_lift:
  "announced (\<lambda>k. map_option lift_oracle (os k)) i k ann \<Longrightarrow> announced os i k ann"
  by (auto simp: announced_def lift_oracle_def lift_snd_def on_part_def split: prod.splits) blast

lemma all_announced:
  assumes "outcome_collect (find_oracles os) [info] = Ok found"
    and "map_io (map_io (\<lambda>orc. or_get_announcement orc i)) found w = (Ok anns, w')"
  obtains as where "anns = [as]" "list_all2 (announced os i) (oi_public_keys (cii_oracles info)) as"
proof -
  obtain orcs where found: "found = [orcs]" "list_all2 (\<lambda>k orc. os k = Some orc) (oi_public_keys (cii_oracles info)) orcs"
    using assms(1) by (auto simp: find_oracles_def outcome_collect_Ok_iff)
  obtain as w1 w2 where anns: "anns = [as]" "map_io (\<lambda>orc. or_get_announcement orc i) orcs w1 = (Ok as, w2)"
    using map_io_each [OF assms(2)] found(1) by (auto simp: list_all2_Cons1)
  have "list_all2 (announced os i) (oi_public_keys (cii_oracles info)) as"
    by (rule list_all2_trans [OF _ found(2) map_io_each [OF anns(2)]]) (auto simp: announced_def)
  with that anns(1) show thesis by blast
qed

definition offered_input :: "OfferRequest \<Rightarrow> bytes list \<Rightarrow> string \<Rightarrow> numerical_descriptor \<Rightarrow> contract_input" where
  "offered_input q keys network descriptor =
     \<lparr>cin_offer_collateral = of_offer_collateral q, cin_accept_collateral = of_accept_collateral q,
      cin_fee_rate = (if network = ''regtest'' then 1 else 400),
      cin_contract_infos = [\<lparr>cii_oracles = \<lparr>oi_public_keys = keys, oi_event_id = of_uuid q, oi_threshold = of_nat (length keys)\<rparr>,
        cii_contract_descriptor = Numerical descriptor\<rparr>]\<rparr>"

lemma offer_input_offered:
  assumes "order_ok order"
  shows "offer_input order attestors network (of_uuid q) (of_accept_collateral q) (of_offer_collateral q) descriptor
    = offered_input q (map fst (in_order order attestors)) network descriptor"
proof -
  have "length (in_order order attestors) = length attestors" by (rule mset_eq_length [OF mset_in_order [OF assms]])
  then show ?thesis by (simp add: offer_input_def offered_input_def Let_def)
qed

text \<open>
  C34. A request for an offer that succeeds stores, under an id that was free and under the
  router's key, the contract the library builds, and changes no other record. The library gets
  both collaterals of the request, the payout curve for its total_outcomes, the fee rate of the
  network, the key of every attestor of the router as an oracle, all of them needed, each with
  its announcement of the request's event, the fee in basis points with the recipient's address
  (the default one when there is no fee), and the refund delay of the request, replaced by ten
  days (864000 seconds) when it is 0 or longer than that. (wallet/README.md promises a quite long
  time for 0 and allows ten years; the code gives ten days in both cases.)
\<close>

theorem offer_sent:
  assumes "create_new_offer chk px D x rt attestors q w = (Ok msg, w')"
    and "rt_manager rt = stack_manager e D host key sk N"
    and "store_inv e D key (fst w)" "updater_ok (mg_updater N)" "order_ok (rt_order rt)"
  shows "\<exists>network ev descriptor keys fee cp os anns offered offer v v'.
    rx_network_from_str x (rt_active_network rt) = Ok network
    \<and> get_numerical_contract_info chk px (of_accept_collateral q) (of_offer_collateral q) (of_total_outcomes q)
        (length attestors) = Ok (ev, descriptor)
    \<and> mset keys = mset (map fst attestors) \<and> mg_oracles N = Some os \<and> list_all2 (announced os (of_uuid q)) keys anns
    \<and> rx_address_from_str x (if 0 < of_btc_fee_basis_points q then of_btc_fee_recipient q
        else ''bcrt1qvgkz8m4m73kly4xhm28pcnv46n6u045lfq9ta3'') = Ok fee
    \<and> rx_node_id x STATIC_COUNTERPARTY_NODE_ID = Some cp
    \<and> cu_offer_contract (mg_updater N) (offered_input q keys network descriptor) [anns]
        (if of_refund_delay q = 0 then 864000 else min (of_refund_delay q) 864000) cp
        (calculate_denominator_from_basis_points (of_btc_fee_basis_points q)) fee v = (Ok (offered, offer), v')
    \<and> rx_offer_json x offer = Ok msg
    \<and> store_view e D key (fst w) (oc_id offered) = None
    \<and> store_view e D key (fst w') = (store_view e D key (fst w))(oc_id offered \<mapsto> Offered offered)"
proof -
  let ?M = "stack_manager e D host key sk N" and ?bp = "of_btc_fee_basis_points q"
  let ?keys = "map fst (in_order (rt_order rt) attestors)"
  let ?delay = "if of_refund_delay q = 0 then 864000 else min (of_refund_delay q) 864000"
  have delay: "adjusted_refund_delay (of_refund_delay q) = ?delay"
    using linear [of "of_refund_delay q" 864000] by (auto simp: adjusted_refund_delay_def TEN_DAYS_def min_def)
  obtain network ev descriptor fee cp offer where run:
    "rx_network_from_str x (rt_active_network rt) = Ok network"
    "get_numerical_contract_info chk px (of_accept_collateral q) (of_offer_collateral q) (of_total_outcomes q)
        (length attestors) = Ok (ev, descriptor)"
    "rx_address_from_str x (if 0 < ?bp then of_btc_fee_recipient q else ''bcrt1qvgkz8m4m73kly4xhm28pcnv46n6u045lfq9ta3'') = Ok fee"
    "rx_node_id x STATIC_COUNTERPARTY_NODE_ID = Some cp"
    "send_offer ?M (offered_input q ?keys network descriptor) cp ?delay ?bp fee w = (Ok offer, w')"
    "rx_offer_json x offer = Ok msg"
    using assms(1)
    unfolding create_new_offer_def assms(2) delay offer_input_offered [OF assms(5)] Let_def
    by (auto simp: and_then_Ok of_outcome_Ok map_err_Ok simp del: if_split)
  obtain os' found anns' offered w1 w2 where sent: "mg_oracles ?M = Some os'"
    "outcome_collect (find_oracles os') (cin_contract_infos (offered_input q ?keys network descriptor)) = Ok found"
    "map_io (map_io (\<lambda>orc. or_get_announcement orc (of_uuid q))) found w = (Ok anns', w1)"
    "cu_offer_contract (mg_updater ?M) (offered_input q ?keys network descriptor) anns' ?delay cp
        (calculate_denominator_from_basis_points ?bp) fee w1 = (Ok (offered, offer), w2)"
    "store_view e D key (fst w) (oc_id offered) = None"
    "store_view e D key (fst w') = (store_view e D key (fst w))(oc_id offered \<mapsto> Offered offered)"
    by (rule linked.send_offer_stores [OF _ run(5)]) (use assms(3,4) in \<open>auto simp: offered_input_def\<close>)
  obtain os where os: "mg_oracles N = Some os" "os' = (\<lambda>k. map_option lift_oracle (os k))"
    using sent(1) by (auto simp: link_manager_def)
  obtain anns where anns: "anns' = [anns]" "list_all2 (announced os' (of_uuid q)) ?keys anns"
    by (rule all_announced [OF sent(2) [unfolded offered_input_def contract_input.simps] sent(3)]) simp
  have each: "list_all2 (announced os (of_uuid q)) ?keys anns"
    using anns(2) os(2) by (auto elim: list_all2_mono intro: announced_lift)
  have "cu_offer_contract (mg_updater N) (offered_input q ?keys network descriptor) [anns] ?delay cp
      (calculate_denominator_from_basis_points ?bp) fee (snd w1) = (Ok (offered, offer), snd w2)"
    using sent(4) anns(1) by (auto simp: link_manager_def lift_updater_def lift_snd_def on_part_def split: prod.splits)
  moreover have "mset ?keys = mset (map fst attestors)" using mset_in_order [OF assms(5), of attestors] by (simp only: mset_map)
  ultimately show ?thesis using run(1-4,6) os(1) each sent(5,6) by blast
qed

definition demo_linked_router :: "(link \<times> transaction list) Router" where
  "demo_linked_router = \<lparr>rt_manager = stack_manager ref_web ref_dlc ''h'' ''k'' [7] (demo_manager 0 0),
     rt_attestors = None, rt_order = (\<lambda>n. [0..<n]), rt_store = null_storage, rt_wallet_address = [],
     rt_active_network = ''regtest'', rt_blockchain_interface_url = ''b''\<rparr>"

definition demo_linked_router_ext :: "(link \<times> transaction list) router_ext" where
  "demo_linked_router_ext = \<lparr>rx_http_get = (\<lambda>_. panic), rx_post_json = (\<lambda>_ _. panic), rx_network_from_str = Ok,
     rx_address_from_str = (\<lambda>_. Ok [1]), rx_address_text = text_of, rx_node_id = (\<lambda>_. Some [3]), rx_txid_text = text_of,
     rx_offer_json = (\<lambda>_. Ok ''offer''), rx_sign_json = (\<lambda>_. Ok ''sign''),
     rx_accept_of_json = (\<lambda>_. Ok \<lparr>ad_temporary_contract_id = [1], ad_rest = []\<rparr>)\<rparr>"

definition demo_attestor :: "transaction list AttestorClient" where
  "demo_attestor = \<lparr>acl_host = ''h/'', acl_public_key = [5],
     acl_client = (\<lambda>path. ret \<lparr>rp_status = 200, rp_body = Ok (enc (JObj [(''chain'', JStr ''c'')]))\<rparr>)\<rparr>"

definition demo_linked_attestor :: "(link \<times> transaction list) AttestorClient" where
  "demo_linked_attestor = \<lparr>acl_host = ''h/'', acl_public_key = [5], acl_client = (\<lambda>path. panic)\<rparr>"

definition demo_request :: OfferRequest where
  "demo_request = \<lparr>of_uuid = ''u'', of_accept_collateral = 100, of_offer_collateral = 300, of_total_outcomes = 100,
     of_refund_delay = 0, of_btc_fee_recipient = [], of_btc_fee_basis_points = 0\<rparr>"

theorem offer_sent_witness:
  "\<exists>msg w' offered. create_new_offer True demo_payout ref_dlc demo_linked_router_ext demo_linked_router [([5], demo_linked_attestor)]
       demo_request (demo_link, []) = (Ok msg, w')
     \<and> store_view ref_web ref_dlc ''k'' (fst w') (oc_id offered) = Some (Offered offered)"
proof -
  let ?w = "(demo_link, []) :: link \<times> transaction list" and ?M = "stack_manager ref_web ref_dlc ''h'' ''k'' [7] (demo_manager 0 0)"
  have inv: "store_inv ref_web ref_dlc ''k'' (fst ?w) \<and> updater_ok (mg_updater (demo_manager 0 0))"
    by (simp add: demo_store_inv demo_updater_ok)
  have calm: "calm (Suc 0) (fst ?w)"
    by (simp add: calm_def quiet_def calm_server_def pg_typed_def serials_ok_def demo_link_def
        demo_server_def demo_pg_def link_pg_def i32_max_def)
  have "encodes ref_web ref_dlc (Offered demo_offer)"
    using demo_encoded(1) by (simp add: encodes_def)
  then have create: "wp (as_create_contract (mg_store ?M) demo_offer) (\<lambda>r w'. is_ok r \<and> calm 0 (fst w')) ?w"
    using live_linked.create_calm [OF inv calm] by (simp add: demo_store_view)
  obtain r w' where "as_create_contract (mg_store ?M) demo_offer ?w = (r, w')" by (rule prod.exhaust)
  then have stored: "as_create_contract (mg_store ?M) demo_offer ?w = (Ok (), w')"
    using wp_run [OF create] by (cases r) auto
  have outside: "mg_oracles ?M = Some (\<lambda>k. if k = [5] then Some (lift_oracle demo_oracle) else None)"
    "cu_validate_input (mg_updater ?M) = (\<lambda>_. Ok ())" "cu_validate_offered (mg_updater ?M) = (\<lambda>_. Ok ())"
    "cu_offer_contract (mg_updater ?M) a b c d f g = ret (demo_offer, \<lparr>od_temporary_contract_id = [1], od_rest = []\<rparr>)"
    "or_get_announcement (lift_oracle demo_oracle :: (link \<times> transaction list) async_oracle) i = ret demo_announcement"
    for a b c d f g i
    by (auto simp: link_manager_def lift_updater_def demo_manager_def demo_updater_def lift_oracle_def demo_oracle_def
        lift_snd_def on_part_def ret_def)
  have run: "create_new_offer True demo_payout ref_dlc demo_linked_router_ext demo_linked_router [([5], demo_linked_attestor)]
      demo_request ?w = (Ok ''offer'', w')"
    using stored
    by (simp add: create_new_offer_def demo_linked_router_def demo_linked_router_ext_def demo_request_def demo_payout_def
        get_numerical_contract_info_def get_numerical_contract_descriptor_def get_polynomial_payout_curve_pieces_def
        u64_add_def max_value_def NB_DIGITS_def offer_input_def in_order_def send_offer_def find_oracles_def outside
        Let_def and_then_def of_outcome_def ret_def map_err_def handle_def)
  have parts: "rt_manager demo_linked_router = ?M" "order_ok (rt_order demo_linked_router)"
    by (simp_all add: demo_linked_router_def order_ok_def)
  obtain offered where "store_view ref_web ref_dlc ''k'' (fst w')
      = (store_view ref_web ref_dlc ''k'' (fst ?w))(oc_id offered \<mapsto> Offered offered)"
    using offer_sent [OF run parts(1) _ demo_updater_ok parts(2)] inv by blast
  then show ?thesis using run by auto
qed

section \<open>Chains\<close>

lemma some_answer:
  "handle m (\<lambda>a. ret (Some a)) (\<lambda>_. ret None) w = (Ok (Some a), w') \<longleftrightarrow> m w = (Ok a, w')"
  by (auto simp: handle_def ret_def split: prod.splits outcome.splits)

text \<open>
  C35. The chain reported for an event is the JSON text of one that every attestor of the router
  named: there is at least one attestor, and none failed to answer or named another chain.
\<close>

theorem chain_unanimous:
  assumes "get_chain_from_attestors e D order attestors uuid w = (Ok c, w')" "order_ok order"
  shows "attestors \<noteq> [] \<and> (\<exists>chain. c = jprint e (JStr chain)
    \<and> (\<forall>(key, client) \<in> set attestors. \<exists>w1 w2. get_chain e D client uuid w1 = (Ok chain, w2)))"
proof -
  let ?ask = "\<lambda>(key :: bytes, v). handle (get_chain e D v uuid) (\<lambda>chain. ret (Some chain) :: ('a, string option, string) io) (\<lambda>_. ret None)"
  obtain chains w1 where chains: "map_io ?ask (in_order order attestors) w = (Ok chains, w1)"
    and rest: "(case chains of [] \<Rightarrow> throw ''Chains from attestors are not all the same.''
       | c # _ \<Rightarrow> if \<not> (\<forall>d \<in> set chains. d = c) then throw ''Chains from attestors are not all the same.''
           else (case c of Some chain \<Rightarrow> ret (jprint e (JStr chain)) | None \<Rightarrow> throw ''Failed to get chain from attestors'')) w1
       = (Ok c, w')"
    using assms(1) unfolding get_chain_from_attestors_def and_then_Ok by blast
  have "\<exists>chain. chains \<noteq> [] \<and> (\<forall>d \<in> set chains. d = Some chain) \<and> c = jprint e (JStr chain)"
  proof (cases chains)
    case Nil
    then show ?thesis using rest by (simp add: throw_def)
  next
    case (Cons d ds)
    with rest show ?thesis
      by (cases d) (auto simp: throw_def ret_def split: if_splits)
  qed
  then obtain chain where chain: "chains \<noteq> []" "\<forall>d \<in> set chains. d = Some chain" "c = jprint e (JStr chain)" by blast
  have rel: "list_all2 (\<lambda>x y. \<exists>w1 w2. ?ask x w1 = (Ok y, w2)) (in_order order attestors) chains"
    by (rule map_io_each [OF chains])
  have "\<exists>w1 w2. get_chain e D client uuid w1 = (Ok chain, w2)" if "(key, client) \<in> set attestors" for key client
  proof -
    have "(key, client) \<in> set (in_order order attestors)" using that by (simp add: set_in_order [OF assms(2)])
    then obtain n where n: "n < length (in_order order attestors)" "in_order order attestors ! n = (key, client)"
      by (auto simp: in_set_conv_nth)
    have "chains ! n = Some chain" using n(1) chain(2) list_all2_lengthD [OF rel] by simp
    with list_all2_nthD [OF rel n(1)] n(2) show ?thesis
      by (auto simp: some_answer)
  qed
  moreover have "attestors \<noteq> []"
    using chain(1) list_all2_lengthD [OF rel] set_in_order [OF assms(2), of attestors] by auto
  ultimately show ?thesis using chain(3) by blast
qed

theorem chain_unanimous_witness:
  "\<exists>w1 w2. get_chain ref_web ref_dlc demo_attestor ''u'' w1 = (Ok ''c'', w2)"
proof -
  have get: "get_chain ref_web ref_dlc demo_attestor ''u'' w = (Ok ''c'', w)" for w
    by (simp add: get_chain_def client_get_json_def demo_attestor_def handle_def and_then_def map_err_def ret_def
        of_outcome_def reply_json_def read_canon)
  have run: "get_chain_from_attestors ref_web ref_dlc (\<lambda>n. [0..<n]) [([5], demo_attestor)] ''u'' [] = (Ok (enc (JStr ''c'')), [])"
    by (simp add: get_chain_from_attestors_def in_order_def and_then_def handle_def get ret_def)
  have "order_ok (\<lambda>n. [0..<n])" by (simp add: order_ok_def)
  from chain_unanimous [OF run this] show ?thesis using get by auto
qed

end
