(* ===== verification/Wasm_Wallet.thy ===== *)
theory Wasm_Wallet
  imports Router_Wallet Wallets Hex
begin

text \<open>
  \<open>wasm-wallet/src/lib.rs\<close>: the wallet that runs in a browser, an object with the manager, the
  chain provider and the key of its user behind methods for JavaScript. An error of type
  \<open>JsError\<close> is its text and a \<open>JsValue\<close> the JSON value it holds; messages to the console are
  left out. The state of the manager's surroundings is a parameter; the cache of the provider
  and the outputs of the wallet are explicit where the methods use them.
\<close>

section \<open>The interface and its surroundings\<close>

record JsDLCInterfaceOptions =
  jo_network :: string
  jo_electrs_url :: string
  jo_address :: string

definition default_options :: JsDLCInterfaceOptions where
  "default_options = \<lparr>jo_network = ''regtest'', jo_electrs_url = ''https://devnet.dlc.link/electrs'', jo_address = []\<rparr>"

definition options_json :: "JsDLCInterfaceOptions \<Rightarrow> json" where
  "options_json opts = JObj [(''network'', JStr (jo_network opts)), (''electrs_url'', JStr (jo_electrs_url opts)),
     (''address'', JStr (jo_address opts))]"

record 'm JsDLCInterface =
  ji_options :: JsDLCInterfaceOptions
  ji_manager :: "'m Manager"
  ji_provider :: esplora_provider

record 'm js_ext =
  jx_network_from_str :: "string \<Rightarrow> (string, string) outcome"
  jx_esplora_client :: "string \<Rightarrow> unit option"
  jx_seckey_from_str :: "string \<Rightarrow> (bytes, string) outcome"
  jx_pubkey_text :: "bytes \<Rightarrow> string \<Rightarrow> string"
  jx_parse_address :: "string \<Rightarrow> bytes option"
  jx_store :: "string \<Rightarrow> bytes \<Rightarrow> string \<Rightarrow> 'm async_storage"
  jx_blockchain :: "esplora_provider \<Rightarrow> 'm async_blockchain"
  jx_import_address :: "bytes \<Rightarrow> string \<Rightarrow> ('m, unit, dlc_error) io"
  jx_updater :: "'m contract_updater"
  jx_http_get_json :: "string \<Rightarrow> ('m, json, string) io"
  jx_client_builder :: "(string \<Rightarrow> ('m, reply, reqwest_error) io) option"
  jx_read_id :: "bytes \<Rightarrow> (bytes, string) outcome"
  jx_node_id :: "string \<Rightarrow> (bytes, string) outcome"
  jx_txid_text :: "bytes \<Rightarrow> string"
  jx_offer_of_json :: "string \<Rightarrow> (offer_dlc, string) outcome"
  jx_sign_of_json :: "string \<Rightarrow> (sign_dlc, string) outcome"
  jx_accept_json :: "accept_dlc \<Rightarrow> (string, string) outcome"

definition to_wallet_error :: "string \<Rightarrow> string" where
  "to_wallet_error t = ''Wallet Error: '' @ t"

section \<open>Start-up\<close>

definition devnet_attestor_urls :: "string list" where
  "devnet_attestor_urls = [''https://devnet.dlc.link/attestor-1'', ''https://devnet.dlc.link/attestor-2'',
     ''https://devnet.dlc.link/attestor-3'']"

definition testnet_attestor_urls :: "string list" where
  "testnet_attestor_urls = [''https://testnet.dlc.link/attestor-1'', ''https://testnet.dlc.link/attestor-2'',
     ''https://testnet.dlc.link/attestor-3'']"

definition js_attestor_urls :: "string \<Rightarrow> string list" where
  "js_attestor_urls active_network =
     (if active_network = ''regtest'' then devnet_attestor_urls
      else if active_network = ''testnet'' then testnet_attestor_urls
      else [])"

text \<open>The same loop as the router's, with the same six attempts for each attestor.\<close>

definition js_generate_attestor_client ::
  "bool \<Rightarrow> (string \<Rightarrow> ('m, 'm AttestorClient, dlc_error) io) \<Rightarrow> string list \<Rightarrow> 'm \<Rightarrow> (('m attestor_map, 'e) outcome \<times> 'm) option" where
  "js_generate_attestor_client chk new_client attestor_urls = add_attestors chk new_client attestor_urls []"

text \<open>What is built before the attestors are asked: the provider, the key and the wallet.\<close>

definition js_setup ::
  "'m js_ext \<Rightarrow> string \<Rightarrow> JsDLCInterfaceOptions \<Rightarrow> (esplora_provider \<times> bytes \<times> JSInterfaceWallet, string) outcome" where
  "js_setup jx privkey opts =
     outcome_bind (jx_network_from_str jx (jo_network opts)) (\<lambda>active_network.
     outcome_bind (expect (jx_esplora_client jx (jo_electrs_url opts))) (\<lambda>_.
     outcome_bind (outcome_map_err (\<lambda>t. ''Error parsing private key: '' @ t) (jx_seckey_from_str jx privkey)) (\<lambda>seckey.
     outcome_bind (js_wallet_new (jx_parse_address jx) (jo_address opts) seckey) (\<lambda>wallet.
     Ok (\<lparr>ep_host = jo_electrs_url opts, ep_network = active_network\<rparr>, seckey, wallet)))))"

text \<open>A new interface, with the provider's first cache and the wallet's first outputs.\<close>

definition js_new ::
  "bool \<Rightarrow> web_ext \<Rightarrow> dlc_ext \<Rightarrow> oracle_ext \<Rightarrow> 'm js_ext \<Rightarrow> string \<Rightarrow> string \<Rightarrow> string \<Rightarrow> string \<Rightarrow> string \<Rightarrow> 'm \<Rightarrow>
     (('m JsDLCInterface \<times> ChainCacheData \<times> JSInterfaceWallet, string) outcome \<times> 'm) option" where
  "js_new chk e D X jx privkey address network electrs_url storage_api_url w =
     (let opts = \<lparr>jo_network = network, jo_electrs_url = electrs_url, jo_address = address\<rparr>
      in case js_setup jx privkey opts of
           Err t \<Rightarrow> Some (Err t, w)
         | Panic \<Rightarrow> Some (Panic, w)
         | Ok (blockchain, seckey, wallet) \<Rightarrow>
             or_panic (js_generate_attestor_client chk (attestor_client_new X (jx_client_builder jx))
                 (js_attestor_urls (ep_network blockchain)) w :: (('m attestor_map, string) outcome \<times> 'm) option) (\<lambda>attestors w.
             let manager = \<lparr>mg_oracles = Some (\<lambda>k. map_option (client_oracle e D X) (map_of attestors k)),
                   mg_store = jx_store jx (jx_pubkey_text jx seckey (ep_network blockchain)) seckey storage_api_url,
                   mg_blockchain = jx_blockchain jx blockchain, mg_import_address = jx_import_address jx,
                   mg_updater = jx_updater jx, mg_http_get_json = jx_http_get_json jx\<rparr>
             in Some (Ok (\<lparr>ji_options = opts, ji_manager = manager, ji_provider = blockchain\<rparr>, new_chain_data, wallet), w)))"

definition js_get_options :: "'m JsDLCInterface \<Rightarrow> json" where
  "js_get_options self = options_json (ji_options self)"

section \<open>The balance\<close>

text \<open>The world of this method: the surroundings of the provider, its cache, and the wallet.\<close>

type_synonym 'w browser = "'w js_world \<times> JSInterfaceWallet"

definition js_get_wallet_balance ::
  "bool \<Rightarrow> dlc_ext \<Rightarrow> 'w esplora_ext \<Rightarrow> 'm JsDLCInterface \<Rightarrow> ('w browser, u64, string) io" where
  "js_get_wallet_balance chk D x self =
     and_then (map_err (\<lambda>_. ''Failed to communicate with the Bitcoin blockchain. Please try again later!'')
        (lift_fst (refresh_chain_data x (ji_provider self) (jo_address (ji_options self))))) (\<lambda>_.
     and_then (map_err (\<lambda>_. ''Failed to set UTXOs. Please try again later!'')
        (lift_fst (on_cache (\<lambda>c. (get_utxos c, c))))) (\<lambda>utxos.
     and_then (map_err (dlc_error_text D) (lift_snd (set_utxos utxos))) (\<lambda>_.
     map_err (\<lambda>_. ''Failed to retrieve the Bitcoin balance. Please try again later!'')
        (lift_fst (on_cache (\<lambda>c. (get_balance chk c, c)))))))"

section \<open>Contracts as JavaScript sees them\<close>

record JsContract =
  jc_id :: string
  jc_state :: string
  jc_acceptor_collateral :: string
  jc_tx_id :: string

fun js_state :: "dlc_contract \<Rightarrow> string" where
  "js_state (Offered _) = ''Offered''"
| "js_state (Accepted _) = ''Accepted''"
| "js_state (Signed _) = ''Signed''"
| "js_state (Confirmed _) = ''Confirmed''"
| "js_state (PreClosed _) = ''Pre-Closed''"
| "js_state (Closed _) = ''Closed''"
| "js_state (Refunded _) = ''Refunded''"
| "js_state (FailedAccept _) = ''Accept Failed''"
| "js_state (FailedSign _) = ''Sign Failed''"
| "js_state (Rejected _) = ''Rejected''"

definition collateral_text :: "accepted_contract \<Rightarrow> string" where
  "collateral_text c = show_nat (unat (ac_accept_collateral c))"

fun js_acceptor_collateral :: "dlc_contract \<Rightarrow> string" where
  "js_acceptor_collateral (Accepted c) = collateral_text c"
| "js_acceptor_collateral (Signed c) = collateral_text (sc_accepted_contract c)"
| "js_acceptor_collateral (Confirmed c) = collateral_text (sc_accepted_contract c)"
| "js_acceptor_collateral (Refunded c) = collateral_text (sc_accepted_contract c)"
| "js_acceptor_collateral (FailedSign c) = collateral_text (fs_accepted_contract c)"
| "js_acceptor_collateral (PreClosed c) = collateral_text (sc_accepted_contract (pc_signed_contract c))"
| "js_acceptor_collateral _ = []"

text \<open>For a pre-closed contract the code puts the collateral here, not a transaction id.\<close>

definition fund_txid_text :: "dlc_ext \<Rightarrow> 'm js_ext \<Rightarrow> accepted_contract \<Rightarrow> string" where
  "fund_txid_text D jx c = jx_txid_text jx (txid D (ac_fund c))"

fun js_tx_id :: "dlc_ext \<Rightarrow> 'm js_ext \<Rightarrow> dlc_contract \<Rightarrow> string" where
  "js_tx_id D jx (Accepted c) = fund_txid_text D jx c"
| "js_tx_id D jx (Signed c) = fund_txid_text D jx (sc_accepted_contract c)"
| "js_tx_id D jx (Confirmed c) = fund_txid_text D jx (sc_accepted_contract c)"
| "js_tx_id D jx (Refunded c) = fund_txid_text D jx (sc_accepted_contract c)"
| "js_tx_id D jx (FailedSign c) = fund_txid_text D jx (fs_accepted_contract c)"
| "js_tx_id D jx (PreClosed c) = collateral_text (sc_accepted_contract (pc_signed_contract c))"
| "js_tx_id D jx _ = []"

definition from_contract :: "dlc_ext \<Rightarrow> 'm js_ext \<Rightarrow> dlc_contract \<Rightarrow> (JsContract, string) outcome" where
  "from_contract D jx contract =
     Ok \<lparr>jc_id = hex_str (get_id D contract), jc_state = js_state contract,
       jc_acceptor_collateral = js_acceptor_collateral contract, jc_tx_id = js_tx_id D jx contract\<rparr>"

definition js_contract_json :: "JsContract \<Rightarrow> json" where
  "js_contract_json c = JObj [(''id'', JStr (jc_id c)), (''state'', JStr (jc_state c)),
     (''acceptorCollateral'', JStr (jc_acceptor_collateral c)), (''txId'', JStr (jc_tx_id c))]"

section \<open>Reading contracts\<close>

definition js_get_contracts :: "dlc_ext \<Rightarrow> 'm js_ext \<Rightarrow> 'm JsDLCInterface \<Rightarrow> ('m, json, string) io" where
  "js_get_contracts D jx self =
     and_then (map_err (dlc_error_text D) (as_get_contracts (mg_store (ji_manager self)))) (\<lambda>cs.
     let contracts = ok_values (map (from_contract D jx) cs)
     in ret (JArr (map js_contract_json contracts)))"

text \<open>\<open>ContractId::read\<close> is applied to the text as it is, not to the bytes its digits stand for.\<close>

definition js_get_contract :: "dlc_ext \<Rightarrow> 'm js_ext \<Rightarrow> 'm JsDLCInterface \<Rightarrow> string \<Rightarrow> ('m, json, string) io" where
  "js_get_contract D jx self contract_str =
     and_then (of_outcome (outcome_map_err to_wallet_error (jx_read_id jx (bytes_of contract_str)))) (\<lambda>contract_id.
     and_then (map_err (dlc_error_text D) (as_get_contract (mg_store (ji_manager self)) contract_id)) (\<lambda>contract.
     case contract of
       Some c \<Rightarrow> and_then (of_outcome (from_contract D jx c)) (\<lambda>jc. ret (js_contract_json jc))
     | None \<Rightarrow> ret JNull))"

definition js_periodic_check :: "dlc_ext \<Rightarrow> 'm JsDLCInterface \<Rightarrow> ('m, unit, string) io" where
  "js_periodic_check D self =
     and_then (map_err (dlc_error_text D) (periodic_check D (ji_manager self))) (\<lambda>_. ret ())"

section \<open>Moving contracts\<close>

definition js_accept_offer :: "dlc_ext \<Rightarrow> 'm js_ext \<Rightarrow> 'm JsDLCInterface \<Rightarrow> string \<Rightarrow> ('m, string, string) io" where
  "js_accept_offer D jx self offer_json =
     map_err (\<lambda>t. ''Error accepting offer: '' @ to_wallet_error t)
       (and_then (of_outcome (jx_offer_of_json jx offer_json)) (\<lambda>dlc_offer_message.
        let temporary_contract_id = od_temporary_contract_id dlc_offer_message
        in and_then (of_outcome (jx_node_id jx STATIC_COUNTERPARTY_NODE_ID)) (\<lambda>counterparty.
           and_then (map_err (dlc_error_text D)
             (on_dlc_message D (ji_manager self) (OfferMsg dlc_offer_message) counterparty)) (\<lambda>_.
           and_then (map_err (dlc_error_text D)
             (accept_contract_offer D (ji_manager self) temporary_contract_id)) (\<lambda>(_, _, accept_msg).
           of_outcome (jx_accept_json jx accept_msg))))))"

definition js_countersign_and_broadcast ::
  "dlc_ext \<Rightarrow> 'm js_ext \<Rightarrow> 'm JsDLCInterface \<Rightarrow> string \<Rightarrow> ('m, string, string) io" where
  "js_countersign_and_broadcast D jx self dlc_sign_message =
     map_err (\<lambda>t. ''Error signing and broadcasting: '' @ to_wallet_error t)
       (and_then (of_outcome (jx_sign_of_json jx dlc_sign_message)) (\<lambda>sign_msg.
        and_then (of_outcome (jx_node_id jx STATIC_COUNTERPARTY_NODE_ID)) (\<lambda>counterparty.
        and_then (map_err (dlc_error_text D)
          (on_dlc_message D (ji_manager self) (SignMsg sign_msg) counterparty)) (\<lambda>_.
        and_then (map_err (dlc_error_text D) (as_get_signed_contracts (mg_store (ji_manager self)))) (\<lambda>contracts.
        case find (\<lambda>c. accepted_id D (sc_accepted_contract c) = sd_contract_id sign_msg) contracts of
          None \<Rightarrow> throw ''DLC Manager: - Sign Offer Error: Contract not found''
        | Some c \<Rightarrow> ret (fund_txid_text D jx (sc_accepted_contract c)))))))"

definition js_reject_offer :: "dlc_ext \<Rightarrow> 'm js_ext \<Rightarrow> 'm JsDLCInterface \<Rightarrow> string \<Rightarrow> ('m, unit, string) io" where
  "js_reject_offer D jx self contract_id =
     map_err (\<lambda>t. ''Error signing and broadcasting: '' @ to_wallet_error t)
       (and_then (of_outcome (jx_read_id jx (bytes_of contract_id))) (\<lambda>contract_id.
        and_then (map_err (dlc_error_text D) (as_get_contract (mg_store (ji_manager self)) contract_id)) (\<lambda>contract.
        case contract of
          Some (Offered c) \<Rightarrow> map_err (dlc_error_text D) (as_update_contract (mg_store (ji_manager self)) (Rejected c))
        | _ \<Rightarrow> ret ())))"

end
