(* ===== verification/Wasm_Props.thy ===== *)
theory Wasm_Props
  imports Wasm_Wallet Live_Manager Dlc_Props
begin

text \<open>
  Properties of the browser wallet: what a successful acceptance and a successful countersigning
  leave in the linked store, which outputs stand behind the balance it shows, and what becomes
  of the contract ids it shows when they are handed back to it.
\<close>

section \<open>Successful calls of the manager\<close>

context dlc_manager begin

lemma same_run: "moves same m \<Longrightarrow> inv w \<Longrightarrow> m w = (r, w') \<Longrightarrow> inv w' \<and> view w' = view w"
  by (rule wp_run [OF wp_same])

lemma update_run:
  "inv w \<Longrightarrow> as_update_contract (mg_store M) c w = (Ok (), w') \<Longrightarrow> inv w' \<and> stored D c (view w) (view w')"
  using wp_run [OF update_law] by force

lemma update_elsewhere:
  assumes "inv w" "\<not> replaces c" "get_id D c \<noteq> i"
  shows "wp (as_update_contract (mg_store M) c) (\<lambda>_ w'. view w' i = view w i) w"
  by (rule wp_mono [OF update_law [OF assms(1)]]) (use assms(2,3) in \<open>auto simp: stored_def vacated_def split: if_splits\<close>)

text \<open>An accepted offer message creates the contract in a free slot.\<close>

lemma on_offer_run:
  assumes "inv w" "on_offer_message M o' cp w = (Ok (), w')"
  obtains oc where "oc_id oc = od_temporary_contract_id o'" "oc_counter_party oc = cp"
    "view w (oc_id oc) = None" "view w' = (view w)(oc_id oc \<mapsto> Offered oc)" "inv w'"
proof -
  obtain oc w1 where run: "cu_try_from_offer_dlc (mg_updater M) o' cp = Ok oc"
    "as_get_contract (mg_store M) (oc_id oc) w = (Ok None, w1)" "as_create_contract (mg_store M) oc w1 = (Ok (), w')"
    using assms(2) unfolding on_offer_message_def by (auto simp: Ok_runs split: if_splits)
  have w1: "inv w1" "view w1 = view w" using wp_run [OF get_law [OF assms(1)] run(2)] by simp_all
  have id: "oc_id oc = od_temporary_contract_id o'" "oc_counter_party oc = cp"
    using library [OF assms(1)] run(1) unfolding updater_ok_def by blast+
  have "view w (oc_id oc) = None" "view w' = (view w)(oc_id oc \<mapsto> Offered oc)" "inv w'"
    using wp_run [OF create_law [OF w1(1)] run(3)] w1(2) by simp_all
  with id show thesis by (rule that)
qed

lemma in_state_run:
  assumes "inv w" "\<And>c s. sel c = Some s \<Longrightarrow> c = C s" "get_contract_in_state D M i st sel peer w = (Ok s, w')"
  shows "inv w' \<and> view w' = view w \<and> view w i = Some (C s)"
  using wp_run [OF get_in_state_law [where sel = sel and C = C, OF assms(1,2)] assms(3)] by simp

lemma accept_contract_offer_run:
  assumes "inv w" "accept_contract_offer D M i w = (Ok (j, p, am), w')"
  obtains oc ac where "view w i = Some (Offered oc)" "ac_offered_contract ac = oc" "j = accepted_id D ac"
    "stored D (Accepted ac) (view w) (view w')" "inv w'"
proof -
  obtain oc ac w1 w2 w3 where run: "get_contract_in_state D M i ''Offered'' as_offered None w = (Ok oc, w1)"
    "cu_accept_contract (mg_updater M) oc w1 = (Ok (ac, am), w2)" "import_funding_address M ac w2 = (Ok (), w3)"
    "as_update_contract (mg_store M) (Accepted ac) w3 = (Ok (), w')" "j = accepted_id D ac"
    using assms(2) unfolding accept_contract_offer_def by (auto simp: Ok_runs)
  have w1: "inv w1" "view w1 = view w" "view w i = Some (Offered oc)"
    using in_state_run [OF assms(1) as_offered run(1)] by simp_all
  have w2: "inv w2" "view w2 = view w" using same_run [OF frame_calls(9) w1(1) run(2)] w1(2) by simp_all
  have w3: "inv w3" "view w3 = view w" using same_run [OF import_same w2(1) run(3)] w2(2) by simp_all
  have "returns (cu_accept_contract (mg_updater M) oc) (\<lambda>(ac, _). ac_offered_contract ac = oc)"
    using library [OF assms(1)] unfolding updater_ok_def by blast
  then have "ac_offered_contract ac = oc" using run(2) by (auto simp: returns_def)
  with that [OF w1(3)] update_run [OF w3(1) run(4)] w3(2) run(5) show thesis by simp
qed

lemma on_sign_run:
  assumes "inv w" "on_sign_message D M sm cp w = (Ok (), w')"
  obtains ac sc where "view w (sd_contract_id sm) = Some (Accepted ac)" "sc_accepted_contract sc = ac"
    "stored D (Signed sc) (view w) (view w')" "inv w'"
proof -
  obtain ac sc tx w1 w2 w3 where run:
    "get_contract_in_state D M (sd_contract_id sm) ''Accepted'' as_accepted (Some cp) w = (Ok ac, w1)"
    "cu_verify_signed (mg_updater M) ac sm w1 = (Ok (sc, tx), w2)"
    "as_update_contract (mg_store M) (Signed sc) w2 = (Ok (), w3)" "bc_send_transaction (mg_blockchain M) tx w3 = (Ok (), w')"
    using assms(2) unfolding on_sign_message_def by (auto simp: Ok_runs sign_fail_on_error_def)
  have w1: "inv w1" "view w1 = view w" "view w (sd_contract_id sm) = Some (Accepted ac)"
    using in_state_run [OF assms(1) as_accepted run(1)] by simp_all
  have w2: "inv w2" "view w2 = view w" using same_run [OF frame_calls(11) w1(1) run(2)] w1(2) by simp_all
  have w3: "inv w3" "stored D (Signed sc) (view w) (view w3)" using update_run [OF w2(1) run(3)] w2(2) by simp_all
  have "returns (cu_verify_signed (mg_updater M) ac sm) (\<lambda>(sc, _). sc_accepted_contract sc = ac)"
    using library [OF assms(1)] unfolding updater_ok_def by blast
  then have "sc_accepted_contract sc = ac" using run(2) by (auto simp: returns_def)
  with that [OF w1(3)] same_run [OF frame_calls(4) w3(1) run(4)] w3(2) show thesis by simp
qed

end

section \<open>An interface for the witnesses\<close>

definition demo_js :: "(link \<times> transaction list) js_ext" where
  "demo_js = \<lparr>jx_network_from_str = Ok, jx_esplora_client = (\<lambda>_. Some ()), jx_seckey_from_str = (\<lambda>t. Ok (bytes_of t)),
     jx_pubkey_text = (\<lambda>_ _. ''k''), jx_parse_address = (\<lambda>t. Some (bytes_of t)),
     jx_store = (\<lambda>key sk host. lift_storage (provider_storage ref_web ref_dlc (link_provider ref_web host key sk))),
     jx_blockchain = (\<lambda>_. lift_blockchain (mg_blockchain (demo_manager 0 0))), jx_import_address = (\<lambda>_ _. ret ()),
     jx_updater = lift_updater demo_updater, jx_http_get_json = (\<lambda>_. throw ''none''), jx_client_builder = None,
     jx_read_id = (\<lambda>b. if 32 \<le> length b then Ok (take 32 b) else Err ''short read''), jx_node_id = (\<lambda>_. Ok [3]),
     jx_txid_text = hex_str, jx_offer_of_json = (\<lambda>_. Ok \<lparr>od_temporary_contract_id = [1], od_rest = []\<rparr>),
     jx_sign_of_json = (\<lambda>_. Ok \<lparr>sd_contract_id = [2, 1], sd_rest = []\<rparr>), jx_accept_json = (\<lambda>_. Ok ''accept'')\<rparr>"

lemma demo_js_simps:
  "jx_offer_of_json demo_js t = Ok \<lparr>od_temporary_contract_id = [1], od_rest = []\<rparr>" "jx_node_id demo_js t = Ok [3]"
  "jx_sign_of_json demo_js t = Ok \<lparr>sd_contract_id = [2, 1], sd_rest = []\<rparr>" "jx_accept_json demo_js am = Ok ''accept''"
  by (simp_all add: demo_js_def)

definition demo_interface :: "(link \<times> transaction list) JsDLCInterface" where
  "demo_interface = \<lparr>ji_options = default_options,
     ji_manager = stack_manager ref_web ref_dlc ''h'' ''k'' [7] (demo_manager 0 0), ji_provider = \<lparr>ep_host = ''h'', ep_network = ''n''\<rparr>\<rparr>"

lemma demo_interface_manager: "ji_manager demo_interface = stack_manager ref_web ref_dlc ''h'' ''k'' [7] (demo_manager 0 0)"
  by (simp add: demo_interface_def)

lemma demo_encoded_accepted: "encode_contract ref_web ref_dlc (Accepted demo_accepted) = Ok (text_of [2])"
  by (simp add: encode_contract_def serialize_contract_def ref_dlc_def get_prefix_def)

lemma demo_calm: "calm 5 demo_link" "calm 5 (demo_link_with (Accepted demo_accepted) 2)"
  by (simp_all add: calm_def quiet_def calm_server_def pg_typed_def serials_ok_def demo_link_holding_def demo_link_def
      demo_server_def demo_pg_def demo_contract_row_def link_pg_def i32_max_def)

section \<open>Accepting and countersigning\<close>

text \<open>
  When the browser's \<open>accept_offer\<close> succeeds, the offer's temporary id was free, and the store
  now holds, under its final id, the accepted contract made from that offer; the message returned
  is the library's acceptance of it, and no contract but those two changed.
\<close>

theorem accepted_offer_stored:
  assumes "store_inv e D key (fst w)" "updater_ok (mg_updater N)"
    and "ji_manager self = stack_manager e D host key sk N"
    and "js_accept_offer D jx self offer_json w = (Ok msg, w')"
  shows "\<exists>o' ac am. jx_offer_of_json jx offer_json = Ok o' \<and> jx_accept_json jx am = Ok msg
    \<and> store_view e D key (fst w) (od_temporary_contract_id o') = None
    \<and> oc_id (ac_offered_contract ac) = od_temporary_contract_id o'
    \<and> jx_node_id jx STATIC_COUNTERPARTY_NODE_ID = Ok (oc_counter_party (ac_offered_contract ac))
    \<and> store_view e D key (fst w') (accepted_id D ac) = Some (Accepted ac)
    \<and> (\<forall>i. i \<noteq> od_temporary_contract_id o' \<and> i \<noteq> accepted_id D ac \<longrightarrow>
         store_view e D key (fst w') i = store_view e D key (fst w) i)"
proof -
  let ?M = "stack_manager e D host key sk N"
  have i: "store_inv e D key (fst w) \<and> updater_ok (mg_updater N)" using assms(1,2) by simp
  obtain o' cp am j p w1 where run: "jx_offer_of_json jx offer_json = Ok o'"
    "jx_node_id jx STATIC_COUNTERPARTY_NODE_ID = Ok cp" "on_offer_message ?M o' cp w = (Ok (), w1)"
    "accept_contract_offer D ?M (od_temporary_contract_id o') w1 = (Ok (j, p, am), w')" "jx_accept_json jx am = Ok msg"
    using assms(4) unfolding js_accept_offer_def assms(3) by (auto simp: Ok_runs Let_def)
  obtain oc where oc: "oc_id oc = od_temporary_contract_id o'" "oc_counter_party oc = cp"
    "store_view e D key (fst w) (oc_id oc) = None"
    "store_view e D key (fst w1) = (store_view e D key (fst w))(oc_id oc \<mapsto> Offered oc)"
    "store_inv e D key (fst w1) \<and> updater_ok (mg_updater N)"
    by (rule linked.on_offer_run [OF i run(3)])
  obtain oc' ac where ac: "store_view e D key (fst w1) (od_temporary_contract_id o') = Some (Offered oc')"
    "ac_offered_contract ac = oc'" "stored D (Accepted ac) (store_view e D key (fst w1)) (store_view e D key (fst w'))"
    by (rule linked.accept_contract_offer_run [OF oc(5) run(4)])
  have "dlc_ok D" using linked.library [OF i] by simp
  then have ids: "get_id D (Accepted ac) = accepted_id D ac" "get_temporary_id D (Accepted ac) = oc_id oc"
    using ac(1,2) oc(1,4) by simp_all
  have "oc' = oc" using ac(1) oc(1,4) by simp
  moreover have "store_view e D key (fst w') (accepted_id D ac) = Some (Accepted ac)"
    using linked.stored_at [OF ac(3)] ids(1) by simp
  moreover have "store_view e D key (fst w') k = store_view e D key (fst w) k"
    if "k \<noteq> od_temporary_contract_id o'" "k \<noteq> accepted_id D ac" for k
    using linked.stored_frame [OF ac(3), of k] that oc(1,4) ids by simp
  ultimately show ?thesis
    using run(1,2,5) oc(1-3) ac(2) by (intro exI [of _ o'] exI [of _ ac] exI [of _ am]) simp
qed

text \<open>What the browser's acceptance needs to go through: the library agrees, and the store is calm.\<close>

lemma accept_goes_through:
  assumes "store_inv e D key (fst w)" "updater_ok (mg_updater N)" "calm (Suc (Suc n)) (fst w)"
    and "ji_manager self = stack_manager e D host key sk N"
    and "jx_offer_of_json jx offer_json = Ok o'" "jx_node_id jx STATIC_COUNTERPARTY_NODE_ID = Ok cp"
    and "library_accepts N (encodes e D) o' cp oc P" "\<And>ac am. P ac am \<Longrightarrow> is_ok (jx_accept_json jx am)"
    and "store_view e D key (fst w) (oc_id oc) = None"
  obtains msg ac am w' where "js_accept_offer D jx self offer_json w = (Ok msg, w')" "jx_accept_json jx am = Ok msg" "P ac am"
    "store_view e D key (fst w') (accepted_id D ac) = Some (Accepted ac)" "store_inv e D key (fst w')" "calm n (fst w')"
proof -
  let ?M = "stack_manager e D host key sk N"
  note lib = library_lift(1) [OF assms(7)]
  have i: "store_inv e D key (fst w) \<and> updater_ok (mg_updater N)" using assms(1,2) by simp
  have tmp: "oc_id oc = od_temporary_contract_id o'"
    using assms(2,7) by (auto simp: library_accepts_def updater_ok_def Let_def)
  obtain w1 where w1: "on_offer_message ?M o' cp w = (Ok (), w1)" "store_inv e D key (fst w1) \<and> updater_ok (mg_updater N)"
    "store_view e D key (fst w1) = (store_view e D key (fst w))(oc_id oc \<mapsto> Offered oc)" "calm (Suc n) (fst w1)"
    by (rule live_linked.offer_live [OF i assms(3) lib assms(9)])
  have "store_view e D key (fst w1) (oc_id oc) = Some (Offered oc)" using w1(3) by simp
  then obtain j p ac am w2 where acc: "accept_contract_offer D ?M (oc_id oc) w1 = (Ok (j, p, am), w2)" "P ac am"
    "stored D (Accepted ac) (store_view e D key (fst w1)) (store_view e D key (fst w2))"
    "store_inv e D key (fst w2) \<and> updater_ok (mg_updater N)" "calm n (fst w2)"
    by (rule live_linked.accept_live [OF w1(2,4) lib])
  from assms(8) [OF acc(2)] obtain t where t: "jx_accept_json jx am = Ok t" by (auto elim: is_ok.elims)
  with w1(1) acc(1) assms(5,6) tmp have "js_accept_offer D jx self offer_json w = (Ok t, w2)"
    by (simp add: js_accept_offer_def assms(4) Let_def io_defs)
  moreover have "store_view e D key (fst w2) (accepted_id D ac) = Some (Accepted ac)"
    using linked.stored_at [OF acc(3)] linked.library [OF i] by simp
  ultimately show thesis using that t acc(2,4,5) by blast
qed

text \<open>
  Without losses and faults, with ids left for two rows and the offer's temporary id free,
  \<open>accept_offer\<close> succeeds whenever the library accepts the offer and the contracts can be
  serialized.
\<close>

theorem acceptance_succeeds:
  assumes "store_inv e D key (fst w)" "updater_ok (mg_updater N)" "calm 2 (fst w)"
    and "ji_manager self = stack_manager e D host key sk N"
    and "jx_offer_of_json jx offer_json = Ok o'" "jx_node_id jx STATIC_COUNTERPARTY_NODE_ID = Ok cp"
    and "library_accepts N (encodes e D) o' cp oc (\<lambda>_ am. is_ok (jx_accept_json jx am))"
    and "store_view e D key (fst w) (oc_id oc) = None"
  shows "\<exists>msg w'. js_accept_offer D jx self offer_json w = (Ok msg, w')"
  using accept_goes_through [OF assms(1,2) assms(3) [unfolded numeral_2_eq_2] assms(4-7) _ assms(8)] by blast

lemma demo_accepts:
  "library_accepts (demo_manager 0 0) (encodes ref_web ref_dlc) \<lparr>od_temporary_contract_id = [1], od_rest = []\<rparr> [3] demo_offer
     (\<lambda>_ am. is_ok (jx_accept_json demo_js am))"
  using demo_encoded(1) demo_encoded_accepted
  by (simp add: library_accepts_def Let_def demo_manager_def demo_updater_def succeeds_def ret_def encodes_def demo_js_def
      demo_offer_of_def demo_accepted_def) (simp add: demo_offer_def)

theorem acceptance_succeeds_witness:
  "\<exists>msg w'. js_accept_offer ref_dlc demo_js demo_interface ''offer'' (demo_link, []) = (Ok msg, w')"
  by (rule acceptance_succeeds [OF _ demo_updater_ok _ demo_interface_manager _ _ demo_accepts])
    (use demo_calm(1) in \<open>simp_all add: demo_store_inv demo_store_view demo_js_def calm_def\<close>)

theorem accepted_offer_stored_witness:
  "\<exists>w' ac. js_accept_offer ref_dlc demo_js demo_interface ''offer'' (demo_link, []) = (Ok ''accept'', w')
     \<and> store_view ref_web ref_dlc ''k'' (fst w') (accepted_id ref_dlc ac) = Some (Accepted ac)"
proof -
  have inv: "store_inv ref_web ref_dlc ''k'' (fst (demo_link, []))" using demo_store_inv by simp
  have free: "store_view ref_web ref_dlc ''k'' (fst (demo_link, [])) (oc_id demo_offer) = None" using demo_store_view by simp
  have calm: "calm (Suc (Suc 0)) (fst (demo_link, []))" using demo_calm(1) by (simp add: calm_def)
  obtain msg w' where run: "js_accept_offer ref_dlc demo_js demo_interface ''offer'' (demo_link, []) = (Ok msg, w')"
    by (rule accept_goes_through [OF inv demo_updater_ok calm demo_interface_manager demo_js_simps(1,2) demo_accepts _ free])
      (assumption, rule that)
  from accepted_offer_stored [OF inv demo_updater_ok demo_interface_manager run] run show ?thesis
    by (auto simp: demo_js_def)
qed

text \<open>What a countersigning that succeeds did.\<close>

lemma countersign_run:
  assumes "store_inv e D key (fst w)" "updater_ok (mg_updater N)"
    and "ji_manager self = stack_manager e D host key sk N"
    and "js_countersign_and_broadcast D jx self sign_json w = (Ok tid, w')"
  shows "\<exists>sm ac sc. jx_sign_of_json jx sign_json = Ok sm
    \<and> store_view e D key (fst w) (sd_contract_id sm) = Some (Accepted ac) \<and> sc_accepted_contract sc = ac
    \<and> store_view e D key (fst w') (sd_contract_id sm) = Some (Signed sc)
    \<and> tid = jx_txid_text jx (txid D (ac_fund ac))"
proof -
  let ?M = "stack_manager e D host key sk N"
  have i: "store_inv e D key (fst w) \<and> updater_ok (mg_updater N)" using assms(1,2) by simp
  obtain sm cp cs c w1 where run: "jx_sign_of_json jx sign_json = Ok sm" "on_sign_message D ?M sm cp w = (Ok (), w1)"
    "as_get_signed_contracts (mg_store ?M) w1 = (Ok cs, w')"
    "find (\<lambda>c. accepted_id D (sc_accepted_contract c) = sd_contract_id sm) cs = Some c"
    "tid = fund_txid_text D jx (sc_accepted_contract c)"
    using assms(4) unfolding js_countersign_and_broadcast_def assms(3)
    by (auto simp: Ok_runs split: option.splits)
  obtain ac sc where signed: "store_view e D key (fst w) (sd_contract_id sm) = Some (Accepted ac)"
    "sc_accepted_contract sc = ac" "stored D (Signed sc) (store_view e D key (fst w)) (store_view e D key (fst w1))"
    "store_inv e D key (fst w1) \<and> updater_ok (mg_updater N)"
    by (rule linked.on_sign_run [OF i run(2)])
  have ids: "get_id D (Signed s) = accepted_id D (sc_accepted_contract s)" for s
    using linked.library [OF i] by simp
  have "sd_contract_id sm = accepted_id D ac" by (rule linked.at_id(2) [OF i signed(1)])
  then have now: "store_view e D key (fst w1) (sd_contract_id sm) = Some (Signed sc)"
    using linked.stored_at [OF signed(3)] ids signed(2) by simp
  have seen: "store_view e D key (fst w') = store_view e D key (fst w1)" "listed D (store_view e D key (fst w1)) Signed cs"
    using wp_run [OF linked.signed_law [OF signed(4)] run(3)] by auto
  have "c \<in> set cs" "accepted_id D (sc_accepted_contract c) = sd_contract_id sm"
    using run(4) by (auto simp: find_Some_iff)
  then have "store_view e D key (fst w1) (sd_contract_id sm) = Some (Signed c)"
    using seen(2) ids unfolding listed_def by force
  then have "c = sc" using now by simp
  with run(1,5) signed(1,2) now seen(1) show ?thesis
    by (intro exI [of _ sm] exI [of _ ac] exI [of _ sc]) (simp add: fund_txid_text_def)
qed

text \<open>
  C36. When the browser's \<open>countersign_and_broadcast\<close> succeeds, the contract of the sign message
  was accepted before and is signed now, and the text returned is the id of its funding
  transaction.
\<close>

theorem countersigned_contract:
  assumes "store_inv e D key (fst w)" "updater_ok (mg_updater N)"
    and "ji_manager self = stack_manager e D host key sk N"
    and "js_countersign_and_broadcast D jx self sign_json w = (Ok tid, w')"
  shows "\<exists>sm ac sc. jx_sign_of_json jx sign_json = Ok sm
    \<and> store_view e D key (fst w) (sd_contract_id sm) = Some (Accepted ac) \<and> sc_accepted_contract sc = ac
    \<and> store_view e D key (fst w') (sd_contract_id sm) = Some (Signed sc)
    \<and> tid = jx_txid_text jx (txid D (ac_fund ac))"
  by (rule countersign_run [OF assms])

lemma countersign_goes_through:
  assumes "store_inv e D key (fst w)" "updater_ok (mg_updater N)" "calm (Suc n) (fst w)"
    and "ji_manager self = stack_manager e D host key sk N"
    and "jx_sign_of_json jx sign_json = Ok sm"
    and "jx_node_id jx STATIC_COUNTERPARTY_NODE_ID = Ok (get_counter_party_id D (Accepted ac))"
    and "library_verifies N (encodes e D) ac sm" "store_view e D key (fst w) (sd_contract_id sm) = Some (Accepted ac)"
  shows "\<exists>tid w'. js_countersign_and_broadcast D jx self sign_json w = (Ok tid, w')"
proof -
  let ?M = "stack_manager e D host key sk N"
  have i: "store_inv e D key (fst w) \<and> updater_ok (mg_updater N)" using assms(1,2) by simp
  obtain w1 where w1: "on_sign_message D ?M sm (get_counter_party_id D (Accepted ac)) w = (Ok (), w1)"
    "store_inv e D key (fst w1) \<and> updater_ok (mg_updater N)" "calm n (fst w1)"
    by (rule live_linked.sign_live [OF i assms(3) library_lift(2) [OF assms(7)] assms(8) refl])
  obtain ac' sc where signed: "store_view e D key (fst w) (sd_contract_id sm) = Some (Accepted ac')"
    "sc_accepted_contract sc = ac'" "stored D (Signed sc) (store_view e D key (fst w)) (store_view e D key (fst w1))"
    by (rule linked.on_sign_run [OF i w1(1)])
  obtain r w2 where list: "as_get_signed_contracts (mg_store ?M) w1 = (r, w2)" by (rule prod.exhaust)
  have "is_ok r" using wp_run [OF live_linked.signed_calm [OF w1(2,3)] list] by simp
  then obtain cs where cs: "r = Ok cs" by (auto elim: is_ok.elims)
  have "listed D (store_view e D key (fst w1)) Signed cs" using wp_run [OF linked.signed_law [OF w1(2)] list] cs by simp
  then have "sc \<in> set cs" using linked.stored_at [OF signed(3)] by (auto simp: listed_def)
  moreover have "accepted_id D (sc_accepted_contract sc) = sd_contract_id sm"
    using linked.at_id(2) [OF i signed(1)] signed(2) by simp
  ultimately obtain c where "find (\<lambda>c. accepted_id D (sc_accepted_contract c) = sd_contract_id sm) cs = Some c"
    by (cases "find (\<lambda>c. accepted_id D (sc_accepted_contract c) = sd_contract_id sm) cs") (auto simp: find_None_iff)
  with w1(1) list cs assms(5,6)
  have "js_countersign_and_broadcast D jx self sign_json w = (Ok (fund_txid_text D jx (sc_accepted_contract c)), w2)"
    by (simp add: js_countersign_and_broadcast_def assms(4) io_defs)
  then show ?thesis by blast
qed

lemma demo_verifies:
  "library_verifies (demo_manager 0 0) (encodes ref_web ref_dlc) demo_accepted \<lparr>sd_contract_id = [2, 1], sd_rest = []\<rparr>"
  using demo_encoded(2)
  by (simp add: library_verifies_def demo_manager_def demo_updater_def succeeds_def ret_def encodes_def demo_signed_contract_def)

theorem countersigned_contract_witness:
  "\<exists>w' sc. js_countersign_and_broadcast ref_dlc demo_js demo_interface ''sign'' (demo_link_with (Accepted demo_accepted) 2, [])
       = (Ok (hex_str (txid ref_dlc demo_tx)), w')
     \<and> store_view ref_web ref_dlc ''k'' (fst w') [2, 1] = Some (Signed sc)"
proof -
  let ?w = "(demo_link_with (Accepted demo_accepted) 2, [])"
  have inv: "store_inv ref_web ref_dlc ''k'' (fst ?w)" using demo_with(1) [OF demo_encoded_accepted] by simp
  have id: "get_id ref_dlc (Accepted demo_accepted) = [2, 1]"
    by (simp add: ref_dlc_def ref_accepted_id_def demo_accepted_def demo_offer_def)
  have "store_view ref_web ref_dlc ''k'' (fst ?w) [2, 1] = Some (Accepted demo_accepted)"
    using demo_with(2) [OF demo_encoded_accepted, unfolded id] by simp
  moreover have "\<exists>tid w'. js_countersign_and_broadcast ref_dlc demo_js demo_interface ''sign'' ?w = (Ok tid, w')"
    by (rule countersign_goes_through [where n = 0, OF _ demo_updater_ok _ demo_interface_manager _ _ demo_verifies])
      (use inv demo_calm(2) calculation in \<open>simp_all add: demo_js_def ref_dlc_def demo_accepted_def demo_offer_def calm_def\<close>)
  then obtain tid w' where run: "js_countersign_and_broadcast ref_dlc demo_js demo_interface ''sign'' ?w = (Ok tid, w')" by blast
  ultimately show ?thesis
    using countersigned_contract [OF inv demo_updater_ok demo_interface_manager run] run
    by (auto simp: demo_js_def demo_accepted_def)
qed

section \<open>The balance\<close>

text \<open>
  C38. When \<open>get_wallet_balance\<close> succeeds, the wallet holds exactly the outputs of the refreshed
  cache, its key and address are unchanged, and the balance shown is the sum of the values of
  these outputs: exactly in a checked build, and else whenever that sum fits 64 bits.
\<close>

theorem balance_behind_outputs:
  assumes "js_get_wallet_balance chk D x self w = (Ok b, w')"
  shows "let us = jw_utxos (snd w'); total = sum_list (map (unat \<circ> ux_value) us) in
    cd_utxos (snd (fst w')) = Some us \<and> snd w' = (snd w)\<lparr>jw_utxos := us\<rparr> \<and> (chk \<or> total < 2 ^ 64 \<longrightarrow> unat b = total)"
proof -
  obtain us where us: "cd_utxos (snd (fst w')) = Some us" "snd w' = (snd w)\<lparr>jw_utxos := us\<rparr>" "(u64_sum chk (map ux_value us) :: (u64, dlc_error) outcome) = Ok b"
    using assms unfolding js_get_wallet_balance_def
    by (auto simp: Ok_runs lift_fst_def lift_snd_def on_part_def on_cache_def set_utxos_def get_utxos_def get_balance_def
        split: prod.splits option.splits)
  have "sum_list (map (unat \<circ> ux_value) us) < 2 ^ 64 \<Longrightarrow>
      (u64_sum chk (map ux_value us) :: (u64, dlc_error) outcome) = Ok (sum_list (map ux_value us))
        \<and> unat (sum_list (map ux_value us)) = sum_list (map (unat \<circ> ux_value) us)"
    "(u64_sum True (map ux_value us) :: (u64, dlc_error) outcome) = Ok b \<Longrightarrow> unat b = sum_list (map (unat \<circ> ux_value) us)"
    using u64_sum_nat [of "map ux_value us" chk] u64_sum_checked [of "map ux_value us"] by simp_all
  with us show ?thesis by (cases chk) (auto simp: Let_def)
qed

theorem balance_behind_outputs_witness:
  "\<exists>b w'. js_get_wallet_balance False ref_dlc demo_esplora demo_interface
       (((), new_chain_data), \<lparr>jw_address = [3], jw_seckey = [7], jw_utxos = []\<rparr>) = (Ok b, w')
     \<and> unat b = 5 \<and> jw_utxos (snd w') = [demo_utxo]"
proof -
  let ?run = "js_get_wallet_balance False ref_dlc demo_esplora demo_interface
       (((), new_chain_data), \<lparr>jw_address = [3], jw_seckey = [7], jw_utxos = []\<rparr>)"
  have parts: "ji_provider demo_interface = \<lparr>ep_host = ''h'', ep_network = ''n''\<rparr>" "jo_address (ji_options demo_interface) = []"
    by (simp_all add: demo_interface_def default_options_def)
  have "is_ok (fst ?run)" "jw_utxos (snd (snd ?run)) = [demo_utxo]"
    unfolding js_get_wallet_balance_def parts by code_simp+
  moreover obtain r w' where run: "?run = (r, w')" by (rule prod.exhaust)
  ultimately obtain b where b: "?run = (Ok b, w')" "jw_utxos (snd w') = [demo_utxo]" by (cases r) simp_all
  from balance_behind_outputs [OF b(1)] b(2) have "unat b = 5" by (auto simp: Let_def demo_utxo_def)
  with b show ?thesis by blast
qed

section \<open>Contract ids\<close>

text \<open>The library reads the first 32 bytes, and fails on fewer.\<close>

definition reads_id :: "'m js_ext \<Rightarrow> bool" where
  "reads_id jx \<longleftrightarrow> (\<forall>b. if 32 \<le> length b then jx_read_id jx b = Ok (take 32 b) else \<exists>t. jx_read_id jx b = Err t)"

definition ascii_digit :: "nat \<Rightarrow> nat" where
  "ascii_digit n = (if n < 10 then 48 + n else 87 + n)"

lemma hex_str_nth:
  assumes "j < length i"
  shows "unat (bytes_of (hex_str i) ! (2 * j)) = ascii_digit (unat (i ! j) div 16)"
    and "unat (bytes_of (hex_str i) ! (2 * j + 1)) = ascii_digit (unat (i ! j) mod 16)"
proof -
  have "drop (2 * j) (hex_str i) = byte_hex (i ! j) @ hex_str (drop (Suc j) i)"
    unfolding drop_hex_str using assms by (simp add: Cons_nth_drop_Suc [symmetric] hex_str_def)
  then have at: "hex_str i ! (2 * j) = hex_digit (unat (i ! j) div 16)" "hex_str i ! Suc (2 * j) = hex_digit (unat (i ! j) mod 16)"
    using assms nth_drop [of "2 * j" "hex_str i" 0] nth_drop [of "2 * j" "hex_str i" 1] by (simp_all add: byte_hex_def)
  have code: "unat (word_of_nat (of_char (hex_digit n)) :: u8) = ascii_digit n" if "n < 16" for n
    using that by (simp add: unat_byte_of_char hex_digit_def ascii_digit_def)
  show "unat (bytes_of (hex_str i) ! (2 * j)) = ascii_digit (unat (i ! j) div 16)"
    "unat (bytes_of (hex_str i) ! (2 * j + 1)) = ascii_digit (unat (i ! j) mod 16)"
    using assms code [OF unat_u8_nibbles(1)] code [OF unat_u8_nibbles(2)] by (simp_all add: bytes_of_def at)
qed

lemma ascii_digit_fixed: "n < 256 \<Longrightarrow> n = ascii_digit (n div 16) \<Longrightarrow> n = 51"
  by (auto simp: ascii_digit_def split: if_splits)

text \<open>Only one id survives being shown as text and read back from that text.\<close>

lemma read_back:
  assumes "length i = 32" "take 32 (bytes_of (hex_str i)) = i"
  shows "i = replicate 32 0x33"
proof -
  have at: "i ! k = bytes_of (hex_str i) ! k" if "k < 32" for k
    using assms(2) that by (metis nth_take)
  have "unat (i ! k) = 51" if "k < 32" for k
    using that
  proof (induction k rule: less_induct)
    case (less k)
    show ?case
    proof (cases "k = 0")
      case True
      then show ?thesis
        using at [of 0] hex_str_nth(1) [of 0 i] assms(1) unat_u8 [of "i ! 0"] by (intro ascii_digit_fixed) simp_all
    next
      case False
      then have half: "unat (i ! (k div 2)) = 51" using less by simp
      have "k = 2 * (k div 2) \<or> k = 2 * (k div 2) + 1" by arith
      then show ?thesis
        using at [OF less.prems] hex_str_nth [of "k div 2" i] half assms(1) less.prems by (auto simp: ascii_digit_def)
    qed
  qed
  then have "i ! k = 0x33" if "k < 32" for k
    using that by (simp add: word_unat_eq_iff)
  then show ?thesis using assms(1) by (intro nth_equalityI) simp_all
qed

text \<open>What the manager reads when it is handed the text of an id.\<close>

lemma misread_id:
  assumes "reads_id jx" "length i = 32" "i \<noteq> replicate 32 0x33"
  obtains i' where "jx_read_id jx (bytes_of (hex_str i)) = Ok i'" "i' \<noteq> i"
proof -
  have "length (bytes_of (hex_str i)) = 64" using assms(2) by (simp add: bytes_of_def)
  then have "jx_read_id jx (bytes_of (hex_str i)) = Ok (take 32 (bytes_of (hex_str i)))"
    using assms(1) unfolding reads_id_def by (metis le_add1 numeral_Bit0)
  with that read_back [OF assms(2)] assms(3) show thesis by blast
qed

text \<open>
  C37. The id that the browser wallet shows for a contract does not lead back to that contract:
  for every id of 32 bytes but one, rejecting the contract by the text shown leaves it as it was,
  and fetching it by that text never answers with it.
\<close>

theorem listed_id_misread:
  assumes "store_inv e D key (fst w)" "updater_ok (mg_updater N)" "reads_id jx"
    and "ji_manager self = stack_manager e D host key sk N"
    and "store_view e D key (fst w) i = Some c" "length i = 32" "i \<noteq> replicate 32 0x33"
    and "from_contract D jx c = Ok jc"
  shows "store_view e D key (fst (snd (js_reject_offer D jx self (jc_id jc) w))) i = Some c
    \<and> fst (js_get_contract D jx self (jc_id jc) w) \<noteq> Ok (js_contract_json jc)"
proof
  let ?M = "stack_manager e D host key sk N"
  have I: "store_inv e D key (fst w) \<and> updater_ok (mg_updater N)" using assms(1,2) by simp
  have jc: "jc_id jc = hex_str i" using assms(8) linked.view_id [OF I assms(5)] by (auto simp: from_contract_def)
  obtain i' where i': "jx_read_id jx (bytes_of (hex_str i)) = Ok i'" "i' \<noteq> i" by (rule misread_id [OF assms(3,6,7)])
  have same_id: "get_id D (Rejected oc) = get_id D (Offered oc)" for oc
    using linked.library [OF I] by simp
  let ?view = "\<lambda>w'. store_view e D key (fst w') i = Some c"
  have rejected: "wp (as_update_contract (mg_store ?M) (Rejected oc)) (\<lambda>_. ?view) w1"
    if "store_inv e D key (fst w1) \<and> updater_ok (mg_updater N)" "?view w1" "store_view e D key (fst w1) i' = Some (Offered oc)" for w1 oc
    using linked.update_elsewhere [OF that(1), of "Rejected oc" i] linked.view_id [OF that(1,3)] same_id i'(2) that(2)
    by (simp add: wp_def)
  note seen = linked.get_law [OF I, where i = i']
  have "wp (js_reject_offer D jx self (hex_str i)) (\<lambda>_. ?view) w"
    unfolding js_reject_offer_def assms(4) wp_simps i'(1) outcome.case
    by (rule wp_mono [OF seen])
      (use assms(5) in \<open>auto simp: wp_simps intro!: rejected split: outcome.split option.split dlc_contract.split\<close>)
  then show "store_view e D key (fst (snd (js_reject_offer D jx self (jc_id jc) w))) i = Some c"
    unfolding jc by (rule wp_run) (rule prod.collapse [symmetric])
  have "wp (js_get_contract D jx self (hex_str i)) (\<lambda>r _. r \<noteq> Ok (js_contract_json jc)) w"
    unfolding js_get_contract_def assms(4) wp_simps i'(1) outcome_map_err.simps outcome.case
    by (rule wp_mono [OF seen])
      (use i'(2) linked.view_id [OF I] in
        \<open>auto simp: wp_simps from_contract_def js_contract_json_def jc hex_str_inj split: outcome.split option.split\<close>)
  then show "fst (js_get_contract D jx self (jc_id jc) w) \<noteq> Ok (js_contract_json jc)"
    unfolding jc by (rule wp_run) (rule prod.collapse [symmetric])
qed

lemma demo_long:
  "encode_contract ref_web ref_dlc (Offered demo_long_offer) = Ok (text_of [1, 0])" "get_id ref_dlc (Offered demo_long_offer) = replicate 32 1"
  by (simp_all add: encode_contract_def serialize_contract_def get_prefix_def) (simp_all add: ref_dlc_def demo_long_offer_def)

theorem listed_id_misread_witness:
  "let w = (demo_link_holding (Offered demo_long_offer) [1, 0], []); t = hex_str (replicate 32 1)
   in store_view ref_web ref_dlc ''k'' (fst (snd (js_reject_offer ref_dlc demo_js demo_interface t w))) (replicate 32 1)
        = Some (Offered demo_long_offer)"
proof -
  note with' = demo_with [OF demo_long(1), unfolded demo_long(2)]
  have reads: "reads_id demo_js" by (simp add: reads_id_def demo_js_def)
  obtain jc where jc: "from_contract ref_dlc demo_js (Offered demo_long_offer) = Ok jc" "jc_id jc = hex_str (replicate 32 1)"
    by (simp add: from_contract_def demo_long(2))
  show ?thesis
    using listed_id_misread [where w = "(demo_link_holding (Offered demo_long_offer) [1, 0], [])" and i = "replicate 32 1",
        OF _ demo_updater_ok reads demo_interface_manager _ _ _ jc(1)] with' jc(2) by simp
qed

end
