(* ===== verification/Key_Tools.thy ===== *)
theory Key_Tools
  imports Router_Props Ref_Oracle
begin

text \<open>
  \<open>wallet/src/bin\<close>: the three command line tools that make a key for the router or show the
  address of one. Each reads its environment and prints one JSON object; its other outcomes are
  panics. Mnemonics, key formats and addresses are the libraries' and parameters.
\<close>

section \<open>The libraries\<close>

record key_ext =
  kx_generate :: "bytes option"
  kx_words :: "bytes \<Rightarrow> string list"
  kx_into_xprv :: "bytes \<Rightarrow> string \<Rightarrow> bytes option"
  kx_xprv_text :: "bytes \<Rightarrow> string"
  kx_address_text :: "bytes \<Rightarrow> string"
  kx_pubkey_text :: "bytes \<Rightarrow> string"
  kx_hex_decode :: "string \<Rightarrow> bytes option"
  kx_seckey_debug :: "bytes \<Rightarrow> string"
  kx_p2wpkh :: "bytes \<Rightarrow> string \<Rightarrow> bytes option"

section \<open>Making a key\<close>

text \<open>The words of a mnemonic are ASCII letters, so \<open>trim\<close> only meets ASCII white space.\<close>

definition white_space :: "char \<Rightarrow> bool" where
  "white_space c \<longleftrightarrow> c = CHR '' '' \<or> 9 \<le> (of_char c :: nat) \<and> (of_char c :: nat) \<le> 13"

definition str_trim :: "string \<Rightarrow> string" where
  "str_trim s = rev (dropWhile white_space (rev (dropWhile white_space s)))"

definition mnemonic_phrase :: "string list \<Rightarrow> string" where
  "mnemonic_phrase ws = str_trim (fold (\<lambda>w phrase. phrase @ w @ '' '') ws [])"

text \<open>The first address below an extended key and the secret key behind it.\<close>

definition first_address :: "oracle_ext \<Rightarrow> 'w start_ext \<Rightarrow> bytes \<Rightarrow> string \<Rightarrow> (bytes \<times> bytes, 'e) outcome" where
  "first_address X sx xprv network =
     outcome_bind (expect (path_from_str X ''m/44h/0h/0h/0'')) (\<lambda>external_derivation_path.
     outcome_bind (expect (se_static_address sx xprv (external_derivation_path @ [(0, False)]) network)) (\<lambda>address.
     outcome_bind (expect (derive_priv X xprv (external_derivation_path @ [(0, False), (0, False)]))) (\<lambda>secret_key.
     Ok (address, secret_key))))"

definition generate_key :: "oracle_ext \<Rightarrow> 'w start_ext \<Rightarrow> key_ext \<Rightarrow> (json, 'e) outcome" where
  "generate_key X sx kx =
     outcome_bind (bitcoin_network (se_env sx ''BITCOIN_NETWORK'')) (\<lambda>network.
     outcome_bind (expect (kx_generate kx)) (\<lambda>mnemonic.
     outcome_bind (expect (kx_into_xprv kx mnemonic network)) (\<lambda>xprv.
     let fingerprint = se_fingerprint sx xprv;
         phrase = mnemonic_phrase (kx_words kx mnemonic)
     in outcome_bind (first_address X sx xprv network) (\<lambda>(address, secret_key).
        Ok (JObj [(''mnemonic'', JStr phrase), (''xprv'', JStr (kx_xprv_text kx xprv)), (''fingerprint'', JStr fingerprint),
          (''secret_key'', JStr (sk_to_string X secret_key)), (''public_key'', JStr (kx_pubkey_text kx secret_key)),
          (''network'', JStr network), (''address'', JStr (kx_address_text kx address))])))))"

section \<open>The address of a key\<close>

definition generate_address_from_xkey :: "oracle_ext \<Rightarrow> 'w start_ext \<Rightarrow> key_ext \<Rightarrow> (json, 'e) outcome" where
  "generate_address_from_xkey X sx kx =
     outcome_bind (bitcoin_network (se_env sx ''BITCOIN_NETWORK'')) (\<lambda>network.
     outcome_bind (expect (se_env sx ''XPKEY'')) (\<lambda>xpriv_str.
     outcome_bind (expect (xpriv_from_str X xpriv_str)) (\<lambda>xpriv.
     outcome_bind (first_address X sx xpriv network) (\<lambda>(address, secret_key).
     Ok (JObj [(''derviced_private_key'', JStr (sk_to_string X secret_key)),
       (''derived_public_key'', JStr (kx_pubkey_text kx secret_key)), (''network'', JStr network),
       (''address'', JStr (kx_address_text kx address))])))))"

text \<open>This tool prints three lines before its object, all of them here.\<close>

definition generate_address_from_key ::
  "oracle_ext \<Rightarrow> 'w start_ext \<Rightarrow> key_ext \<Rightarrow> (string list \<times> json, 'e) outcome" where
  "generate_address_from_key X sx kx =
     outcome_bind (bitcoin_network (se_env sx ''BITCOIN_NETWORK'')) (\<lambda>network.
     outcome_bind (expect (se_env sx ''PKEY'')) (\<lambda>pkey.
     outcome_bind (expect (kx_hex_decode kx pkey)) (\<lambda>slice.
     outcome_bind (if seckey_valid X slice then Ok slice else Panic) (\<lambda>seckey.
     let pubkey = kx_pubkey_text kx seckey
     in outcome_bind (expect (kx_p2wpkh kx seckey network)) (\<lambda>address.
        Ok ([''Secret Key: '' @ kx_seckey_debug kx seckey, '' Pubkey: '' @ pubkey, ''another Pubkey: '' @ pubkey],
          JObj [(''public_key'', JStr pubkey), (''network'', JStr network),
            (''address'', JStr (kx_address_text kx address))]))))))"

section \<open>A generated key starts the router\<close>

lemma setup_first_address:
  "first_address X sx xprv network = Ok (address, sk) \<Longrightarrow>
     setup_wallets X sx xprv network = Ok (se_pubkey_text sx sk, address, sk)"
  by (auto simp: setup_wallets_def first_address_def)

text \<open>The tools and the router derive the same way whatever else is in their environment.\<close>

lemma first_address_env: "first_address X (sx\<lparr>se_env := env\<rparr>) = first_address X sx"
  by (simp add: first_address_def fun_eq_iff)

text \<open>
  C40. A key printed by \<open>generate-key\<close>, put into \<open>XPRIV\<close> and \<open>FINGERPRINT\<close>, is accepted by the router,
  which then uses the printed secret key and address; \<open>generate-address-from-xkey\<close> shows the same.
\<close>

theorem generated_key_accepted:
  assumes "generate_key X sx kx = (Ok out :: (json, string) outcome)"
    and "\<forall>m n x. kx_into_xprv kx m n = Some x \<longrightarrow> xpriv_from_str X (kx_xprv_text kx x) = Some x"
    and "env ''XPRIV'' = as_str (json_index out ''xprv'')" "env ''FINGERPRINT'' = as_str (json_index out ''fingerprint'')"
    and "env ''XPKEY'' = env ''XPRIV''" "env ''BITCOIN_NETWORK'' = se_env sx ''BITCOIN_NETWORK''"
    and "\<forall>v \<in> {''BLOCKCHAIN_INTERFACE_URL'', ''STORAGE_API_ENDPOINT'', ''ELECTRUM_API_URL''}. env v \<noteq> None"
  shows "\<exists>c address sk j. read_config X (sx\<lparr>se_env := env\<rparr>) = Ok c
    \<and> setup_wallets X (sx\<lparr>se_env := env\<rparr>) (st_xpriv c) (st_active_network c) = Ok (se_pubkey_text sx sk, address, sk)
    \<and> json_index out ''secret_key'' = JStr (sk_to_string X sk) \<and> json_index out ''address'' = JStr (kx_address_text kx address)
    \<and> generate_address_from_xkey X (sx\<lparr>se_env := env\<rparr>) kx = (Ok j :: (json, string) outcome)
    \<and> json_index j ''derviced_private_key'' = json_index out ''secret_key'' \<and> json_index j ''address'' = json_index out ''address''"
proof -
  obtain n m x a sk where run: "bitcoin_network (se_env sx ''BITCOIN_NETWORK'') = (Ok n :: (string, string) outcome)"
    "kx_generate kx = Some m" "kx_into_xprv kx m n = Some x" "first_address X sx x n = (Ok (a, sk) :: (bytes \<times> bytes, string) outcome)"
    and out: "out = JObj [(''mnemonic'', JStr (mnemonic_phrase (kx_words kx m))), (''xprv'', JStr (kx_xprv_text kx x)),
       (''fingerprint'', JStr (se_fingerprint sx x)), (''secret_key'', JStr (sk_to_string X sk)),
       (''public_key'', JStr (kx_pubkey_text kx sk)), (''network'', JStr n), (''address'', JStr (kx_address_text kx a))]"
    using assms(1) by (auto simp: generate_key_def Let_def)
  have env: "env ''XPRIV'' = Some (kx_xprv_text kx x)" "env ''FINGERPRINT'' = Some (se_fingerprint sx x)"
    "xpriv_from_str X (kx_xprv_text kx x) = Some x"
    using assms(2-4) run(3) by (simp_all add: out)
  obtain u1 u2 u3 where "env ''BLOCKCHAIN_INTERFACE_URL'' = Some u1" "env ''STORAGE_API_ENDPOINT'' = Some u2" "env ''ELECTRUM_API_URL'' = Some u3"
    using assms(7) by auto
  then have "read_config X (sx\<lparr>se_env := env\<rparr>) = Ok \<lparr>st_blockchain_interface_url = u1, st_xpriv = x, st_storage_api_url = u2,
      st_electrs_host = u3, st_active_network = n\<rparr>"
    using env run(1) assms(6) by (simp add: read_config_def)
  then show ?thesis
    using env run(1,4) assms(5,6)
    by (auto simp: setup_first_address first_address_env generate_address_from_xkey_def out)
qed

definition demo_keys :: key_ext where
  "demo_keys = \<lparr>kx_generate = Some [1, 2], kx_words = (\<lambda>_. [''zoo'', ''act'']), kx_into_xprv = (\<lambda>m _. Some m), kx_xprv_text = text_of,
     kx_address_text = hex_str, kx_pubkey_text = hex_str, kx_hex_decode = (\<lambda>_. None), kx_seckey_debug = hex_str,
     kx_p2wpkh = (\<lambda>k _. Some k)\<rparr>"

definition demo_env :: "string \<Rightarrow> string option" where
  "demo_env v = (if v = ''BITCOIN_NETWORK'' then Some ''regtest'' else if v = ''FINGERPRINT'' then Some ''f''
     else if v \<in> {''XPRIV'', ''XPKEY''} then Some (text_of [1, 2]) else Some ''url'')"

definition demo_start :: "transaction list start_ext" where
  "demo_start = \<lparr>se_env = demo_env, se_fingerprint = (\<lambda>_. ''f''), se_static_address = (\<lambda>k _ _. Some k), se_pubkey_text = hex_str,
     se_store = (\<lambda>_ _ _. null_storage), se_blockchain = (\<lambda>_ _. mg_blockchain (demo_manager 0 0)), se_get_height = (\<lambda>_. ret 0),
     se_import_address = (\<lambda>_ _. ret ()), se_updater = demo_updater, se_http_get_json = (\<lambda>_. panic), se_client_builder = None,
     se_order = (\<lambda>n. [0..<n])\<rparr>"

theorem generated_key_accepted_witness:
  "\<exists>c address sk. read_config ref_oracle demo_start = Ok c
     \<and> setup_wallets ref_oracle demo_start (st_xpriv c) (st_active_network c) = Ok (se_pubkey_text demo_start sk, address, sk)
     \<and> sk_to_string ref_oracle sk = ''0102''"
proof -
  define out where "out = JObj [(''mnemonic'', JStr ''zoo act''), (''xprv'', JStr (text_of [1, 2])), (''fingerprint'', JStr ''f''),
    (''secret_key'', JStr ''0102''), (''public_key'', JStr ''0102''), (''network'', JStr ''regtest''), (''address'', JStr ''0102'')]"
  have "demo_start\<lparr>se_env := demo_env\<rparr> = demo_start" by (simp add: demo_start_def)
  moreover have "generate_key ref_oracle demo_start demo_keys = (Ok out :: (json, string) outcome)"
    unfolding out_def by code_simp
  ultimately show ?thesis
    using generated_key_accepted [where X = ref_oracle and sx = demo_start and kx = demo_keys and env = demo_env and out = out]
    by (simp add: demo_keys_def ref_oracle_def demo_env_def out_def) (auto simp: demo_start_def demo_env_def)
qed

end
