(* ===== verification/Store_Apart.thy ===== *)
theory Store_Apart
  imports Provider_Store
begin

text \<open>
  Wallets that share the storage service: a provider changes no contract of another key and no
  event, whatever the network loses and the database answers. The relation \<open>apart\<close> says so of two
  states of the link; every call of the provider respects it.
\<close>

section \<open>What a wallet leaves alone\<close>

definition apart :: "web_ext \<Rightarrow> string \<Rightarrow> link \<Rightarrow> link \<Rightarrow> bool" where
  "apart e key w w' \<longleftrightarrow> (web_ok e \<and> link_ok w \<longrightarrow> link_ok w' \<and> event_view (link_pg w') = event_view (link_pg w)
     \<and> (\<forall>k u. k \<noteq> key \<longrightarrow> contract_view (link_pg w') (k, u) = contract_view (link_pg w) (k, u)))"

lemma apart_order: "reflp (apart e key)" "transp (apart e key)"
  by (auto simp: apart_def reflp_def transp_def)

lemma apart_view:
  assumes "apart e key w w'" "store_inv e D k w" "k \<noteq> key"
  shows "store_inv e D k w'" "store_view e D k w' = store_view e D k w"
proof -
  have "link_ok w'" "contract_view (link_pg w') (k, u) = contract_view (link_pg w) (k, u)" for u
    using assms store_invD(1,3) [OF assms(2)] unfolding apart_def by blast+
  with assms(2) show "store_inv e D k w'" "store_view e D k w' = store_view e D k w"
    by (simp_all add: store_inv_def store_view_def rows_ok_def stored_contracts_def fun_eq_iff)
qed

text \<open>One operation of the client, from its law and the frame of its statement.\<close>

lemma op_apart:
  assumes "moves kept m"
    and law: "\<And>w. web_ok e \<Longrightarrow> link_ok w \<Longrightarrow> wp m (\<lambda>r w'. lost w r w' \<or> ran st shown w r w') w"
    and frame: "\<And>c res c' k u. pg_ok c \<Longrightarrow> st c = (res, c') \<Longrightarrow> k \<noteq> key \<Longrightarrow>
       contract_view c' (k, u) = contract_view c (k, u)"
    and events: "moves (\<lambda>c c'. event_view c' = event_view c) st"
  shows "moves (apart e key) m"
  unfolding moves_wp
proof
  fix w
  show "wp m (\<lambda>_. apart e key w) w"
  proof (cases "web_ok e \<and> link_ok w")
    case True
    then have pg: "pg_ok (link_pg w)" by (simp add: link_ok_def link_pg_def srv_ok_def)
    have "apart e key w w'" if "link_ok w'" "lost w r w' \<or> ran st shown w r w'" for r w'
      using that frame [OF pg] events unfolding apart_def lost_def ran_def by (auto dest: movesD)
    with True show ?thesis by (intro wp_mono [OF wp_kept [OF assms(1) _ law]]) auto
  qed (auto simp: apart_def wp_def)
qed

lemma client_apart:
  "nc_key nc = key \<Longrightarrow> moves (apart e key) (client_create_contract e (link_client e host) nc sk)"
  "uc_key uc = key \<Longrightarrow> moves (apart e key) (client_update_contract e (link_client e host) uc sk)"
  "ccr_key cr = key \<Longrightarrow> moves (apart e key) (client_delete_contract e (link_client e host) cr sk)"
  "moves (apart e key) (client_get_contract e (link_client e host) cr sk)"
  "moves (apart e key) (client_get_contracts e (link_client e host) q sk)"
proof -
  show "nc_key nc = key \<Longrightarrow> moves (apart e key) (client_create_contract e (link_client e host) nc sk)"
    by (rule op_apart [OF client_kept(1) client_create_contract_law]) (auto simp: contract_ops_frame contracts_tbl.frame(1))
  show "uc_key uc = key \<Longrightarrow> moves (apart e key) (client_update_contract e (link_client e host) uc sk)"
    by (rule op_apart [OF client_kept(2) client_update_contract_law]) (auto simp: contract_ops_frame contracts_tbl.frame(2))
  show "ccr_key cr = key \<Longrightarrow> moves (apart e key) (client_delete_contract e (link_client e host) cr sk)"
    by (rule op_apart [OF client_kept(3) client_delete_contract_law]) (auto simp: contract_ops_frame contracts_tbl.frame(3))
  show "moves (apart e key) (client_get_contract e (link_client e host) cr sk)"
    by (rule op_apart [OF client_kept(4) client_get_contract_law])
      (auto simp: contract_ops_frame select_contract_def dest: wp_run [OF get_contracts_law])
  show "moves (apart e key) (client_get_contracts e (link_client e host) q sk)"
    by (rule op_apart [OF get_contracts_kept client_get_contracts_law])
      (auto simp: contract_ops_frame dest: wp_run [OF get_contracts_law])
qed

section \<open>The calls of the provider\<close>

lemmas apart_moves = moves_intros [of "apart e key" for e key] apart_order client_apart

lemma provider_apart:
  assumes "p = link_provider e host key sk"
  shows "moves (apart e key) (provider_get_contract e D p i)" "moves (apart e key) (provider_list e D p s)"
    "moves (apart e key) (provider_create_contract e D p oc)" "moves (apart e key) (provider_delete_contract e p i)"
    "moves (apart e key) (provider_update_contract e D p c)"
  unfolding assms provider_get_contract_def provider_list_def provider_create_contract_def provider_delete_contract_def
    provider_update_contract_def update_row_def create_row_def AsyncStorageApiProvider.simps
  by (intro apart_moves; auto intro!: apart_moves split: option.split)+

lemma storage_apart:
  "moves (apart e key) (as_get_contract (provider_storage e D (link_provider e host key sk)) i)"
  "moves (apart e key) (as_create_contract (provider_storage e D (link_provider e host key sk)) oc)"
  "moves (apart e key) (as_update_contract (provider_storage e D (link_provider e host key sk)) c)"
  "moves (apart e key) (as_get_signed_contracts (provider_storage e D (link_provider e host key sk)))"
  "moves (apart e key) (as_get_confirmed_contracts (provider_storage e D (link_provider e host key sk)))"
  "moves (apart e key) (as_get_preclosed_contracts (provider_storage e D (link_provider e host key sk)))"
  unfolding provider_storage_def async_storage.simps provider_signed_def provider_confirmed_def provider_preclosed_def
    get_contracts_by_state_def
  by (intro apart_moves provider_apart [OF refl])+

end
