(* ===== verification/Dlc_Apart.thy ===== *)
theory Dlc_Apart
  imports Dlc_Props Store_Apart
begin

text \<open>
  A relation between worlds that the store and the surroundings of a manager respect is respected
  by every call of the manager: the locale \<open>manager_relation\<close>. Interpreted for \<open>apart\<close>, it gives the
  isolation of wallets that share one storage service.
\<close>

section \<open>Calls of the manager along a relation\<close>

locale manager_relation = surroundings_relation R M
  for R :: "'w \<Rightarrow> 'w \<Rightarrow> bool" and M :: "'w Manager" +
  assumes R_store: "moves R (as_get_contract (mg_store M) i)" "moves R (as_create_contract (mg_store M) oc)"
      "moves R (as_update_contract (mg_store M) c)" "moves R (as_get_signed_contracts (mg_store M))"
      "moves R (as_get_confirmed_contracts (mg_store M))" "moves R (as_get_preclosed_contracts (mg_store M))"
begin

lemmas manager_moves = outside_moves R_store import_moves

lemma in_state_moves: "moves R (get_contract_in_state D M i st sel peer)"
  unfolding get_contract_in_state_def by (intro manager_moves)

lemma send_offer_moves: "moves R (send_offer M ci cp delay bp fee)"
proof (cases "mg_oracles M")
  case (Some os)
  have found: "moves R (and_then (of_outcome (outcome_collect (find_oracles os) (cin_contract_infos ci))) f)"
    if "\<And>found. outcome_collect (find_oracles os) (cin_contract_infos ci) = Ok found \<Longrightarrow> moves R (f found)" for f
    using that R_order(1) by (cases "outcome_collect (find_oracles os) (cin_contract_infos ci)")
      (simp_all add: moves_def of_outcome_def and_then_def reflp_def)
  note checked = moves_and_then [OF R_order(2) moves_of_outcome [OF R_order(1)]]
  show ?thesis
    unfolding send_offer_def Some option.case
    by (rule checked, rule checked, rule found, intro manager_moves announcements_move [OF Some])
qed (simp add: send_offer_def moves_throw R_order)

lemma on_offer_moves: "moves R (on_offer_message M o' cp)"
  unfolding on_offer_message_def by (intro manager_moves)

lemma accept_offer_moves: "moves R (accept_contract_offer D M i)"
  unfolding accept_contract_offer_def by (intro manager_moves in_state_moves)

lemma on_accept_moves: "moves R (on_accept_message D M am cp)"
  unfolding on_accept_message_def accept_fail_on_error_def by (intro manager_moves in_state_moves)

lemma on_sign_moves: "moves R (on_sign_message D M sm cp)"
  unfolding on_sign_message_def sign_fail_on_error_def by (intro manager_moves in_state_moves)

lemma on_message_moves: "moves R (on_dlc_message D M msg cp)"
  by (cases msg) (auto intro!: manager_moves on_offer_moves on_accept_moves on_sign_moves)

lemma check_loop_moves: "(\<And>c. moves R (check c)) \<Longrightarrow> moves R (check_loop D skip acc check cs)"
  by (induction cs) (auto intro!: manager_moves)

lemma refund_moves: "moves R (check_refund D M sc)"
  unfolding check_refund_def get_unixtime_def get_json_def Let_def by (intro manager_moves)

lemma periodic_moves: "moves R (periodic_check D M)"
  unfolding periodic_check_def check_signed_contracts_def check_confirmed_contracts_def check_preclosed_contracts_def
    check_signed_contract_def check_confirmed_contract_def check_preclosed_contract_def close_contract_def Let_def
  by (intro manager_moves check_loop_moves closable_moves refund_moves)

end

section \<open>Wallets that share the service\<close>

lemma moves_at: "moves R m \<Longrightarrow> R w (snd (m w))"
  by (simp add: moves_def)

lemma lift_apart: "moves R m \<Longrightarrow> moves (\<lambda>w w'. R (fst w) (fst w')) (lift_fst m)"
  by (auto simp: moves_def lift_fst_def on_part_def split: prod.split) (metis snd_conv)

interpretation shared: manager_relation "\<lambda>w w'. apart e key (fst w) (fst w')" "stack_manager e D host key sk N"
  for e key D host sk and N :: "'o Manager"
proof
  let ?R = "\<lambda>w w' :: link \<times> 'o. apart e key (fst w) (fst w')" and ?p = "link_provider e host key sk"
  show order: "reflp ?R" "transp ?R" using apart_order by (auto simp: reflp_def transp_def)
  show "surroundings_move ?R (stack_manager e D host key sk N)"
    using order(1) by (auto simp: surroundings_move_def link_manager_def lift_oracle_def lift_blockchain_def lift_updater_def
        Let_def moves_def lift_snd_def on_part_def reflp_def split: prod.split)
  have store: "mg_store (stack_manager e D host key sk N) = lift_storage (provider_storage e D ?p)"
    by (simp add: link_manager_def)
  show "moves ?R (as_get_contract (mg_store (stack_manager e D host key sk N)) i)"
    "moves ?R (as_create_contract (mg_store (stack_manager e D host key sk N)) oc)"
    "moves ?R (as_update_contract (mg_store (stack_manager e D host key sk N)) c)"
    "moves ?R (as_get_signed_contracts (mg_store (stack_manager e D host key sk N)))"
    "moves ?R (as_get_confirmed_contracts (mg_store (stack_manager e D host key sk N)))"
    "moves ?R (as_get_preclosed_contracts (mg_store (stack_manager e D host key sk N)))" for i oc c
    unfolding store lift_storage_simps by (intro lift_apart storage_apart)+
qed

text \<open>
  C2. Whatever the managers of one wallet do on the shared storage service, under any losses and
  faults, no contract of a wallet with another key changes, and no event of an attestor does.
\<close>

theorem other_wallets_untouched:
  assumes "store_inv e D key' (fst w)" "key' \<noteq> key"
  shows "let w' = fold (manager_effect D (stack_manager e D host key sk N)) calls w in
    store_inv e D key' (fst w') \<and> store_view e D key' (fst w') = store_view e D key' (fst w)
    \<and> event_view (link_pg (fst w')) = event_view (link_pg (fst w))"
proof -
  let ?M = "stack_manager e D host key sk N"
  have one: "apart e key (fst w) (fst (manager_effect D ?M call w))" for call w
    by (cases call) (simp_all add: moves_at [OF shared.on_message_moves] moves_at [OF shared.send_offer_moves]
        moves_at [OF shared.accept_offer_moves] moves_at [OF shared.periodic_moves])
  have "apart e key (fst w) (fst (fold (manager_effect D ?M) calls w))"
  proof (induction calls arbitrary: w)
    case Nil
    then show ?case by (simp add: reflpD [OF apart_order(1)])
  next
    case (Cons call calls)
    show ?case using transpD [OF apart_order(2) one Cons.IH] by simp
  qed
  with apart_view [OF this assms] store_invD(1,3) [OF assms(1)] show ?thesis by (simp add: apart_def Let_def)
qed

theorem other_wallets_untouched_witness:
  "let w' = fold (manager_effect ref_dlc (stack_manager ref_web ref_dlc ''h'' ''k2'' [9] (demo_manager 6 600)))
       [PeriodicCheck, AcceptOffer [1], HandleMessage (SignMsg \<lparr>sd_contract_id = [2, 1], sd_rest = []\<rparr>) [3]]
       (demo_link_with (Signed demo_signed_contract) 3, [])
   in store_view ref_web ref_dlc ''k'' (fst w') [2, 1] = Some (Signed demo_signed_contract)"
proof -
  have id: "get_id ref_dlc (Signed demo_signed_contract) = [2, 1]"
    by (simp add: ref_dlc_def ref_accepted_id_def demo_signed_contract_def demo_accepted_def demo_offer_def)
  note stored = demo_with [OF demo_encoded(2), unfolded id]
  have "store_inv ref_web ref_dlc ''k'' (fst (demo_link_with (Signed demo_signed_contract) 3, []))" using stored(1) by simp
  from other_wallets_untouched [OF this, where key = "''k2''" and host = "''h''" and sk = "[9]" and N = "demo_manager 6 600"
      and calls = "[PeriodicCheck, AcceptOffer [1], HandleMessage (SignMsg \<lparr>sd_contract_id = [2, 1], sd_rest = []\<rparr>) [3]]"]
    stored(2) show ?thesis by (simp add: Let_def)
qed

end
