(* ===== verification/Dlc_Overlap.thy ===== *)
theory Dlc_Overlap
  imports Live_Manager Dlc_Props
begin

text \<open>
  Periodic checks that overlap. A check lists the signed contracts, asks the chain about each, and
  writes the ones that are deep enough; nothing keeps a second check from running in between, since
  the router spawns one task per request and the browser wallet hands out promises. The write does
  not look at what is stored by then.
\<close>

section \<open>A confirmation that goes through\<close>

context live_manager begin

lemma confirm_live:
  assumes "inv w" "calm_for (Suc n) w" "storable (Confirmed sc)" "view w (accepted_id D (sc_accepted_contract sc)) \<noteq> None"
    and "succeeds (bc_confirmations (mg_blockchain M) (txid D (ac_fund (sc_accepted_contract sc)))) (\<lambda>k. NB_CONFIRMATIONS \<le> k)"
  obtains w' where "check_signed_contract D M sc w = (Ok True, w')" "stored D (Confirmed sc) (view w) (view w')"
    "inv w'" "calm_for n w'"
proof -
  have id: "get_id D (Confirmed sc) = accepted_id D (sc_accepted_contract sc)" using library [OF assms(1)] by simp
  obtain k w1 where k: "bc_confirmations (mg_blockchain M) (txid D (ac_fund (sc_accepted_contract sc))) w = (Ok k, w1)"
    "NB_CONFIRMATIONS \<le> k" "inv w1" "view w1 = view w" "calm_for (Suc n) w1"
    by (rule outside_run [OF frame_calls(3) calm_calls(3) assms(5,1,2)])
  obtain w2 where "as_update_contract (mg_store M) (Confirmed sc) w1 = (Ok (), w2)" "stored D (Confirmed sc) (view w1) (view w2)"
    "inv w2" "calm_for n w2"
    by (rule update_calm_run [OF k(3,5) assms(3)]) (use assms(4) k(4) id in simp_all)
  with that k(1,2,4) show thesis by (simp add: check_signed_contract_def io_defs)
qed

end

section \<open>A check that is late\<close>

definition spent_or_refunded :: "dlc_contract \<Rightarrow> bool" where
  "spent_or_refunded c \<longleftrightarrow> (case c of PreClosed _ \<Rightarrow> True | Closed _ \<Rightarrow> True | Refunded _ \<Rightarrow> True | _ \<Rightarrow> False)"

lemma no_way_back: "(check_step D)\<^sup>*\<^sup>* c c' \<Longrightarrow> spent_or_refunded c \<Longrightarrow> spent_or_refunded c'"
proof (induction rule: rtranclp_induct)
  case (step c' c'')
  then show ?case by (cases c') (auto simp: check_step_from spent_or_refunded_def)
qed

text \<open>
  C11. A check that saw a contract signed, and gets to it after another check has pre-closed, closed
  or refunded it, writes it back as confirmed: with a calm store and six confirmations of the
  funding transaction the write succeeds, and it is no move the life cycle of a contract allows.
\<close>

theorem stale_check_regresses:
  assumes "store_inv e D key (fst w)" "updater_ok (mg_updater N)" "calm 1 (fst w)" "encodes e D (Confirmed sc)"
    and "store_view e D key (fst w) (accepted_id D (sc_accepted_contract sc)) = Some c" "spent_or_refunded c"
    and "succeeds (bc_confirmations (mg_blockchain N) (txid D (ac_fund (sc_accepted_contract sc)))) (\<lambda>k. NB_CONFIRMATIONS \<le> k)"
  shows "\<exists>w'. check_signed_contract D (stack_manager e D host key sk N) sc w = (Ok True, w')
    \<and> store_view e D key (fst w') (accepted_id D (sc_accepted_contract sc)) = Some (Confirmed sc)
    \<and> \<not> (check_step D)\<^sup>*\<^sup>* c (Confirmed sc)"
proof -
  let ?M = "stack_manager e D host key sk N"
  have i: "store_inv e D key (fst w) \<and> updater_ok (mg_updater N)" using assms(1,2) by simp
  have chain: "succeeds (bc_confirmations (mg_blockchain ?M) (txid D (ac_fund (sc_accepted_contract sc)))) (\<lambda>k. NB_CONFIRMATIONS \<le> k)"
    using assms(7) by (simp add: link_manager_def lift_blockchain_def succeeds_lift)
  obtain w' where run: "check_signed_contract D ?M sc w = (Ok True, w')"
    "stored D (Confirmed sc) (store_view e D key (fst w)) (store_view e D key (fst w'))"
    by (rule live_linked.confirm_live [OF i assms(3) [unfolded One_nat_def] assms(4) _ chain]) (use assms(5) in simp_all)
  moreover have "store_view e D key (fst w') (accepted_id D (sc_accepted_contract sc)) = Some (Confirmed sc)"
    using linked.stored_at [OF run(2)] linked.library [OF i] by simp
  moreover have "\<not> (check_step D)\<^sup>*\<^sup>* c (Confirmed sc)"
    using no_way_back [of D c "Confirmed sc"] assms(6) by (auto simp: spent_or_refunded_def)
  ultimately show ?thesis by blast
qed

theorem stale_check_regresses_witness:
  "\<exists>w'. check_signed_contract ref_dlc (stack_manager ref_web ref_dlc ''h'' ''k'' [7] (demo_manager 6 0)) demo_signed_contract
         (demo_link_with (Closed demo_closed) 6, []) = (Ok True, w')
     \<and> store_view ref_web ref_dlc ''k'' (fst w') [2, 1] = Some (Confirmed demo_signed_contract)"
proof -
  have facts: "encode_contract ref_web ref_dlc (Closed demo_closed) = Ok (text_of [6])" "encodes ref_web ref_dlc (Confirmed demo_signed_contract)"
    by (simp_all add: encodes_def encode_contract_def serialize_contract_def ref_dlc_def get_prefix_def)
  have ids: "get_id ref_dlc (Closed demo_closed) = [2, 1]" "accepted_id ref_dlc (sc_accepted_contract demo_signed_contract) = [2, 1]"
    by (simp_all add: ref_dlc_def ref_accepted_id_def demo_closed_def demo_signed_contract_def demo_accepted_def demo_offer_def)
  note stored = demo_with [OF facts(1), unfolded ids]
  have calm: "calm 1 (demo_link_with (Closed demo_closed) 6)"
    by (simp add: calm_def quiet_def calm_server_def pg_typed_def serials_ok_def demo_link_holding_def demo_link_def
        demo_server_def demo_pg_def demo_contract_row_def link_pg_def i32_max_def)
  have "succeeds (bc_confirmations (mg_blockchain (demo_manager 6 0)) t) (\<lambda>k. NB_CONFIRMATIONS \<le> k)" for t
    by (simp add: succeeds_def demo_manager_def ret_def NB_CONFIRMATIONS_def)
  from stale_check_regresses [OF _ demo_updater_ok _ facts(2) _ _ this, unfolded ids, of "''k''" "(demo_link_with (Closed demo_closed) 6, [])"
      "Closed demo_closed" "''h''" "[7]"] stored calm
  show ?thesis by (auto simp: spent_or_refunded_def)
qed

end
