(* ===== verification/Dlc_Close.thy ===== *)
theory Dlc_Close
  imports Dlc_Overlap Dlc_Chain_Props
begin

text \<open>
  The end of a contract: when enough oracles answer, the library builds the closing transaction and
  the chain has it deep enough, a signed contract is confirmed and closed by the periodic check.
\<close>

section \<open>Oracles that answer\<close>

lemma succeeds_mono: "succeeds m P \<Longrightarrow> (\<And>a. P a \<Longrightarrow> Q a) \<Longrightarrow> succeeds m Q"
  unfolding succeeds_def by blast

definition answers_event :: "(bytes \<rightharpoonup> 'w async_oracle) \<Rightarrow> announcement \<Rightarrow> bool" where
  "answers_event os ann \<longleftrightarrow> (case os (ann_oracle_public_key ann) of
      None \<Rightarrow> False
    | Some orc \<Rightarrow> succeeds (or_get_attestation orc (oe_event_id (ann_oracle_event ann))) (\<lambda>_. True))"

definition fails_gently :: "('w, 'a, 'e) io \<Rightarrow> bool" where
  "fails_gently m \<longleftrightarrow> (\<forall>w. fst (m w) \<noteq> Panic)"

text \<open>
  A t-of-n condition on the first contract info: at least as many oracles answer as its threshold
  says, and the others, known or not, answer with errors at most.
\<close>

definition oracles_attest :: "'w Manager \<Rightarrow> signed_contract \<Rightarrow> contract_info \<Rightarrow> bytes \<Rightarrow> bool" where
  "oracles_attest M sc ci ai \<longleftrightarrow> (\<exists>os rest. mg_oracles M = Some os
     \<and> zip (oc_contract_info (offered_of sc)) (ac_adaptor_infos (sc_accepted_contract sc)) = (ci, ai) # rest
     \<and> ci_threshold ci \<le> length (filter (answers_event os) (ci_oracle_announcements ci))
     \<and> (\<forall>ann \<in> set (ci_oracle_announcements ci). \<forall>orc. os (ann_oracle_public_key ann) = Some orc \<longrightarrow>
          fails_gently (or_get_attestation orc (oe_event_id (ann_oracle_event ann)))))"

lemma attest_one_runs:
  assumes "\<And>orc. os (ann_oracle_public_key ann) = Some orc \<Longrightarrow> fails_gently (or_get_attestation orc (oe_event_id (ann_oracle_event ann)))"
  shows "fails_gently (attest_one D os (i, ann))"
    and "answers_event os ann \<Longrightarrow> succeeds (attest_one D os (i, ann)) (\<lambda>_. True)"
proof -
  show "fails_gently (attest_one D os (i, ann))"
    using assms unfolding attest_one_def fails_gently_def
    by (auto simp: throw_def and_then_def map_err_def handle_def ret_def split: option.split prod.split outcome.split)
      (metis fst_conv)
  show "succeeds (attest_one D os (i, ann)) (\<lambda>_. True)" if "answers_event os ann"
    using that unfolding attest_one_def answers_event_def succeeds_def
    by (auto simp: and_then_def map_err_def handle_def ret_def split: option.splits prod.split outcome.split)
      (metis prod.inject outcome.distinct(1) outcome.distinct(3))+
qed

lemma join_runs:
  assumes "\<And>x. x \<in> set xs \<Longrightarrow> fails_gently (f x)" "\<And>x. x \<in> set xs \<Longrightarrow> P x \<Longrightarrow> succeeds (f x) (\<lambda>_. True)"
  shows "succeeds (join_ok f xs) (\<lambda>ys. length (filter P xs) \<le> length ys)"
  using assms
proof (induction xs)
  case (Cons x xs)
  then have tail: "\<exists>ys w'. join_ok f xs w = (Ok ys, w') \<and> length (filter P xs) \<le> length ys" for w
    by (simp add: succeeds_def)
  show ?case
    unfolding succeeds_def
  proof
    fix w
    obtain r w1 where r: "f x w = (r, w1)" by (rule prod.exhaust)
    obtain ys w' where ys: "join_ok f xs w1 = (Ok ys, w')" "length (filter P xs) \<le> length ys" using tail by blast
    have "r \<noteq> Panic" using Cons.prems(1) [of x] r unfolding fails_gently_def by (metis fst_conv list.set_intros(1))
    moreover have "is_ok r" if "P x"
      using Cons.prems(2) [of x] that r unfolding succeeds_def by (metis is_ok.simps(1) list.set_intros(1) prod.inject)
    ultimately show "\<exists>ys w'. join_ok f (x # xs) w = (Ok ys, w') \<and> length (filter P (x # xs)) \<le> length ys"
      using r ys by (cases r) (auto simp: io_defs)
  qed
qed (simp add: succeeds_def ret_def)

lemma closable_runs:
  assumes "oracles_attest M sc ci ai"
  shows "succeeds (get_closable_contract_info D M sc) (\<lambda>r. \<exists>ats. r = Some (ci, ai, ats))"
proof -
  obtain os rest where os: "mg_oracles M = Some os"
    "zip (oc_contract_info (offered_of sc)) (ac_adaptor_infos (sc_accepted_contract sc)) = (ci, ai) # rest"
    "ci_threshold ci \<le> length (filter (answers_event os) (ci_oracle_announcements ci))"
    "\<And>ann orc. ann \<in> set (ci_oracle_announcements ci) \<Longrightarrow> os (ann_oracle_public_key ann) = Some orc \<Longrightarrow>
       fails_gently (or_get_attestation orc (oe_event_id (ann_oracle_event ann)))"
    using assms unfolding oracles_attest_def by blast
  let ?anns = "ci_oracle_announcements ci"
  have member: "snd x \<in> set ?anns" if "x \<in> set (List.enumerate 0 ?anns)" for x
    using that by (auto simp: in_set_enumerate_eq) (metis nth_mem)
  have "succeeds (join_ok (attest_one D os) (List.enumerate 0 ?anns))
      (\<lambda>ys. length (filter (answers_event os \<circ> snd) (List.enumerate 0 ?anns)) \<le> length ys)"
    using attest_one_runs [of os _ D] os(4) member by (intro join_runs) fastforce+
  moreover have "length (filter (answers_event os \<circ> snd) (List.enumerate 0 ?anns)) = length (filter (answers_event os) ?anns)"
    by (metis filter_map length_map map_snd_enumerate)
  ultimately have join: "succeeds (join_ok (attest_one D os) (List.enumerate 0 ?anns)) (\<lambda>ys. ci_threshold ci \<le> length ys)"
    using os(3) unfolding succeeds_def by (metis le_trans)
  have enough: "ci_threshold ci \<le> length ?anns" using os(3) length_filter_le le_trans by blast
  show ?thesis
    unfolding succeeds_def
  proof
    fix w
    obtain ys w' where "join_ok (attest_one D os) (List.enumerate 0 ?anns) w = (Ok ys, w')" "ci_threshold ci \<le> length ys"
      using join unfolding succeeds_def by blast
    with enough os(1,2) show "\<exists>a w'. get_closable_contract_info D M sc w = (Ok a, w') \<and> (\<exists>ats. a = Some (ci, ai, ats))"
      by (simp add: get_closable_contract_info_def Let_def and_then_def ret_def)
  qed
qed

section \<open>From signed to closed\<close>

text \<open>The record \<open>close_contract\<close> leaves, and what library and chain must do for it.\<close>

definition closed_by :: "dlc_ext \<Rightarrow> signed_contract \<Rightarrow> attestation list \<Rightarrow> transaction \<Rightarrow> closed_contract" where
  "closed_by D sc ats cet = \<lparr>cl_attestations = Some ats, cl_signed_cet = Some cet,
     cl_contract_id = accepted_id D (sc_accepted_contract sc), cl_temporary_contract_id = oc_id (offered_of sc),
     cl_counter_party_id = oc_counter_party (offered_of sc), cl_pnl = compute_pnl D (sc_accepted_contract sc) cet\<rparr>"

definition gathered :: "dlc_ext \<Rightarrow> 'w Manager \<Rightarrow> contract_info \<Rightarrow> (nat \<times> attestation) list \<Rightarrow> bool" where
  "gathered D M ci ats \<longleftrightarrow> ci_threshold ci \<le> length ats \<and> sorted_wrt (<) (map fst ats)
     \<and> (\<exists>os. mg_oracles M = Some os \<and> (\<forall>y \<in> set ats. attested D os (ci_oracle_announcements ci) y))"

lemma closable_gathered: "get_closable_contract_info D M sc w = (Ok (Some (ci, ai, ats)), w') \<Longrightarrow> gathered D M ci ats"
  using closable_sound by (cases "mg_oracles M") (fastforce simp: get_closable_contract_info_def gathered_def throw_def)+

lemma attested_lift: "attested D (\<lambda>k. map_option lift_oracle (os k)) anns y \<Longrightarrow> attested D os anns y"
  by (fastforce simp: attested_def lift_oracle_def lift_snd_def on_part_def split: prod.splits)

lemma gathered_lift: "gathered D (link_manager st N) ci ats \<Longrightarrow> gathered D N ci ats"
  by (auto simp: gathered_def link_manager_def intro: attested_lift)

definition closes_deep :: "'w Manager \<Rightarrow> dlc_ext \<Rightarrow> (dlc_contract \<Rightarrow> bool) \<Rightarrow> signed_contract \<Rightarrow> contract_info \<Rightarrow> bytes \<Rightarrow> bool" where
  "closes_deep M D ok sc ci ai \<longleftrightarrow> (\<forall>ats. gathered D M ci ats \<longrightarrow> succeeds (cu_get_signed_cet (mg_updater M) sc ci ai ats) (\<lambda>cet.
     ok (Closed (closed_by D sc (map snd ats) cet))
     \<and> succeeds (bc_confirmations (mg_blockchain M) (txid D cet)) (\<lambda>k. NB_CONFIRMATIONS \<le> k)))"

lemma close_run:
  assumes "bc_confirmations (mg_blockchain M) (txid D cet) w = (Ok k, w')" "NB_CONFIRMATIONS \<le> k"
  shows "close_contract D M sc cet ats w = (Ok (Closed (closed_by D sc ats cet)), w')"
proof -
  have "\<not> k < 1" "\<not> k < NB_CONFIRMATIONS"
    using assms(2) by (simp_all add: NB_CONFIRMATIONS_def word_less_nat_alt word_le_nat_alt)
  with assms(1) show ?thesis by (simp add: close_contract_def and_then_def ret_def Let_def closed_by_def)
qed

context live_manager begin

lemma close_live:
  assumes "inv w" "calm_for (Suc n) w" "view w (accepted_id D (sc_accepted_contract sc)) \<noteq> None"
    and "oracles_attest M sc ci ai" "closes_deep M D storable sc ci ai"
  obtains ats cet w' where "check_confirmed_contract D M sc w = (Ok True, w')"
    "stored D (Closed (closed_by D sc ats cet)) (view w) (view w')"
proof -
  obtain ats w1 where w1: "get_closable_contract_info D M sc w = (Ok (Some (ci, ai, ats)), w1)" "inv w1" "view w1 = view w" "calm_for (Suc n) w1"
    by (rule outside_run [OF closable_same calm_out.closable_moves closable_runs [OF assms(4)] assms(1,2)]) auto
  have cet: "succeeds (cu_get_signed_cet (mg_updater M) sc ci ai ats) (\<lambda>cet. storable (Closed (closed_by D sc (map snd ats) cet))
     \<and> succeeds (bc_confirmations (mg_blockchain M) (txid D cet)) (\<lambda>k. NB_CONFIRMATIONS \<le> k))"
    using assms(5) closable_gathered [OF w1(1)] by (simp add: closes_deep_def)
  obtain cet w2 where w2: "cu_get_signed_cet (mg_updater M) sc ci ai ats w1 = (Ok cet, w2)"
    "storable (Closed (closed_by D sc (map snd ats) cet))" "succeeds (bc_confirmations (mg_blockchain M) (txid D cet)) (\<lambda>k. NB_CONFIRMATIONS \<le> k)"
    "inv w2" "view w2 = view w1" "calm_for (Suc n) w2"
    by (rule outside_run [OF frame_calls(12) calm_calls(12) cet w1(2,4)]) auto
  obtain k w3 where w3: "bc_confirmations (mg_blockchain M) (txid D cet) w2 = (Ok k, w3)" "NB_CONFIRMATIONS \<le> k"
    "inv w3" "view w3 = view w2" "calm_for (Suc n) w3"
    by (rule outside_run [OF frame_calls(3) calm_calls(3) w2(3,4,6)])
  have id: "get_id D (Closed (closed_by D sc (map snd ats) cet)) = accepted_id D (sc_accepted_contract sc)"
    using library [OF assms(1)] by (simp add: closed_by_def)
  obtain w4 where w4: "as_update_contract (mg_store M) (Closed (closed_by D sc (map snd ats) cet)) w3 = (Ok (), w4)"
    "stored D (Closed (closed_by D sc (map snd ats) cet)) (view w3) (view w4)"
    by (rule update_calm_run [OF w3(3,5) w2(2)]) (use assms(3) id w1(3) w2(5) w3(4) in simp_all)
  have "check_confirmed_contract D M sc w = (Ok True, w4)"
    using w1(1) w2(1) w4(1) close_run [OF w3(1,2)] by (simp add: check_confirmed_contract_def io_defs)
  with that w4(2) w1(3) w2(5) w3(4) show thesis by metis
qed

end

lemma closing_lift:
  "oracles_attest N sc ci ai \<Longrightarrow> oracles_attest (link_manager st N) sc ci ai"
  "closes_deep N D ok sc ci ai \<Longrightarrow> closes_deep (link_manager st N) D ok sc ci ai"
proof -
  have gently: "fails_gently m \<Longrightarrow> fails_gently (lift_snd m)" for m
    by (simp add: fails_gently_def lift_snd_def on_part_def split: prod.split) (metis fst_conv)
  have ans: "answers_event os ann \<Longrightarrow> answers_event (\<lambda>k. map_option lift_oracle (os k)) ann" for os ann
    by (auto simp: answers_event_def lift_oracle_def succeeds_lift split: option.splits)
  show "oracles_attest (link_manager st N) sc ci ai" if at: "oracles_attest N sc ci ai"
  proof -
    obtain os rest where os: "mg_oracles N = Some os"
      "zip (oc_contract_info (offered_of sc)) (ac_adaptor_infos (sc_accepted_contract sc)) = (ci, ai) # rest"
      "ci_threshold ci \<le> length (filter (answers_event os) (ci_oracle_announcements ci))"
      "\<And>ann orc. ann \<in> set (ci_oracle_announcements ci) \<Longrightarrow> os (ann_oracle_public_key ann) = Some orc \<Longrightarrow>
         fails_gently (or_get_attestation orc (oe_event_id (ann_oracle_event ann)))"
      using at unfolding oracles_attest_def by blast
    have "length (filter (answers_event os) anns) \<le> length (filter (answers_event (\<lambda>k. map_option lift_oracle (os k))) anns)" for anns
      by (induction anns) (auto dest: ans)
    with os show ?thesis
      unfolding oracles_attest_def
      by (intro exI [of _ "\<lambda>k. map_option lift_oracle (os k)"] exI [of _ rest])
        (auto simp: link_manager_def lift_oracle_def intro!: gently intro: le_trans)
  qed
  have fields: "cu_get_signed_cet (mg_updater (link_manager st N)) c i a ts = lift_snd (cu_get_signed_cet (mg_updater N) c i a ts)"
    "bc_confirmations (mg_blockchain (link_manager st N)) t = lift_snd (bc_confirmations (mg_blockchain N) t)" for c i a ts t
    by (simp_all add: link_manager_def lift_updater_def lift_blockchain_def)
  show "closes_deep (link_manager st N) D ok sc ci ai" if "closes_deep N D ok sc ci ai"
    unfolding closes_deep_def
  proof (intro allI impI)
    fix ats
    assume "gathered D (link_manager st N) ci ats"
    then have "gathered D N ci ats" by (rule gathered_lift)
    with that have "succeeds (cu_get_signed_cet (mg_updater N) sc ci ai ats) (\<lambda>cet. ok (Closed (closed_by D sc (map snd ats) cet))
        \<and> succeeds (bc_confirmations (mg_blockchain N) (txid D cet)) (\<lambda>k. NB_CONFIRMATIONS \<le> k))"
      by (simp add: closes_deep_def)
    then show "succeeds (cu_get_signed_cet (mg_updater (link_manager st N)) sc ci ai ats) (\<lambda>cet. ok (Closed (closed_by D sc (map snd ats) cet))
        \<and> succeeds (bc_confirmations (mg_blockchain (link_manager st N)) (txid D cet)) (\<lambda>k. NB_CONFIRMATIONS \<le> k))"
      unfolding fields by (rule succeeds_mono [OF succeeds_lift]) (auto intro: succeeds_lift)
  qed
qed

text \<open>
  C10. A signed contract gets closed: on a calm store, with six confirmations of the funding
  transaction, its check confirms it; and when as many oracles answer as the threshold of its first
  contract info asks for, whatever errors the others give, and the closing transaction is six blocks
  deep, its next check closes it with the attestations found and that transaction.
\<close>

theorem closing_completes:
  assumes "store_inv e D key (fst w)" "updater_ok (mg_updater N)" "calm 2 (fst w)" "encodes e D (Confirmed sc)"
    and "store_view e D key (fst w) (accepted_id D (sc_accepted_contract sc)) = Some (Signed sc)"
    and "succeeds (bc_confirmations (mg_blockchain N) (txid D (ac_fund (sc_accepted_contract sc)))) (\<lambda>k. NB_CONFIRMATIONS \<le> k)"
    and "oracles_attest N sc ci ai" "closes_deep N D (encodes e D) sc ci ai"
  shows "\<exists>w1 w2 ats cet. check_signed_contract D (stack_manager e D host key sk N) sc w = (Ok True, w1)
    \<and> check_confirmed_contract D (stack_manager e D host key sk N) sc w1 = (Ok True, w2)
    \<and> store_view e D key (fst w2) (accepted_id D (sc_accepted_contract sc)) = Some (Closed (closed_by D sc ats cet))"
proof -
  let ?M = "stack_manager e D host key sk N" and ?i = "accepted_id D (sc_accepted_contract sc)"
  have i: "store_inv e D key (fst w) \<and> updater_ok (mg_updater N)" using assms(1,2) by simp
  have ids: "get_id D (Confirmed sc) = ?i" "get_id D (Closed (closed_by D sc ats cet)) = ?i" for ats cet
    using linked.library [OF i] by (simp_all add: closed_by_def)
  have calm: "calm (Suc (Suc 0)) (fst w)" using assms(3) by (simp add: numeral_2_eq_2)
  have chain: "succeeds (bc_confirmations (mg_blockchain ?M) (txid D (ac_fund (sc_accepted_contract sc)))) (\<lambda>k. NB_CONFIRMATIONS \<le> k)"
    using assms(6) by (simp add: link_manager_def lift_blockchain_def succeeds_lift)
  obtain w1 where w1: "check_signed_contract D ?M sc w = (Ok True, w1)"
    "stored D (Confirmed sc) (store_view e D key (fst w)) (store_view e D key (fst w1))"
    "store_inv e D key (fst w1) \<and> updater_ok (mg_updater N)" "calm (Suc 0) (fst w1)"
    by (rule live_linked.confirm_live [OF i calm assms(4) _ chain]) (use assms(5) in simp_all)
  have "store_view e D key (fst w1) ?i \<noteq> None" using linked.stored_at [OF w1(2)] ids(1) by simp
  then obtain ats cet w2 where "check_confirmed_contract D ?M sc w1 = (Ok True, w2)"
    "stored D (Closed (closed_by D sc ats cet)) (store_view e D key (fst w1)) (store_view e D key (fst w2))"
    by (rule live_linked.close_live [OF w1(3,4) _ closing_lift(1) [OF assms(7)] closing_lift(2) [OF assms(8)]])
  with w1(1) linked.stored_at ids(2) show ?thesis by metis
qed

definition demo_attestation :: attestation where
  "demo_attestation = \<lparr>att_oracle_public_key = [5], att_signatures = [[1]], att_outcomes = [''a'']\<rparr>"

theorem closing_completes_witness:
  "let M = stack_manager ref_web ref_dlc ''h'' ''k'' [7] (demo_manager 6 0) in
   \<exists>w1 w2 ats cet. check_signed_contract ref_dlc M demo_signed_contract (demo_link_with (Signed demo_signed_contract) 3, []) = (Ok True, w1)
     \<and> check_confirmed_contract ref_dlc M demo_signed_contract w1 = (Ok True, w2)
     \<and> store_view ref_web ref_dlc ''k'' (fst w2) [2, 1] = Some (Closed (closed_by ref_dlc demo_signed_contract ats cet))"
proof -
  let ?w = "(demo_link_with (Signed demo_signed_contract) 3, [])"
  have ids: "get_id ref_dlc (Signed demo_signed_contract) = [2, 1]" "accepted_id ref_dlc (sc_accepted_contract demo_signed_contract) = [2, 1]"
    by (simp_all add: ref_dlc_def ref_accepted_id_def demo_signed_contract_def demo_accepted_def demo_offer_def)
  note stored = demo_with [OF demo_encoded(2), unfolded ids]
  have calm: "calm 2 (fst ?w)"
    by (simp add: calm_def quiet_def calm_server_def pg_typed_def serials_ok_def demo_link_holding_def demo_link_def
        demo_server_def demo_pg_def demo_contract_row_def link_pg_def i32_max_def)
  have confirmed: "encodes ref_web ref_dlc (Confirmed demo_signed_contract)"
    by (simp add: encodes_def encode_contract_def serialize_contract_def ref_dlc_def get_prefix_def)
  have chain: "succeeds (bc_confirmations (mg_blockchain (demo_manager 6 0)) t) (\<lambda>k. NB_CONFIRMATIONS \<le> k)" for t
    by (simp add: succeeds_def demo_manager_def ret_def NB_CONFIRMATIONS_def)
  have attest: "oracles_attest (demo_manager 6 0) demo_signed_contract demo_info [9]"
    by (simp add: oracles_attest_def demo_manager_def demo_signed_contract_def demo_accepted_def demo_offer_def demo_info_def
        demo_announcement_def answers_event_def demo_oracle_def succeeds_def fails_gently_def ret_def)
  have only: "ats = [(0, demo_attestation)]" if "gathered ref_dlc (demo_manager 6 0) demo_info ats" for ats
  proof -
    have one: "y = (0, demo_attestation)"
      if "attested ref_dlc (\<lambda>k. if k = [5] then Some demo_oracle else None) [demo_announcement] y" for y
      using that by (cases y) (auto simp: attested_def demo_announcement_def demo_oracle_def demo_attestation_def ret_def)
    have "ats \<noteq> []" "sorted_wrt (<) (map fst ats)" "\<forall>y \<in> set ats. y = (0, demo_attestation)"
      using that one by (auto simp: gathered_def demo_info_def demo_manager_def simp del: split_paired_All)
    then show ?thesis by (cases ats rule: list.exhaust [case_product list.exhaust]; cases "tl ats") auto
  qed
  have "encodes ref_web ref_dlc (Closed (closed_by ref_dlc demo_signed_contract [demo_attestation] demo_tx))"
  proof -
    have "closed_by ref_dlc demo_signed_contract [demo_attestation] demo_tx = demo_attested_close"
      by (simp add: closed_by_def demo_attested_close_def demo_closed_def demo_attestation_def demo_signed_contract_def
          demo_accepted_def demo_offer_def ref_dlc_def ref_accepted_id_def)
    then show ?thesis by (simp add: encodes_def encode_contract_def serialize_contract_def ref_dlc_def get_prefix_def)
  qed
  then have "closes_deep (demo_manager 6 0) ref_dlc (encodes ref_web ref_dlc) demo_signed_contract demo_info [9]"
    using chain by (auto simp: closes_deep_def dest!: only) (simp add: demo_manager_def demo_updater_def succeeds_def ret_def)
  from closing_completes [OF _ demo_updater_ok _ confirmed _ chain attest this, of "''k''" ?w "''h''" "[7]"] stored calm ids
  show ?thesis by (simp add: Let_def)
qed

end
