(* ===== verification/Set_Up.thy ===== *)
theory Set_Up
  imports Wasm_Props Router_Props Dlc_Apart
begin

text \<open>
  The two wallets together: the router and a browser on one storage service, each with its own
  key, take an offered contract to a signed one on both sides. It joins the calm laws of both
  managers with the isolation of their stores.
\<close>

section \<open>Libraries that agree\<close>

text \<open>What the results of a library call are known to satisfy besides.\<close>

lemma succeeds_returns:
  "succeeds m P \<Longrightarrow> returns m R \<Longrightarrow> (\<And>a. P a \<Longrightarrow> R a \<Longrightarrow> Q a) \<Longrightarrow> succeeds m Q"
  unfolding succeeds_def returns_def by (metis fst_conv)

lemma accepts_kept:
  assumes "updater_ok (mg_updater N)" "library_accepts N ok o' cp oc P"
  shows "library_accepts N ok o' cp oc (\<lambda>ac am. P ac am \<and> ac_offered_contract ac = oc)"
    and "oc_counter_party oc = cp" "oc_id oc = od_temporary_contract_id o'"
proof -
  have r: "returns (cu_accept_contract (mg_updater N) oc) (\<lambda>(ac, _). ac_offered_contract ac = oc)"
    using assms(1) by (simp add: updater_ok_def)
  have l: "succeeds (cu_accept_contract (mg_updater N) oc) (\<lambda>(ac, am). ok (Accepted ac) \<and> P ac am)"
    using assms(2) by (simp add: library_accepts_def Let_def)
  have "succeeds (cu_accept_contract (mg_updater N) oc) (\<lambda>(ac, am). ok (Accepted ac) \<and> P ac am \<and> ac_offered_contract ac = oc)"
    by (rule succeeds_returns [OF l r]) auto
  then show "library_accepts N ok o' cp oc (\<lambda>ac am. P ac am \<and> ac_offered_contract ac = oc)"
    using assms(2) by (simp add: library_accepts_def Let_def)
  show "oc_counter_party oc = cp" "oc_id oc = od_temporary_contract_id o'"
    using assms by (auto simp: library_accepts_def updater_ok_def Let_def)
qed

lemma signs_kept:
  assumes "updater_ok (mg_updater N)" "library_signs N ok oc am Q"
  shows "library_signs N ok oc am (\<lambda>sc sm. Q sc sm \<and> offered_of sc = oc)"
proof -
  have r: "returns (cu_verify_accepted_and_sign (mg_updater N) oc am) (\<lambda>(sc, _). offered_of sc = oc)"
    using assms(1) by (simp add: updater_ok_def)
  have l: "succeeds (cu_verify_accepted_and_sign (mg_updater N) oc am) (\<lambda>(sc, sm). ok (Signed sc) \<and> Q sc sm)"
    using assms(2) by (simp add: library_signs_def)
  have "succeeds (cu_verify_accepted_and_sign (mg_updater N) oc am) (\<lambda>(sc, sm). ok (Signed sc) \<and> Q sc sm \<and> offered_of sc = oc)"
    by (rule succeeds_returns [OF l r]) auto
  then show ?thesis using assms(2) by (simp add: library_signs_def)
qed

text \<open>
  The acceptance that the browser's library makes of the offer is one the router's library signs,
  the browser's library verifies that signature, both sides compute the same id, and the
  messages survive their text form.
\<close>

definition libraries_agree ::
  "'m js_ext \<Rightarrow> 'w router_ext \<Rightarrow> dlc_ext \<Rightarrow> (dlc_contract \<Rightarrow> bool) \<Rightarrow> 'o Manager \<Rightarrow> 'p Manager \<Rightarrow> offered_contract \<Rightarrow>
     offer_dlc \<Rightarrow> bytes \<Rightarrow> offered_contract \<Rightarrow> bool" where
  "libraries_agree jx x D ok N1 N2 oc1 om cp oc2 \<longleftrightarrow>
     library_accepts N2 ok om cp oc2 (\<lambda>ac am. ad_temporary_contract_id am = oc_id oc1
       \<and> (\<exists>t. jx_accept_json jx am = Ok t \<and> rx_accept_of_json x t = Ok am)
       \<and> library_signs N1 ok oc1 am (\<lambda>sc sm. sd_contract_id sm = accepted_id D ac
           \<and> accepted_id D (sc_accepted_contract sc) = accepted_id D ac
           \<and> (\<exists>s. rx_sign_json x sm = Ok s \<and> jx_sign_of_json jx s = Ok sm) \<and> library_verifies N2 ok ac sm))"

section \<open>The calls of one wallet leave the other's contracts alone\<close>

lemma js_apart:
  assumes "ji_manager self = stack_manager e D host key sk N"
  shows "moves (\<lambda>w w'. apart e key (fst w) (fst w')) (js_accept_offer D jx self t)"
    and "moves (\<lambda>w w'. apart e key (fst w) (fst w')) (js_countersign_and_broadcast D jx self t)"
  unfolding js_accept_offer_def js_countersign_and_broadcast_def assms Let_def
  by (intro shared.manager_moves shared.on_message_moves shared.accept_offer_moves)+

lemma router_apart:
  assumes "rt_manager rt = stack_manager e D host key sk N"
  shows "moves (\<lambda>w w'. apart e key (fst w) (fst w')) (accept_offer D x rt am)"
  unfolding accept_offer_def assms Let_def
  by (intro shared.manager_moves shared.on_message_moves) (auto split: dlc_message.split intro!: shared.manager_moves)

section \<open>From an offer to a contract signed on both sides\<close>

lemma router_signs:
  assumes "store_inv e D key (fst w)" "updater_ok (mg_updater N)" "calm (Suc n) (fst w)"
    and "rt_manager rt = stack_manager e D host key sk N"
    and "library_signs N (encodes e D) oc am Q" "store_view e D key (fst w) (ad_temporary_contract_id am) = Some (Offered oc)"
    and "rx_node_id x STATIC_COUNTERPARTY_NODE_ID = Some (oc_counter_party oc)"
    and "\<And>sc sm. Q sc sm \<Longrightarrow> is_ok (rx_sign_json x sm)"
  obtains sc sm t w' where "accept_offer D x rt am w = (Ok t, w')" "rx_sign_json x sm = Ok t" "Q sc sm"
    "store_view e D key (fst w') (accepted_id D (sc_accepted_contract sc)) = Some (Signed sc)" "store_inv e D key (fst w')" "calm n (fst w')"
proof -
  have i: "store_inv e D key (fst w) \<and> updater_ok (mg_updater N)" using assms(1,2) by simp
  have D: "dlc_ok D" using linked.library [OF i] by simp
  then have cp: "get_counter_party_id D (Offered oc) = oc_counter_party oc" by simp
  obtain sc sm w1 where run: "on_accept_message D (stack_manager e D host key sk N) am (oc_counter_party oc) w = (Ok (SignMsg sm), w1)" "Q sc sm"
    "stored D (Signed sc) (store_view e D key (fst w)) (store_view e D key (fst w1))"
    "store_inv e D key (fst w1) \<and> updater_ok (mg_updater N)" "calm n (fst w1)"
    by (rule live_linked.accept_message_live [OF i assms(3) library_lift(3) [OF assms(5)] assms(6) cp])
  from assms(8) [OF run(2)] obtain t where t: "rx_sign_json x sm = Ok t" by (auto elim: is_ok.elims)
  then have "accept_offer D x rt am w = (Ok t, w1)"
    using run(1) assms(7) by (simp add: accept_offer_def assms(4) io_defs)
  moreover have "store_view e D key (fst w1) (accepted_id D (sc_accepted_contract sc)) = Some (Signed sc)"
    using linked.stored_at [OF run(3)] D by simp
  ultimately show thesis using that t run(2,4,5) by blast
qed

text \<open>
  C1. A contract offered by the router is set up: with both wallets on one calm storage service
  and libraries that agree, the browser accepts the offer, the router signs the acceptance, and
  the browser countersigns and broadcasts; afterwards the router holds the contract signed, made
  from its offer, the browser holds it signed under the same id, and the text returned is the id
  of the funding transaction of the contract the browser signed.
\<close>

theorem set_up_completes:
  assumes "store_inv e D k1 (fst w)" "store_inv e D k2 (fst w)" "k1 \<noteq> k2" "calm 4 (fst w)"
    and "updater_ok (mg_updater N1)" "updater_ok (mg_updater N2)"
    and "rt_manager rt = stack_manager e D h1 k1 sk1 N1" "ji_manager self = stack_manager e D h2 k2 sk2 N2"
    and "store_view e D k1 (fst w) (oc_id oc1) = Some (Offered oc1)"
    and "store_view e D k2 (fst w) (od_temporary_contract_id om) = None"
    and "jx_offer_of_json jx offer_json = Ok om" "jx_node_id jx STATIC_COUNTERPARTY_NODE_ID = Ok cp"
    and "rx_node_id x STATIC_COUNTERPARTY_NODE_ID = Some (oc_counter_party oc1)"
    and "libraries_agree jx x D (encodes e D) N1 N2 oc1 om cp oc2"
  shows "\<exists>accept_json am w1 sign_json w2 tid w3 i sc sc'.
    js_accept_offer D jx self offer_json w = (Ok accept_json, w1)
    \<and> rx_accept_of_json x accept_json = Ok am \<and> accept_offer D x rt am w1 = (Ok sign_json, w2)
    \<and> js_countersign_and_broadcast D jx self sign_json w2 = (Ok tid, w3)
    \<and> store_view e D k1 (fst w3) i = Some (Signed sc) \<and> offered_of sc = oc1
    \<and> store_view e D k2 (fst w3) i = Some (Signed sc') \<and> offered_of sc' = oc2
    \<and> tid = fund_txid_text D jx (sc_accepted_contract sc')"
proof -
  note kept = accepts_kept [OF assms(6,14) [unfolded libraries_agree_def]]
  have k2: "k2 \<noteq> k1" and calm: "calm (Suc (Suc 2)) (fst w)" using assms(3,4) by (simp_all add: eval_nat_numeral)
  have D: "dlc_ok D" using assms(1) by (simp add: store_inv_def)
  have free: "store_view e D k2 (fst w) (oc_id oc2) = None" using assms(10) kept(3) by simp
  obtain t1 ac am w1 where a: "js_accept_offer D jx self offer_json w = (Ok t1, w1)" "jx_accept_json jx am = Ok t1"
    "rx_accept_of_json x t1 = Ok am" "ad_temporary_contract_id am = oc_id oc1" "ac_offered_contract ac = oc2"
    "library_signs N1 (encodes e D) oc1 am (\<lambda>sc sm. sd_contract_id sm = accepted_id D ac
           \<and> accepted_id D (sc_accepted_contract sc) = accepted_id D ac
           \<and> (\<exists>s. rx_sign_json x sm = Ok s \<and> jx_sign_of_json jx s = Ok sm) \<and> library_verifies N2 (encodes e D) ac sm)"
    "store_view e D k2 (fst w1) (accepted_id D ac) = Some (Accepted ac)" "store_inv e D k2 (fst w1)" "calm (Suc 1) (fst w1)"
    by (rule accept_goes_through [OF assms(2,6) calm assms(8,11,12) kept(1) _ free]) (auto simp: eval_nat_numeral)
  have "apart e k2 (fst w) (fst w1)" using moves_at [OF js_apart(1) [OF assms(8)]] a(1) by (metis snd_conv)
  note r1 = apart_view [OF this assms(1,3)]
  have off: "store_view e D k1 (fst w1) (ad_temporary_contract_id am) = Some (Offered oc1)" using r1(2) assms(9) a(4) by simp
  obtain sc sm t2 w2 where b: "accept_offer D x rt am w1 = (Ok t2, w2)" "rx_sign_json x sm = Ok t2"
    "offered_of sc = oc1" "sd_contract_id sm = accepted_id D ac" "accepted_id D (sc_accepted_contract sc) = accepted_id D ac"
    "jx_sign_of_json jx t2 = Ok sm" "library_verifies N2 (encodes e D) ac sm"
    "store_view e D k1 (fst w2) (accepted_id D ac) = Some (Signed sc)" "store_inv e D k1 (fst w2)" "calm (Suc 0) (fst w2)"
    by (rule router_signs [OF r1(1) assms(5) a(9) assms(7) signs_kept [OF assms(5) a(6)] off assms(13)])
      (auto simp: eval_nat_numeral)
  have "apart e k1 (fst w1) (fst w2)" using moves_at [OF router_apart [OF assms(7)]] b(1) by (metis snd_conv)
  note r2 = apart_view [OF this a(8) k2]
  have acc: "store_view e D k2 (fst w2) (sd_contract_id sm) = Some (Accepted ac)" using r2(2) a(7) b(4) by simp
  have cp: "jx_node_id jx STATIC_COUNTERPARTY_NODE_ID = Ok (get_counter_party_id D (Accepted ac))"
    using D assms(12) a(5) kept(2) by simp
  obtain tid w3 where c: "js_countersign_and_broadcast D jx self t2 w2 = (Ok tid, w3)"
    using countersign_goes_through [OF r2(1) assms(6) b(10) assms(8) b(6) cp b(7) acc] by blast
  obtain sc' where d: "sc_accepted_contract sc' = ac" "store_view e D k2 (fst w3) (accepted_id D ac) = Some (Signed sc')"
    "tid = fund_txid_text D jx ac"
    using countersign_run [OF r2(1) assms(6,8) c] b(4,6) acc by (auto simp: fund_txid_text_def)
  have "apart e k2 (fst w2) (fst w3)" using moves_at [OF js_apart(2) [OF assms(8)]] c by (metis snd_conv)
  then have "store_view e D k1 (fst w3) (accepted_id D ac) = Some (Signed sc)"
    using apart_view(2) [OF _ b(9) assms(3)] b(8) by simp
  with a(1,3,5) b(1,3) c d show ?thesis by blast
qed

section \<open>A set-up carried out\<close>

definition demo_other_interface :: "(link \<times> transaction list) JsDLCInterface" where
  "demo_other_interface = demo_interface\<lparr>ji_manager := stack_manager ref_web ref_dlc ''h'' ''k2'' [9] (demo_manager 0 0)\<rparr>"

lemma demo_other_key:
  "store_inv ref_web ref_dlc ''k2'' (demo_link_with (Offered demo_offer) 1)"
  "store_view ref_web ref_dlc ''k2'' (demo_link_with (Offered demo_offer) 1) i = None"
  using demo_with(1) [OF demo_encoded(1)]
  by (simp_all add: store_inv_def rows_ok_def demo_with_view store_view_def stored_contracts_def)

lemma demo_offered_calm: "calm 4 (demo_link_with (Offered demo_offer) 1)"
  by (simp add: calm_def quiet_def calm_server_def pg_typed_def serials_ok_def demo_link_holding_def demo_link_def
      demo_server_def demo_pg_def demo_contract_row_def link_pg_def i32_max_def)

lemma demo_offer_again: "demo_offer_of [1] [3] = demo_offer" "demo_accepted\<lparr>ac_offered_contract := demo_offer\<rparr> = demo_accepted"
    "demo_signed_contract\<lparr>sc_accepted_contract := demo_accepted\<rparr> = demo_signed_contract"
  by (simp_all add: demo_offer_of_def demo_offer_def demo_accepted_def demo_signed_contract_def)

lemma demo_agree:
  "libraries_agree demo_js demo_linked_router_ext ref_dlc (encodes ref_web ref_dlc) (demo_manager 0 0) (demo_manager 0 0)
     demo_offer \<lparr>od_temporary_contract_id = [1], od_rest = []\<rparr> [3] demo_offer"
proof -
  have facts: "oc_id demo_offer = [1]" "accepted_id ref_dlc demo_accepted = [2, 1]" "sc_accepted_contract demo_signed_contract = demo_accepted"
    by (simp_all add: demo_offer_def ref_dlc_def ref_accepted_id_def demo_accepted_def demo_signed_contract_def)
  show ?thesis
    using demo_encoded demo_encoded_accepted demo_verifies
    by (simp add: libraries_agree_def library_accepts_def library_signs_def Let_def demo_manager_def demo_updater_def
        succeeds_def ret_def encodes_def demo_js_simps demo_linked_router_ext_def demo_offer_again facts)
qed

theorem set_up_completes_witness:
  "\<exists>accept_json sign_json tid w1 w2 w3 i sc sc'. let w = (demo_link_with (Offered demo_offer) 1, []) in
     js_accept_offer ref_dlc demo_js demo_other_interface ''offer'' w = (Ok accept_json, w1)
     \<and> js_countersign_and_broadcast ref_dlc demo_js demo_other_interface sign_json w2 = (Ok tid, w3)
     \<and> store_view ref_web ref_dlc ''k'' (fst w3) i = Some (Signed sc)
     \<and> store_view ref_web ref_dlc ''k2'' (fst w3) i = Some (Signed sc')"
proof -
  let ?w = "(demo_link_with (Offered demo_offer) 1, [])"
  have id: "get_id ref_dlc (Offered demo_offer) = oc_id demo_offer" by (simp add: ref_dlc_def)
  note mine = demo_with [OF demo_encoded(1), unfolded id]
  have parts: "rt_manager demo_linked_router = stack_manager ref_web ref_dlc ''h'' ''k'' [7] (demo_manager 0 0)"
    "ji_manager demo_other_interface = stack_manager ref_web ref_dlc ''h'' ''k2'' [9] (demo_manager 0 0)"
    "rx_node_id demo_linked_router_ext STATIC_COUNTERPARTY_NODE_ID = Some (oc_counter_party demo_offer)"
    by (simp_all add: demo_linked_router_def demo_other_interface_def demo_linked_router_ext_def demo_offer_def)
  have other: "''k'' \<noteq> ''k2''" by simp
  show ?thesis
    using set_up_completes [where w = ?w and offer_json = "''offer''", unfolded fst_conv, OF mine(1) demo_other_key(1) other
        demo_offered_calm demo_updater_ok demo_updater_ok parts(1,2) mine(2) demo_other_key(2) demo_js_simps(1,2) parts(3) demo_agree]
    unfolding Let_def by blast
qed

end
