(* ===== verification/Storage_Tasks.thy ===== *)
theory Storage_Tasks
  imports Storage_Auth
begin

text \<open>
  Requests in flight together. The service answers each request in three steps, between which
  other requests get their turn: the middleware copies the ring of nonces when the request
  arrives (\<open>call\<close>, \<open>verify_sigs.rs\<close>); once the body is there it decides and passes the request on, and
  the layer of \<open>main.rs\<close> uses up the nonce under another lock; then the handler runs, which takes
  one connection and one statement, or the lock of the nonce endpoint. A schedule is the list of
  the tasks that get a turn.
\<close>

section \<open>The verdict of the middleware\<close>

text \<open>
  What the middleware decides from its copy of the ring: whether the status becomes 403, and the
  request it passes on; \<open>None\<close> where it panics before.
\<close>

definition verdict_get ::
  "web_ext \<Rightarrow> ((string \<times> string) list \<Rightarrow> (string \<times> string) option) \<Rightarrow> string list \<Rightarrow> string
     \<Rightarrow> http_request \<Rightarrow> (bool \<times> http_request) option" where
  "verdict_get e auth_query nonces h req =
     map_option (\<lambda>(key, signature). (\<not> verify_query_params e signature key h \<or> h \<notin> set nonces, req))
       (auth_query (rq_query req))"

definition verdict_payload ::
  "web_ext \<Rightarrow> string list \<Rightarrow> string \<Rightarrow> http_request \<Rightarrow> (bool \<times> http_request) option" where
  "verdict_payload e nonces h req =
     (case rq_body req of
        None \<Rightarrow> None
      | Some body \<Rightarrow> Some
          (case Option.bind (jparse e body) authenticated_message_of_json of
             None \<Rightarrow> (True, req\<lparr>rq_body := Some []\<rparr>)
           | Some m \<Rightarrow>
               if verify_body e m \<and> h \<in> set nonces \<and> as_str (json_index (am_message m) ''nonce'') = Some h
               then (False, req\<lparr>rq_body := Some (jprint e (am_message m))\<rparr>)
               else (True, req\<lparr>rq_body := Some []\<rparr>)))"

definition verdict :: "web_ext \<Rightarrow> string list \<Rightarrow> http_request \<Rightarrow> (bool \<times> http_request) option" where
  "verdict e nonces req =
     (if rq_path req \<in> set unprotected_paths then Some (False, req)
      else case rq_auth req of
        None \<Rightarrow> Some (False, req)
      | Some header \<Rightarrow>
         (case header_to_str e header of
            None \<Rightarrow> Some (True, req)
          | Some h \<Rightarrow>
              if rq_method req = GET \<and> contains (rq_path req) ''/event''
              then verdict_get e event_auth_query nonces h req
              else if rq_method req = GET \<and> contains (rq_path req) ''/contract''
              then verdict_get e contract_auth_query nonces h req
              else verdict_payload e nonces h req))"

definition forward :: "bool \<Rightarrow> handler \<Rightarrow> handler" where
  "forward forbidden m = (if forbidden then forbid m else m)"

definition spend :: "http_request \<Rightarrow> server \<Rightarrow> server" where
  "spend req s = (case rq_auth req of None \<Rightarrow> s | Some header \<Rightarrow> use_nonce header s)"

section \<open>Tasks and schedules\<close>

datatype task =
    Waiting http_request
  | Checked http_request "string list"
  | Forwarded bool http_request
  | Answered "(http_response, unit) outcome"

fun take_step :: "web_ext \<Rightarrow> task \<Rightarrow> server \<Rightarrow> task \<times> server" where
  "take_step e (Waiting req) s = (Checked req (srv_nonces s), s)"
| "take_step e (Checked req nonces) s =
     (case verdict e nonces req of
        None \<Rightarrow> (Answered Panic, s)
      | Some (forbidden, req') \<Rightarrow> (Forwarded forbidden req', spend req' s))"
| "take_step e (Forwarded forbidden req) s =
     (let (r, s') = forward forbidden (route e req) s in (Answered r, s'))"
| "take_step e (Answered r) s = (Answered r, s)"

type_synonym flight = "server \<times> task list"

definition advance :: "web_ext \<Rightarrow> nat \<Rightarrow> flight \<Rightarrow> flight" where
  "advance e i = (\<lambda>(s, ts).
     if i < length ts then let (t, s') = take_step e (ts ! i) s in (s', ts[i := t]) else (s, ts))"

definition run_tasks :: "web_ext \<Rightarrow> nat list \<Rightarrow> flight \<Rightarrow> flight" where
  "run_tasks e schedule c = fold (advance e) schedule c"

text \<open>The answers of a run without overlaps.\<close>

fun answers :: "web_ext \<Rightarrow> http_request list \<Rightarrow> server \<Rightarrow> (http_response, unit) outcome list" where
  "answers e [] s = []"
| "answers e (req # reqs) s = fst (serve e req s) # answers e reqs (snd (serve e req s))"

lemma run_tasks_simps [simp]:
  "run_tasks e [] c = c" "run_tasks e (i # is) c = run_tasks e is (advance e i c)"
  "run_tasks e (is @ js) c = run_tasks e js (run_tasks e is c)"
  by (simp_all add: run_tasks_def)

lemma serve_all_append: "serve_all e (reqs @ reqs') s = serve_all e reqs' (serve_all e reqs s)"
  by (induction reqs arbitrary: s) simp_all

lemma answers_append: "answers e (reqs @ reqs') s = answers e reqs s @ answers e reqs' (serve_all e reqs s)"
  by (induction reqs arbitrary: s) simp_all

section \<open>A request alone\<close>

lemma layer_forward: "forward b (nonce_layer e req) s = forward b (route e req) (spend req s)"
  by (simp add: forward_def forbid_def and_then_def nonce_layer_def spend_def split: option.split)

lemma serve_verdict:
  "serve e req s = (case verdict e (srv_nonces s) req of
     None \<Rightarrow> (Panic, s) | Some (b, req') \<Rightarrow> forward b (route e req') (spend req' s))"
proof -
  have get: "verify_get e aq ns h req s = (case verdict_get e aq ns h req of
      None \<Rightarrow> (Panic, s) | Some (b, req') \<Rightarrow> forward b (nonce_layer e req') s)" for aq ns h
    by (auto simp: verify_get_def verdict_get_def forward_def panic_def split: option.split)
  have payload: "verify_payload e ns h req s = (case verdict_payload e ns h req of
      None \<Rightarrow> (Panic, s) | Some (b, req') \<Rightarrow> forward b (nonce_layer e req') s)" for ns h
    by (auto simp: verify_payload_def verdict_payload_def forward_def panic_def Let_def split: option.split)
  show ?thesis
    unfolding layer_forward [symmetric]
    by (auto simp: serve_def verifier_def verdict_def get payload forward_def Let_def split: option.split)
qed

text \<open>Three turns without interruption are one call of the service.\<close>

lemma alone_serves:
  "run_tasks e [0, 0, 0] (s, [Waiting req]) = (snd (serve e req s), [Answered (fst (serve e req s))])"
  by (auto simp: advance_def serve_verdict split: option.split prod.split)

section \<open>Every request gets its answer\<close>

fun turns_left :: "task \<Rightarrow> nat" where
  "turns_left (Waiting _) = 3"
| "turns_left (Checked _ _) = 2"
| "turns_left (Forwarded _ _) = 1"
| "turns_left (Answered _) = 0"

lemma turns_left_0: "turns_left t = 0 \<longleftrightarrow> (\<exists>r. t = Answered r)"
  by (cases t) auto

lemma step_turns: "turns_left (fst (take_step e t s)) \<le> turns_left t - 1"
  by (cases t) (auto split: option.split prod.split)

lemma advance_length [simp]: "length (snd (advance e i c)) = length (snd c)"
  by (auto simp: advance_def split: prod.split)

lemma run_length [simp]: "length (snd (run_tasks e is c)) = length (snd c)"
  by (induction "is" arbitrary: c) simp_all

lemma advance_turns: "j < length (snd c) \<Longrightarrow> turns_left (snd (advance e i c) ! j) \<le> turns_left (snd c ! j) - (if i = j then 1 else 0)"
  using step_turns [of e "snd c ! i" "fst c"]
  by (cases "i < length (snd c)") (auto simp: advance_def nth_list_update list_update_beyond split: prod.split)

lemma run_turns: "j < length (snd c) \<Longrightarrow> turns_left (snd (run_tasks e is c) ! j) \<le> turns_left (snd c ! j) - count_list is j"
proof (induction "is" arbitrary: c)
  case (Cons i "is")
  show ?case using Cons.IH [of "advance e i c"] advance_turns [of j c e i] Cons.prems by auto
qed simp

lemma all_answered:
  assumes "\<And>i. i < length reqs \<Longrightarrow> 3 \<le> count_list schedule i"
  obtains s' rs where "run_tasks e schedule (s, map Waiting reqs) = (s', map Answered rs)" "length rs = length reqs"
proof -
  let ?c = "run_tasks e schedule (s, map Waiting reqs)"
  have "\<exists>r. snd ?c ! i = Answered r" if "i < length reqs" for i
    using run_turns [of i "(s, map Waiting reqs)" e schedule] assms [OF that] that
    by (simp add: turns_left_0 [symmetric])
  then obtain f where f: "snd ?c ! i = Answered (f i)" if "i < length reqs" for i by metis
  have "snd ?c = map Answered (map f [0..<length reqs])"
    using f by (intro nth_equalityI) simp_all
  with that [of "fst ?c" "map f [0..<length reqs]"] show thesis by (metis length_map length_upt minus_nat.diff_0 prod.collapse)
qed

section \<open>Handlers do not look at the ring\<close>

definition blind :: "(server, 'a, 'e) io \<Rightarrow> bool" where
  "blind m \<longleftrightarrow> (\<forall>s ns. m (s\<lparr>srv_nonces := ns\<rparr>) = (fst (m s), (snd (m s))\<lparr>srv_nonces := ns\<rparr>))"

named_theorems blind_intros

lemma blind_basic [blind_intros]: "blind (ret a)" "blind panic" "blind pool_get" "blind (on_pg m)"
  by (auto simp: blind_def ret_def panic_def pool_get_def on_pg_def on_part_def split: list.split bool.split prod.split)

lemma blind_and_then [blind_intros]: "blind m \<Longrightarrow> (\<And>a. blind (f a)) \<Longrightarrow> blind (and_then m f)"
  unfolding blind_def and_then_def by (auto split: prod.split outcome.split)

lemma blind_handle [blind_intros]: "blind m \<Longrightarrow> (\<And>a. blind (f a)) \<Longrightarrow> (\<And>a. blind (g a)) \<Longrightarrow> blind (handle m f g)"
  unfolding blind_def handle_def by (auto split: prod.split outcome.split)

lemma blind_handlers:
  "blind (get_contracts e req)" "blind (create_contract e req)" "blind (update_contract e req)"
  "blind (delete_contract e req)" "blind (delete_contracts e ck)" "blind (get_events e req)" "blind (create_event e req)"
  "blind (update_event e req)" "blind (delete_event e req)" "blind (delete_events e ck)" "blind (get_health e)"
  unfolding get_contracts_def create_contract_def update_contract_def delete_contract_def delete_contracts_def
    get_events_def create_event_def update_event_def delete_event_def delete_events_def get_health_def
  by (auto split: option.split intro!: blind_intros)

definition asks_nonce :: "http_request \<Rightarrow> bool" where
  "asks_nonce req \<longleftrightarrow> rq_method req = GET \<and> rq_path req = ''/request_nonce''"

lemma blind_route: "\<not> asks_nonce req \<Longrightarrow> blind (route e req)"
  by (cases "rq_method req")
    (auto simp: route_def route_delete_def asks_nonce_def Let_def blind_handlers blind_basic split: option.split)

lemma blind_forward: "blind m \<Longrightarrow> blind (forward b m)"
  by (auto simp: forward_def forbid_def intro!: blind_intros)

section \<open>Runs without shared nonces\<close>

lemma verdict_same_target:
  "verdict e ns req = Some (b, req') \<Longrightarrow>
     rq_auth req' = rq_auth req \<and> rq_method req' = rq_method req \<and> rq_path req' = rq_path req"
  by (auto simp: verdict_def verdict_get_def verdict_payload_def split: if_splits option.splits)

lemma verdict_cong:
  assumes "web_ok e" "\<And>h. rq_auth req = Some h \<Longrightarrow> h \<in> set ns \<longleftrightarrow> h \<in> set ns'"
  shows "verdict e ns req = verdict e ns' req"
proof (cases "rq_auth req")
  case (Some header)
  have parts: "verdict_get e aq ns h req = verdict_get e aq ns' h req" "verdict_payload e ns h req = verdict_payload e ns' h req"
    if "header_to_str e header = Some h" for aq h
    using assms(2) [OF Some] header_same [OF assms(1) that] by (auto simp: verdict_get_def verdict_payload_def split: option.split)
  then show ?thesis by (auto simp: verdict_def Some split: option.split)
qed (simp add: verdict_def)

definition separate_nonces :: "http_request list \<Rightarrow> bool" where
  "separate_nonces reqs \<longleftrightarrow> (\<forall>i < length reqs. \<forall>j < length reqs. i \<noteq> j \<longrightarrow>
     rq_auth (reqs ! i) = None \<or> rq_auth (reqs ! i) \<noteq> rq_auth (reqs ! j))"

text \<open>What is left of a ring when the requests with indices in \<open>J\<close> have used up their nonces.\<close>

definition uses :: "web_ext \<Rightarrow> string list \<Rightarrow> http_request \<Rightarrow> string \<Rightarrow> bool" where
  "uses e ns req h \<longleftrightarrow> verdict e ns req \<noteq> None \<and> rq_auth req = Some h"

definition ring_left :: "web_ext \<Rightarrow> http_request list \<Rightarrow> string list \<Rightarrow> nat set \<Rightarrow> string list" where
  "ring_left e reqs ns J = filter (\<lambda>h. \<forall>j\<in>J. \<not> uses e ns (reqs ! j) h) ns"

lemma ring_own:
  assumes "separate_nonces reqs" "i < length reqs" "J \<subseteq> {..<length reqs}" "i \<notin> J" "rq_auth (reqs ! i) = Some h"
  shows "h \<in> set (ring_left e reqs ns J) \<longleftrightarrow> h \<in> set ns"
proof -
  have "rq_auth (reqs ! j) \<noteq> Some h" if "j \<in> J" for j
    using assms that unfolding separate_nonces_def by (metis lessThan_iff option.distinct(1) subsetD)
  then show ?thesis by (auto simp: ring_left_def uses_def)
qed

lemma ring_verdict:
  assumes "web_ok e" "separate_nonces reqs" "i < length reqs" "J \<subseteq> {..<length reqs}" "i \<notin> J"
  shows "verdict e (ring_left e reqs ns J) (reqs ! i) = verdict e ns (reqs ! i)"
  by (rule verdict_cong [OF assms(1)]) (rule ring_own [OF assms(2-5)])

lemma ring_spend:
  assumes "verdict e ns (reqs ! i) = Some (b, req')" "srv_nonces s = ring_left e reqs ns J"
  shows "srv_nonces (spend req' s) = ring_left e reqs ns (insert i J)"
  using assms verdict_same_target [OF assms(1)]
  by (auto simp: spend_def use_nonce_def ring_left_def uses_def intro!: filter_cong split: option.split)

lemma ring_panic: "verdict e ns (reqs ! i) = None \<Longrightarrow> ring_left e reqs ns (insert i J) = ring_left e reqs ns J"
  by (simp add: ring_left_def uses_def)

text \<open>A task in flight against the verdict its request gets on the ring of the start.\<close>

fun follows :: "web_ext \<Rightarrow> string list \<Rightarrow> http_request \<Rightarrow> task \<Rightarrow> bool" where
  "follows e ns req (Waiting r) \<longleftrightarrow> r = req"
| "follows e ns req (Checked r ns') \<longleftrightarrow> r = req \<and> verdict e ns' req = verdict e ns req"
| "follows e ns req (Forwarded b r) \<longleftrightarrow> verdict e ns req = Some (b, r)"
| "follows e ns req (Answered r) \<longleftrightarrow> True"

definition past :: "task list \<Rightarrow> nat \<Rightarrow> nat set" where
  "past ts n = {i. i < length ts \<and> turns_left (ts ! i) \<le> n}"

text \<open>
  The run so far against the run of the answered requests, in the order of their answers: the
  states differ only in the nonces that tasks in flight have used up.
\<close>

definition served_so_far :: "web_ext \<Rightarrow> http_request list \<Rightarrow> server \<Rightarrow> nat list \<Rightarrow> server \<Rightarrow> task list \<Rightarrow> bool" where
  "served_so_far e reqs s0 order s ts \<longleftrightarrow>
     (let t = serve_all e (map ((!) reqs) order) s0; ns = srv_nonces s0 in
      length ts = length reqs \<and> distinct order \<and> set order = past ts 0
      \<and> map ((!) ts) order = map Answered (answers e (map ((!) reqs) order) s0)
      \<and> t = s\<lparr>srv_nonces := srv_nonces t\<rparr>
      \<and> srv_nonces t = ring_left e reqs ns (past ts 0) \<and> srv_nonces s = ring_left e reqs ns (past ts 1)
      \<and> (\<forall>i < length reqs. follows e ns (reqs ! i) (ts ! i)))"

lemma past_upd: "i < length ts \<Longrightarrow> past (ts[i := t]) n = (if turns_left t \<le> n then insert i (past ts n) else past ts n - {i})"
  by (auto simp: past_def nth_list_update)

lemma past_bounds: "past ts n \<subseteq> {..<length ts}"
  by (auto simp: past_def)

lemma finish:
  assumes "served_so_far e reqs s0 order s ts" "i < length ts" "i \<notin> past ts 0"
    and "serve e (reqs ! i) (serve_all e (map ((!) reqs) order) s0) = (r, t')"
    and "t' = s'\<lparr>srv_nonces := srv_nonces t'\<rparr>"
    and "srv_nonces t' = ring_left e reqs (srv_nonces s0) (insert i (past ts 0))"
    and "srv_nonces s' = ring_left e reqs (srv_nonces s0) (insert i (past ts 1))"
  shows "served_so_far e reqs s0 (order @ [i]) s' (ts[i := Answered r])"
proof -
  have i: "i \<notin> set order" "set order \<subseteq> {..<length ts}"
    using assms(1,3) past_bounds [of ts 0] by (auto simp: served_so_far_def Let_def)
  then have "map ((!) (ts[i := Answered r])) order = map ((!) ts) order"
    by (metis (mono_tags, lifting) map_eq_conv nth_list_update_neq)
  then show ?thesis
    using assms i unfolding served_so_far_def Let_def
    by (simp add: past_upd serve_all_append answers_append nth_list_update)
qed

lemma go_on:
  assumes "served_so_far e reqs s0 order s ts" "i < length ts" "i \<notin> past ts 0" "1 \<le> turns_left t"
    and "s' = s\<lparr>srv_nonces := srv_nonces s'\<rparr>" "follows e (srv_nonces s0) (reqs ! i) t"
    and "srv_nonces s' = ring_left e reqs (srv_nonces s0) (past (ts[i := t]) 1)"
  shows "served_so_far e reqs s0 order s' (ts[i := t])"
proof -
  have i: "i \<notin> set order" using assms(1,3) by (auto simp: served_so_far_def Let_def)
  then have "map ((!) (ts[i := t])) order = map ((!) ts) order"
    by (metis (mono_tags, lifting) map_eq_conv nth_list_update_neq)
  moreover have "past (ts[i := t]) 0 = past ts 0" using assms(2-4) by (simp add: past_upd)
  moreover have "s\<lparr>srv_nonces := ns\<rparr> = s'\<lparr>srv_nonces := ns\<rparr>" for ns
    using arg_cong [OF assms(5), of "\<lambda>s. s\<lparr>srv_nonces := ns\<rparr>"] by simp
  ultimately show ?thesis
    using assms unfolding served_so_far_def Let_def by (simp add: nth_list_update) metis
qed

lemma blind_run:
  assumes "blind m" "m s = (r, s')"
  shows "srv_nonces s' = srv_nonces s" "m (s\<lparr>srv_nonces := ns\<rparr>) = (r, s'\<lparr>srv_nonces := ns\<rparr>)"
proof -
  show "m (s\<lparr>srv_nonces := ns\<rparr>) = (r, s'\<lparr>srv_nonces := ns\<rparr>)" using assms by (simp add: blind_def)
  have "s\<lparr>srv_nonces := srv_nonces s\<rparr> = s" by simp
  with assms(1) [unfolded blind_def, rule_format, of "srv_nonces s" s] assms(2)
  have "s' = s'\<lparr>srv_nonces := srv_nonces s\<rparr>" by simp
  then have "srv_nonces s' = srv_nonces (s'\<lparr>srv_nonces := srv_nonces s\<rparr>)" by (rule arg_cong)
  then show "srv_nonces s' = srv_nonces s" by simp
qed

lemma spend_ring: "spend req (s\<lparr>srv_nonces := ns\<rparr>) = s\<lparr>srv_nonces := srv_nonces (spend req (s\<lparr>srv_nonces := ns\<rparr>))\<rparr>"
  "s = s'\<lparr>srv_nonces := ns\<rparr> \<Longrightarrow> srv_nonces s = ns"
  by (auto simp: spend_def use_nonce_def split: option.split)

lemma step_served:
  assumes "web_ok e" "separate_nonces reqs" "list_all (\<lambda>req. \<not> asks_nonce req) reqs"
    and "served_so_far e reqs s0 order s ts"
  shows "\<exists>order'. case advance e i (s, ts) of (s', ts') \<Rightarrow> served_so_far e reqs s0 order' s' ts'"
proof (cases "i < length ts")
  case True
  let ?t = "serve_all e (map ((!) reqs) order) s0" and ?ns = "srv_nonces s0" and ?req = "reqs ! i"
  note inv = assms(4) [unfolded served_so_far_def Let_def]
  have len: "length ts = length reqs" and i: "i < length reqs" using inv True by auto
  have sim: "?t = s\<lparr>srv_nonces := srv_nonces ?t\<rparr>" using inv by blast
  have rings: "srv_nonces ?t = ring_left e reqs ?ns (past ts 0)" "srv_nonces s = ring_left e reqs ?ns (past ts 1)"
    using inv by blast+
  have task: "follows e ?ns ?req (ts ! i)" using inv i by blast
  have serial: "verdict e (srv_nonces ?t) ?req = verdict e ?ns ?req" if "i \<notin> past ts 0"
    unfolding rings using ring_verdict [OF assms(1,2) i _ that] past_bounds [of ts 0] len by simp
  show ?thesis
  proof (cases "ts ! i")
    case (Waiting r)
    have "i \<notin> past ts 1" using Waiting by (simp add: past_def)
    then have "verdict e (srv_nonces s) ?req = verdict e ?ns ?req"
      unfolding rings using ring_verdict [OF assms(1,2) i] past_bounds [of ts 1] len by simp
    moreover have "past (ts[i := Checked r (srv_nonces s)]) n = past ts n" if "n \<le> 1" for n
      using Waiting that True by (auto simp: past_upd) (auto simp: past_def)
    ultimately have "served_so_far e reqs s0 order s (ts[i := Checked r (srv_nonces s)])"
      using task Waiting rings by (intro go_on [OF assms(4) True]) (auto simp: past_def)
    then show ?thesis using True Waiting by (auto simp: advance_def)
  next
    case (Checked r ns)
    then have r: "r = ?req" "verdict e ns ?req = verdict e ?ns ?req" using task by simp_all
    have out: "i \<notin> past ts 0" "i \<notin> past ts 1" using Checked by (simp_all add: past_def)
    show ?thesis
    proof (cases "verdict e ?ns ?req")
      case None
      have run: "serve e ?req ?t = (Panic, ?t)" using serial [OF out(1)] None by (simp add: serve_verdict)
      have "served_so_far e reqs s0 (order @ [i]) s (ts[i := Answered Panic])"
        by (rule finish [OF assms(4) True out(1) run sim]) (use rings ring_panic [OF None] in simp_all)
      then show ?thesis using True Checked r None by (auto simp: advance_def)
    next
      case (Some v)
      then obtain b req' where v: "verdict e ?ns ?req = Some (b, req')" by (cases v) auto
      have "served_so_far e reqs s0 order (spend req' s) (ts[i := Forwarded b req'])"
        using ring_spend [OF v rings(2)] spend_ring(1) [of req' "srv_nonces s" s] v True
        by (intro go_on [OF assms(4) True out(1)]) (simp_all add: past_upd)
      then show ?thesis using True Checked r v by (auto simp: advance_def)
    qed
  next
    case (Forwarded b req')
    then have v: "verdict e ?ns ?req = Some (b, req')" using task by simp
    have out: "i \<notin> past ts 0" "i \<in> past ts 1" using Forwarded True by (simp_all add: past_def)
    obtain r s' where run: "forward b (route e req') s = (r, s')" by (rule prod.exhaust)
    have "\<not> asks_nonce req'"
      using assms(3) i verdict_same_target [OF v] by (auto simp: list_all_length asks_nonce_def)
    then have blind: "blind (forward b (route e req'))" by (intro blind_forward blind_route)
    let ?left = "srv_nonces (spend req' ?t)"
    have "spend req' ?t = s\<lparr>srv_nonces := ?left\<rparr>" using sim spend_ring(1) [of req' "srv_nonces ?t" s] by simp
    then have served: "serve e ?req ?t = (r, s'\<lparr>srv_nonces := ?left\<rparr>)"
      using serial [OF out(1)] v blind_run(2) [OF blind run, of ?left] by (simp add: serve_verdict)
    have "served_so_far e reqs s0 (order @ [i]) s' (ts[i := Answered r])"
      by (rule finish [OF assms(4) True out(1) served])
        (use ring_spend [OF v rings(1)] blind_run(1) [OF blind run] rings(2) out(2) in \<open>simp_all add: insert_absorb\<close>)
    then show ?thesis using True Forwarded run by (auto simp: advance_def)
  next
    case (Answered r)
    then have "advance e i (s, ts) = (s, ts)" using True by (simp add: advance_def) (metis list_update_id)
    with assms(4) show ?thesis by auto
  qed
qed (use assms(4) in \<open>auto simp: advance_def\<close>)

lemma run_served:
  assumes "web_ok e" "separate_nonces reqs" "list_all (\<lambda>req. \<not> asks_nonce req) reqs"
    and "served_so_far e reqs s0 order s ts" "run_tasks e schedule (s, ts) = (s', ts')"
  shows "\<exists>order'. served_so_far e reqs s0 order' s' ts'"
  using assms(4,5)
proof (induction schedule arbitrary: order s ts)
  case (Cons i schedule)
  obtain s1 ts1 where one: "advance e i (s, ts) = (s1, ts1)" by (rule prod.exhaust)
  with step_served [OF assms(1-3) Cons.prems(1), of i] obtain order1 where "served_so_far e reqs s0 order1 s1 ts1" by auto
  with Cons.IH one Cons.prems(2) show ?case by auto
qed auto

text \<open>
  C16. Requests in flight together, each with a nonce of its own and none of them asking for a new
  one, are served as if one after the other: when each has had three turns in any schedule, all
  are answered, and answers and final state are those of the service run on the requests in some
  order, without overlaps.
\<close>

theorem interleaving_serializable:
  assumes "web_ok e" "separate_nonces reqs" "list_all (\<lambda>req. \<not> asks_nonce req) reqs"
    and "\<And>i. i < length reqs \<Longrightarrow> 3 \<le> count_list schedule i"
  shows "\<exists>order rs. distinct order \<and> set order = {..<length reqs} \<and> length rs = length reqs
    \<and> run_tasks e schedule (s, map Waiting reqs) = (serve_all e (map ((!) reqs) order) s, map Answered rs)
    \<and> answers e (map ((!) reqs) order) s = map ((!) rs) order"
proof -
  obtain s' rs where run: "run_tasks e schedule (s, map Waiting reqs) = (s', map Answered rs)" "length rs = length reqs"
    by (rule all_answered [OF assms(4)])
  have start: "past (map Waiting reqs) n = {}" if "n \<le> 1" for n using that by (auto simp: past_def)
  have "served_so_far e reqs s [] s (map Waiting reqs)"
    by (simp add: served_so_far_def ring_left_def start)
  then obtain order where order: "served_so_far e reqs s order s' (map Answered rs)"
    using run_served [OF assms(1-3)] run(1) by blast
  have all: "past (map Answered rs) n = {..<length reqs}" for n using run(2) by (auto simp: past_def)
  have fin: "distinct order" "set order = {..<length reqs}" "map ((!) (map Answered rs)) order = map Answered (answers e (map ((!) reqs) order) s)"
    "serve_all e (map ((!) reqs) order) s = s'"
    using order unfolding served_so_far_def Let_def all by auto
  have "map ((!) (map Answered rs)) order = map Answered (map ((!) rs) order)"
    using fin(2) run(2) by simp
  with fin(3) have "map Answered (answers e (map ((!) reqs) order) s) = map Answered (map ((!) rs) order)" by (rule trans [OF sym])
  then have "answers e (map ((!) reqs) order) s = map ((!) rs) order"
    using inj_map_eq_map [of Answered] by (simp add: inj_def del: map_map)
  with fin run show ?thesis by blast
qed

theorem interleaving_serializable_witness:
  "let reqs = [demo_request ''n1'' (demo_signed (demo_event ''n1'')), demo_request ''n2'' (demo_event ''n2'')]
   in \<exists>order rs. set order = {0, 1} \<and>
     run_tasks ref_web [0, 1, 1, 0, 0, 1] (demo_server [''n1'', ''n2''], map Waiting reqs)
       = (serve_all ref_web (map ((!) reqs) order) (demo_server [''n1'', ''n2'']), map Answered rs)"
proof -
  let ?reqs = "[demo_request ''n1'' (demo_signed (demo_event ''n1'')), demo_request ''n2'' (demo_event ''n2'')]"
  have apart: "separate_nonces ?reqs" "list_all (\<lambda>req. \<not> asks_nonce req) ?reqs"
    by (auto simp: separate_nonces_def nth_Cons' demo_request_def asks_nonce_def)
  have turns: "3 \<le> count_list [0, 1, 1, 0, 0, 1] i" if "i < length ?reqs" for i :: nat
  proof -
    have "i = 0 \<or> i = 1" using that by auto
    then show ?thesis by auto
  qed
  have two: "{..<length ?reqs} = {0, 1}" by auto
  from interleaving_serializable [OF ref_web_ok apart turns, of "demo_server [''n1'', ''n2'']"]
  show ?thesis unfolding Let_def two by blast
qed

section \<open>A nonce shared by requests in flight\<close>

lemma signed_verdict:
  assumes "web_ok e" "payload_request req" "signed_request e ns req"
  obtains m where "signed_message e req = Some m"
    "verdict e ns req = Some (False, req\<lparr>rq_body := Some (jprint e (am_message m))\<rparr>)"
proof -
  obtain header h m where m: "rq_auth req = Some header" "header_to_str e header = Some h" "signed_message e req = Some m"
    "verify_body e m" "h \<in> set ns" "as_str (json_index (am_message m) ''nonce'') = Some h"
    using assms(3) by (auto simp: signed_request_def split: option.splits)
  moreover obtain b where "rq_body req = Some b" "Option.bind (jparse e b) authenticated_message_of_json = Some m"
    using m(3) by (auto simp: signed_message_def bind_eq_Some_conv)
  ultimately have "verdict e ns req = Some (False, req\<lparr>rq_body := Some (jprint e (am_message m))\<rparr>)"
    using assms(2) by (auto simp: verdict_def verdict_payload_def payload_request_def verified_get_def)
  with m(3) that show thesis by blast
qed

lemma advance_at:
  "advance e (length ts) (s, ts @ t # us) = (case take_step e t s of (t', s') \<Rightarrow> (s', ts @ t' # us))"
  by (simp add: advance_def split: prod.split)

lemma all_checked:
  "k \<le> n \<Longrightarrow> run_tasks e [0..<k] (s, replicate n (Waiting req))
     = (s, replicate k (Checked req (srv_nonces s)) @ replicate (n - k) (Waiting req))"
proof (induction k)
  case (Suc k)
  then have "n - k = Suc (n - Suc k)" by simp
  then show ?case
    using Suc advance_at [of e "replicate k (Checked req (srv_nonces s))" s]
    by (simp add: replicate_append_same)
qed simp

definition handled :: "web_ext \<Rightarrow> string \<Rightarrow> http_request \<Rightarrow> server \<Rightarrow> nat \<Rightarrow> server" where
  "handled e h req s k = ((\<lambda>t. snd (route e req (use_nonce h t))) ^^ k) s"

lemma each_handled:
  assumes "verdict e ns req = Some (False, req')" "rq_auth req' = Some h" "k \<le> n"
  shows "run_tasks e (concat (map (\<lambda>i. [i, i]) [0..<k])) (s, replicate n (Checked req ns))
    = (handled e h req' s k,
       map (\<lambda>i. Answered (fst (route e req' (use_nonce h (handled e h req' s i))))) [0..<k] @ replicate (n - k) (Checked req ns))"
  using assms(3)
proof (induction k)
  case (Suc k)
  let ?done = "map (\<lambda>i. Answered (fst (route e req' (use_nonce h (handled e h req' s i))))) [0..<k]"
  have "n - k = Suc (n - Suc k)" using Suc.prems by simp
  moreover have "length ?done = k" by simp
  ultimately show ?case
    using Suc advance_at [of e ?done] assms(1,2)
    by (simp add: spend_def forward_def handled_def split: prod.split)
qed (simp add: handled_def)

text \<open>
  C17. The single use of a nonce does not hold for requests in flight together: any number of
  copies of one signed request, all of which arrive before the first is passed on, are all taken
  for signed and run their handler, one after the other.
\<close>

theorem nonce_replayed_in_flight:
  assumes "web_ok e" "payload_request req" "rq_auth req = Some h" "signed_request e (srv_nonces s) req"
  shows "\<exists>m. signed_message e req = Some m \<and>
    (let req' = req\<lparr>rq_body := Some (jprint e (am_message m))\<rparr> in
     run_tasks e ([0..<n] @ concat (map (\<lambda>i. [i, i]) [0..<n])) (s, replicate n (Waiting req))
     = (handled e h req' s n, map (\<lambda>i. Answered (fst (route e req' (use_nonce h (handled e h req' s i))))) [0..<n]))"
proof -
  obtain m where m: "signed_message e req = Some m"
    "verdict e (srv_nonces s) req = Some (False, req\<lparr>rq_body := Some (jprint e (am_message m))\<rparr>)"
    by (rule signed_verdict [OF assms(1,2,4)])
  then show ?thesis
    using each_handled [OF m(2), of h n n s] assms(3) by (auto simp: all_checked Let_def)
qed

theorem nonce_replayed_in_flight_witness:
  "let req = demo_request ''n1'' (demo_signed (demo_event ''n1'')) in \<exists>m. signed_message ref_web req = Some m \<and>
    (let req' = req\<lparr>rq_body := Some (jprint ref_web (am_message m))\<rparr>; s = demo_server [''n1''] in
     run_tasks ref_web [0, 1, 0, 0, 1, 1] (s, [Waiting req, Waiting req])
     = (handled ref_web ''n1'' req' s 2,
        [Answered (fst (route ref_web req' (use_nonce ''n1'' s))),
         Answered (fst (route ref_web req' (use_nonce ''n1'' (handled ref_web ''n1'' req' s 1))))]))"
  using nonce_replayed_in_flight [of ref_web "demo_request ''n1'' (demo_signed (demo_event ''n1''))" "''n1''" "demo_server [''n1'']" 2]
  by (simp add: ref_web_ok demo_routes demo_is_signed Let_def numeral_2_eq_2 handled_def)

section \<open>A nonce that has left the ring\<close>

context server_relation begin

lemma advance_moves: "R s (fst (advance e i (s, ts)))"
proof -
  have "R s (snd (take_step e t s))" for t
  proof (cases t)
    case (Forwarded b req)
    have "moves R (forward b (route e req))" by (simp add: forward_def route_moves forbid_moves)
    then show ?thesis using Forwarded by (simp add: moves_def split: prod.split) (metis snd_conv)
  qed (use R_refl R_use_nonce in \<open>auto simp: spend_def reflp_def split: option.split\<close>)
  then show ?thesis using R_refl by (auto simp: advance_def reflp_def split: prod.split) (metis snd_conv)
qed

lemma flight_moves: "R (fst c) (fst (run_tasks e schedule c))"
proof (induction schedule arbitrary: c)
  case (Cons i schedule)
  from R_trans advance_moves [of "fst c" e i "snd c"] Cons [of "advance e i c"] show ?case by (simp add: transpD)
qed (use R_refl in \<open>simp add: reflp_def\<close>)

end

text \<open>
  Under every schedule of requests in flight, with whatever faults of the database and the
  pool, the tables keep their unique identities and serials, and the ring holds at most
  NONCE_VEC_LENGTH nonces.
\<close>

theorem flight_invariant:
  assumes "srv_ok s"
  shows "srv_ok (fst (run_tasks e schedule (s, ts)))"
  using srv_inv.flight_moves [of "(s, ts)" e schedule] assms by simp

theorem flight_invariant_witness:
  "srv_ok (fst (run_tasks ref_web [0, 1, 0, 1, 1, 0] (demo_stocked, [Waiting demo_delete, Waiting demo_get])))"
  by (rule flight_invariant) (simp add: srv_ok_def demo_stocked_ok, simp add: demo_stocked_def demo_server_def)

text \<open>The states of a request that arrives without a live nonce.\<close>

definition lost_cause :: "web_ext \<Rightarrow> http_request \<Rightarrow> string \<Rightarrow> task \<Rightarrow> bool" where
  "lost_cause e req h t \<longleftrightarrow> (case t of
      Waiting r \<Rightarrow> r = req
    | Checked r ns \<Rightarrow> r = req \<and> h \<notin> set ns
    | Forwarded b r \<Rightarrow> b \<and> r = req\<lparr>rq_body := Some []\<rparr>
    | Answered r \<Rightarrow> denied req r)"

definition never_again :: "string \<Rightarrow> server \<Rightarrow> bool" where
  "never_again h s \<longleftrightarrow> h \<notin> set (srv_nonces s) \<and> (\<forall>i \<ge> srv_draws s. srv_rng s i \<noteq> h)"

lemma lost_verdict:
  assumes "body_route req" "rq_auth req = Some h" "header_to_str e h = Some h" "h \<notin> set ns"
  shows "verdict e ns req = None \<and> rq_body req = None \<or> verdict e ns req = Some (True, req\<lparr>rq_body := Some []\<rparr>)"
  using assms body_route_payload [OF assms(1)]
  by (auto simp: verdict_def verdict_payload_def payload_request_def verified_get_def split: option.split)

lemma lost_step:
  assumes "web_ok e" "body_route req" "rq_auth req = Some h" "header_to_str e h = Some h" "never_again h s"
    and "lost_cause e req h t" "take_step e t s = (t', s')"
  shows "lost_cause e req h t'" "srv_pg s' = srv_pg s"
proof -
  have empty: "\<exists>res. route e (req\<lparr>rq_body := Some []\<rparr>) s = (Ok res, s)"
    using assms(2) empty_body_route [of "req\<lparr>rq_body := Some []\<rparr>" e s] jparse_empty [OF assms(1)] by simp
  show "lost_cause e req h t'" "srv_pg s' = srv_pg s"
    using assms(5-7) lost_verdict [OF assms(2-4)] empty
    by (cases t; fastforce simp: lost_cause_def never_again_def denied_def spend_def forward_def forbid_run split: option.splits)+
qed


lemma lost_run:
  assumes "web_ok e" "body_route req" "rq_auth req = Some h" "header_to_str e h = Some h"
    and "never_again h (fst c)" "j < length (snd c)" "lost_cause e req h (snd c ! j)"
  shows "never_again h (fst (run_tasks e schedule c)) \<and> lost_cause e req h (snd (run_tasks e schedule c) ! j)"
  using assms(5-7)
proof (induction schedule arbitrary: c)
  case (Cons i schedule)
  obtain s ts t s1 where c: "c = (s, ts)" "take_step e (ts ! i) s = (t, s1)" by (metis prod.exhaust)
  have "never_again h (fst (advance e i c))"
    using fresh_only_absent [OF srv_fresh.advance_moves, of h s e i ts] Cons.prems(1) c(1) by (simp add: never_again_def)
  moreover have "lost_cause e req h (snd (advance e i c) ! j)"
    using lost_step(1) [OF assms(1-4), of s "ts ! j"] Cons.prems c
    by (cases "i = j") (auto simp: advance_def)
  ultimately show ?case using Cons.IH [of "advance e i c"] Cons.prems(2) by simp
qed simp

text \<open>
  C18. Copies are taken only while they are in flight together: a payload request other than a bulk
  delete, with a nonce that is not in the ring when it arrives and is not drawn again, is denied
  under every schedule, and none of its turns changes a table. (A bulk delete takes effect with
  any nonce, C20.)
\<close>

theorem late_nonce_refused:
  assumes "web_ok e" "body_route req" "rq_auth req = Some h" "header_to_str e h = Some h"
    and "h \<notin> set (srv_nonces s)" "\<forall>i \<ge> srv_draws s. srv_rng s i \<noteq> h"
    and "j < length ts" "ts ! j = Waiting req"
  shows "let c = run_tasks e schedule (s, ts) in
    srv_pg (fst (advance e j c)) = srv_pg (fst c) \<and> (\<forall>r. snd c ! j = Answered r \<longrightarrow> denied req r)"
proof -
  obtain s' ts' where run: "run_tasks e schedule (s, ts) = (s', ts')" by (rule prod.exhaust)
  have lost: "never_again h s'" "lost_cause e req h (ts' ! j)"
    using lost_run [OF assms(1-4), of "(s, ts)" j schedule] assms(5-8) run by (simp_all add: never_again_def lost_cause_def)
  obtain t s1 where turn: "take_step e (ts' ! j) s' = (t, s1)" by (rule prod.exhaust)
  have "srv_pg s1 = srv_pg s'" by (rule lost_step(2) [OF assms(1-4) lost turn])
  with lost(2) run turn show ?thesis by (auto simp: advance_def lost_cause_def)
qed

theorem late_nonce_refused_witness:
  "let req = demo_request ''n2'' (demo_signed (demo_event ''n2'')); s = demo_server [''n1''];
       other = demo_request ''n1'' (demo_signed (demo_event ''n1''));
       c = run_tasks ref_web [0, 1, 0, 1, 1, 0] (s, [Waiting other, Waiting req])
   in srv_pg (fst (advance ref_web 1 c)) = srv_pg (fst c) \<and> (\<forall>r. snd c ! 1 = Answered r \<longrightarrow> denied req r)"
  unfolding Let_def
  by (rule late_nonce_refused [unfolded Let_def, OF ref_web_ok demo_routes(1) demo_routes(3)])
    (simp_all add: demo_server_rng)

end
