(* ===== verification/Storage_Start.thy ===== *)
theory Storage_Start
  imports Storage_Tasks
begin

text \<open>
  How the storage service starts (\<open>main\<close> in \<open>storage/api/src/main.rs\<close>): the environment it reads,
  the migrations it applies when it is told to (\<open>storage/common/migrations\<close>, run by \<open>run_migrations\<close>
  of \<open>storage/common\<close> through the writer crate), and the state it then serves with. Metrics, CORS and
  the thread that measures the load are left out.
\<close>

section \<open>Migrations\<close>

text \<open>A database before its tables exist, and the versions that are recorded as applied.\<close>

record database =
  db_contracts :: "Contract table option"
  db_events :: "Event table option"
  db_applied :: "string list"

definition empty_table :: "'r table" where
  "empty_table = \<lparr>rows = [], serial = 1\<rparr>"

text \<open>\<open>CREATE TABLE\<close>, which fails for a table that exists.\<close>

definition create_contract_table :: "database \<Rightarrow> database option" where
  "create_contract_table db =
     (if db_contracts db = None then Some (db\<lparr>db_contracts := Some empty_table\<rparr>) else None)"

definition create_events_table :: "database \<Rightarrow> database option" where
  "create_events_table db =
     (if db_events db = None then Some (db\<lparr>db_events := Some empty_table\<rparr>) else None)"

definition MIGRATIONS :: "(string \<times> (database \<Rightarrow> database option)) list" where
  "MIGRATIONS = [(''20221221121300'', create_contract_table), (''20221229124240'', create_events_table)]"

text \<open>
  Each pending migration runs in a transaction of its own, in the order of the versions; the first
  that fails ends the run, and the \<open>unwrap\<close> turns it into a panic.
\<close>

fun run_pending :: "(string \<times> (database \<Rightarrow> database option)) list \<Rightarrow> (database, unit, db_error) io" where
  "run_pending [] = ret ()"
| "run_pending ((version, up) # ms) = (\<lambda>db.
     if version \<in> set (db_applied db) then run_pending ms db
     else case up db of
        None \<Rightarrow> (Panic, db)
      | Some db' \<Rightarrow> run_pending ms (db'\<lparr>db_applied := db_applied db' @ [version]\<rparr>))"

definition run_migrations :: "(database, unit, db_error) io" where
  "run_migrations = run_pending MIGRATIONS"

definition apply_migrations :: "(database, unit, 'e) io" where
  "apply_migrations = handle run_migrations ret (\<lambda>_. ret ())"

section \<open>Start-up\<close>

fun parse_bool :: "string \<Rightarrow> bool option" where
  "parse_bool t = (if t = ''true'' then Some True else if t = ''false'' then Some False else None)"

text \<open>\<open>str::parse::<u64>\<close>: an optional plus sign, at least one digit, and no overflow.\<close>

fun decimal :: "nat \<Rightarrow> string \<Rightarrow> nat option" where
  "decimal n [] = Some n"
| "decimal n (c # cs) =
     (let d = of_char c in if 48 \<le> d \<and> d \<le> 57 then decimal (10 * n + (d - 48)) cs else None)"

definition parse_u64 :: "string \<Rightarrow> nat option" where
  "parse_u64 t =
     (let digits = (case t of c # cs \<Rightarrow> if c = CHR ''+'' then cs else t | [] \<Rightarrow> []) in
      if digits = [] then None
      else Option.bind (decimal 0 digits) (\<lambda>n. if n < 2 ^ 64 then Some n else None))"

record storage_ext =
  sx_env :: "string \<Rightarrow> string option"
  sx_connects :: "string \<Rightarrow> bool"
  sx_bind :: "(unit, string) outcome"

definition env_or :: "storage_ext \<Rightarrow> string \<Rightarrow> string \<Rightarrow> string" where
  "env_or sx name fallback = (case sx_env sx name of Some v \<Rightarrow> v | None \<Rightarrow> fallback)"

text \<open>\<open>main\<close> up to the point where the service listens, on the database the pool connects to.\<close>

definition storage_main :: "storage_ext \<Rightarrow> (database, unit, string) io" where
  "storage_main sx =
     and_then (of_outcome (expect (sx_env sx ''DATABASE_URL''))) (\<lambda>database_url.
     and_then (of_outcome (if sx_connects sx database_url then Ok () else Panic)) (\<lambda>_.
     and_then (of_outcome (expect (parse_bool (env_or sx ''MIGRATE'' ''false'')))) (\<lambda>migrate.
     and_then (if migrate then apply_migrations else ret ()) (\<lambda>_.
     and_then (of_outcome (expect (parse_u64 (env_or sx ''CPU_LOAD_MEASUREMENT_SECS'' ''1'')))) (\<lambda>_.
     of_outcome (sx_bind sx))))))"

text \<open>The state of the service on a database that has its tables; the ring of nonces is empty.\<close>

definition serving :: "(nat \<Rightarrow> string) \<Rightarrow> bool list \<Rightarrow> db_error option list \<Rightarrow> (nat \<Rightarrow> nat list) \<Rightarrow> database \<Rightarrow> server option" where
  "serving rng pool faults order db =
     (case (db_contracts db, db_events db) of
        (Some cs, Some es) \<Rightarrow> Some \<lparr>srv_pg = \<lparr>contracts = cs, events = es, pg_faults = faults, pg_order = order\<rparr>,
           srv_nonces = [], srv_rng = rng, srv_draws = 0, srv_pool = pool\<rparr>
      | _ \<Rightarrow> None)"

section \<open>What migrating gives\<close>

text \<open>A database on which a prefix of the migrations was run, with whatever rows since.\<close>

definition db_ok :: "database \<Rightarrow> bool" where
  "db_ok db \<longleftrightarrow> (db_contracts db = None \<longleftrightarrow> ''20221221121300'' \<notin> set (db_applied db))
     \<and> (db_events db = None \<longleftrightarrow> ''20221229124240'' \<notin> set (db_applied db))
     \<and> pred_option (table_ok contract_ident c_id) (db_contracts db) \<and> pred_option (table_ok event_ident e_id) (db_events db)"

definition table_or_empty :: "'r table option \<Rightarrow> 'r table" where
  "table_or_empty t = (case t of Some t \<Rightarrow> t | None \<Rightarrow> empty_table)"

lemma empty_table_ok: "table_ok ident idc empty_table"
  by (simp add: table_ok_def empty_table_def)

lemma migrated:
  assumes "db_ok db"
  obtains db' where "(apply_migrations :: (database, unit, string) io) db = (Ok (), db')" "db_ok db'" "db_contracts db' = Some (table_or_empty (db_contracts db))"
    "db_events db' = Some (table_or_empty (db_events db))"
proof -
  have "\<exists>db'. (apply_migrations :: (database, unit, string) io) db = (Ok (), db') \<and> db_ok db' \<and> db_contracts db' = Some (table_or_empty (db_contracts db))
      \<and> db_events db' = Some (table_or_empty (db_events db))"
    using assms
    by (auto simp: apply_migrations_def run_migrations_def MIGRATIONS_def handle_def ret_def create_contract_table_def
        create_events_table_def db_ok_def table_or_empty_def empty_table_ok split: option.splits)
  with that show thesis by blast
qed

lemma migrated_again:
  assumes "db_ok db" "db_contracts db \<noteq> None" "db_events db \<noteq> None"
  shows "(apply_migrations :: (database, unit, string) io) db = (Ok (), db)"
  using assms by (simp add: apply_migrations_def run_migrations_def MIGRATIONS_def handle_def ret_def db_ok_def)

text \<open>
  C19. A start with MIGRATE set leaves a database on which the service works, empty or migrated in
  part or whole: the rows stored before are kept, a further start changes nothing, and under every
  schedule of requests from then on the tables stay well formed and the ring bounded.
\<close>

theorem started_service_ok:
  assumes "db_ok db" "order_ok order" "sx_env sx ''MIGRATE'' = Some ''true''" "storage_main sx db = (Ok (), db')"
  shows "(apply_migrations :: (database, unit, string) io) db' = (Ok (), db') \<and> (\<exists>s. serving rng pool faults order db' = Some s
    \<and> contracts (srv_pg s) = table_or_empty (db_contracts db) \<and> events (srv_pg s) = table_or_empty (db_events db)
    \<and> srv_ok (fst (run_tasks e schedule (s, ts))))"
proof -
  obtain db'' where m: "(apply_migrations :: (database, unit, string) io) db = (Ok (), db'')" "db_ok db''"
    "db_contracts db'' = Some (table_or_empty (db_contracts db))" "db_events db'' = Some (table_or_empty (db_events db))"
    by (rule migrated [OF assms(1)])
  have same: "db' = db''"
    using assms(3,4) m(1) unfolding storage_main_def by (auto simp: Ok_runs env_or_def split: if_splits)
  obtain s where s: "serving rng pool faults order db'' = Some s" "contracts (srv_pg s) = table_or_empty (db_contracts db)"
    "events (srv_pg s) = table_or_empty (db_events db)" "srv_nonces s = []" "pg_order (srv_pg s) = order"
    by (simp add: serving_def m)
  have "srv_ok s" using m(2-4) s assms(2) by (simp add: srv_ok_def pg_ok_def db_ok_def)
  then have "srv_ok (fst (run_tasks e schedule (s, ts)))" using srv_inv.flight_moves [of "(s, ts)" e schedule] by simp
  with s m show ?thesis by (auto simp: same migrated_again)
qed

definition demo_storage :: storage_ext where
  "demo_storage = \<lparr>sx_env = map_of [(''DATABASE_URL'', ''d''), (''MIGRATE'', ''true'')], sx_connects = (\<lambda>_. True), sx_bind = Ok ()\<rparr>"

theorem started_service_ok_witness:
  "\<exists>db' s. storage_main demo_storage \<lparr>db_contracts = None, db_events = None, db_applied = []\<rparr> = (Ok (), db')
     \<and> serving (\<lambda>_. ''n'') [] [] (\<lambda>n. [0..<n]) db' = Some s \<and> srv_ok (fst (run_tasks ref_web [0, 0, 0] (s, [Waiting demo_get])))"
proof -
  let ?db = "\<lparr>db_contracts = None, db_events = None, db_applied = []\<rparr>"
  have "fst (storage_main demo_storage ?db) = Ok ()"
    by (simp add: storage_main_def demo_storage_def env_or_def parse_u64_def apply_migrations_def run_migrations_def MIGRATIONS_def
        create_contract_table_def create_events_table_def handle_def io_defs Let_def)
  then obtain db' where run: "storage_main demo_storage ?db = (Ok (), db')" by (metis prod.collapse)
  have ok: "db_ok ?db" "order_ok (\<lambda>n. [0..<n])" "sx_env demo_storage ''MIGRATE'' = Some ''true''"
    by (simp_all add: db_ok_def order_ok_def demo_storage_def)
  from started_service_ok [OF ok run, of "\<lambda>_. ''n''" "[]" "[]" ref_web "[0, 0, 0]" "[Waiting demo_get]"] run show ?thesis by blast
qed

end
