(* ===== verification/Spec2Isabelle.thy ===== *)
theory Spec2Isabelle
  imports Storage_Auth Storage_Props Dlc_Chain_Props Wallets Payout Attestor_Props Router_Props Wasm_Props Storage_Typed
    Key_Tools Dlc_Apart Dlc_Overlap Dlc_Close Set_Up Storage_Start
begin

text \<open>
  A verification development for the Rust programs of the DLC.Link stack: services and wallets
  that set up discreet log contracts (DLCs) on Bitcoin, store them, and close them when oracles
  attest the outcome of an event.

  \<^bold>\<open>The program.\<close> Contracts and events live in two SQL tables behind the \<^emph>\<open>storage API\<close>
  (\<open>storage/\<close>), an HTTP service with nonces and signed requests. The \<^emph>\<open>clients\<close> crate calls it; on top
  of it \<open>AsyncStorageApiProvider\<close> is the contract store of the \<^emph>\<open>DLC manager\<close>
  (\<open>dlc-link-manager\<close>), and \<open>EventHandler\<close> the event store of the \<^emph>\<open>attestor\<close> (\<open>attestor/\<close>). The manager
  takes DLC messages, accepts offers, and moves contracts along in its periodic check, with the
  help of a chain provider, of a wallet and of one \<^emph>\<open>attestor client\<close> per attestor. Two programs
  contain a manager: the \<^emph>\<open>router wallet\<close> (\<open>wallet/\<close>), an HTTP service that makes offers, and the
  \<^emph>\<open>browser wallet\<close> (\<open>wasm-wallet/\<close>), an object for JavaScript that accepts them.

  \<^bold>\<open>How Rust becomes HOL.\<close> A call is a function from a world to an outcome and the next
  world (\<open>io\<close> in Prelude); an outcome is \<open>Ok\<close>, \<open>Err\<close> or \<open>Panic\<close>, so that every \<open>?\<close>, every \<open>unwrap\<close> and
  every early return is a branch. Structs are records, enums datatypes, \<open>u64\<close>, \<open>u32\<close> and \<open>u8\<close> words;
  where debug and release builds differ on overflow a flag \<open>chk\<close> says which one runs (Rust_Int).
  A string is its UTF-8 bytes. Libraries outside the repository (rust-dlc, bitcoin, secp256k1, serde,
  reqwest, Postgres) are the fields of the records \<open>web_ext\<close>, \<open>dlc_ext\<close>, \<open>contract_updater\<close>,
  \<open>oracle_ext\<close>, \<open>esplora_ext\<close>, \<open>router_ext\<close>, \<open>start_ext\<close>, \<open>js_ext\<close>, \<open>key_ext\<close>; what the code relies on is
  named in \<open>web_ok\<close>, \<open>dlc_ok\<close>, \<open>updater_ok\<close>, \<open>oracle_ok\<close>, \<open>text_ok\<close>, and Ref_Ext, Ref_Dlc and Ref_Oracle are
  instances that satisfy these, used by all witnesses.

  \<^bold>\<open>The theories, from the tables up.\<close>

  \<^item> Prelude, Rust_Int, Rust_Text, Hex, Json, Http: outcomes and worlds with their weakest
    preconditions (\<open>wp\<close>) and frame relations (\<open>moves\<close>), integers, text, JSON documents, requests.
  \<^item> Sql_Table, Storage_Db: tables with a serial column and a unique constraint, the Diesel
    statements (\<open>storage/common\<close>), and the reader and writer crates.
  \<^item> Storage_Api: the service (\<open>storage/api/src\<close>), its handlers, nonce ring and signature middleware;
    Storage_Api_Laws and Storage_Auth: its invariant, what the signatures protect and what not;
    Storage_Tasks: requests in flight together, as a schedule of the turns of each; Storage_Start: its
    start-up and the migrations of the tables.
  \<^item> Storage_Client (\<open>clients/src/lib.rs\<close>), Storage_Link (client and service joined by a network that may
    lose a request or an answer), Storage_Ops (one law per operation over that network).
  \<^item> Dlc_Types, Contract_Codec (\<open>clients/src/utils.rs\<close>), Contract_Store (the trait \<open>AsyncStorage\<close>),
    Storage_Provider (\<open>clients/src/async_storage_provider.rs\<close>), Provider_Laws, Provider_Store:
    the store as a map from ids to contracts, refined by rows; Storage_Props its properties.
  \<^item> Denominator, Dlc_Manager, Dlc_Checks (\<open>dlc-link-manager/src/lib.rs\<close>); Dlc_Steps, Dlc_Messages,
    Dlc_Periodic: what each call of the manager may do to its store; Dlc_Linked: the manager on the
    real store; Dlc_Props, Dlc_Chain_Props its properties.
  \<^item> Storage_Typed, Live_Store, Live_Manager: rows that fit the client's types, and what must succeed
    when no message is lost and nothing fails.
  \<^item> Store_Apart, Dlc_Apart: what a wallet leaves alone in the service it shares with others;
    Dlc_Overlap: periodic checks that overlap; Dlc_Close: a signed contract is confirmed and closed.
  \<^item> Esplora and Wallets: the two chain providers and the two wallets; Payout: the payout curve
    (\<open>wallet/src/utils.rs\<close>).
  \<^item> Event_Store, Attestor, Attestor_Laws (\<open>attestor/src\<close>), Live_Events (the event store on a quiet
    link), Attestor_Client (\<open>attestor-client/src\<close>), Attestor_Props.
  \<^item> Router_Wallet, Router_Props (\<open>wallet/src/main.rs\<close>, \<open>macros.rs\<close>); Key_Tools (\<open>wallet/src/bin\<close>);
    Wasm_Wallet, Wasm_Props (\<open>wasm-wallet/src/lib.rs\<close>).
  \<^item> Set_Up: the router and a browser on one storage service, from the offer to the signed contract.

  \<^bold>\<open>The interfaces.\<close> A component is proved against the promises of the one it calls. \<open>keyed_table\<close>: a
    table seen as a map, interpreted for contracts and events. \<open>server_relation\<close>: a relation that each
    statement and nonce step keeps is kept by every request; \<open>link_relation\<close>: the same across the
    network. \<open>contract_store\<close>: get, create, update, delete and lists over a map from ids to contracts,
    where a failed call may have happened or not; interpreted by the provider over the network.
    \<open>dlc_manager\<close>: a manager over any contract store, interpreted over the real one, so that the
    manager's properties speak of rows of the service. \<open>event_store\<close>: the attestor's storage.
    \<open>live_store\<close>, \<open>live_manager\<close> and \<open>quiet_event_store\<close> add success in calm surroundings.
    \<open>surroundings_relation\<close>: a relation between worlds that the chain, the library and the oracles
    respect, of which every \<open>dlc_manager\<close> is an instance; \<open>manager_relation\<close> extends it to a relation the
    store respects too, interpreted by \<open>apart\<close>.

  \<^bold>\<open>What is shown.\<close>

  \<^item> The stack (C1, C2): on a calm service, and with libraries that agree, an offered contract is
    accepted, signed and countersigned, and ends signed in both stores; whatever one wallet does,
    contracts under other keys stay as they are.
  \<^item> Manager (C3 to C12): every sequence of its calls moves contracts only along their life cycle;
    the periodic check refines the relation \<open>check_step\<close>; messages of strangers and repeated offers change
    nothing; closing needs the threshold of attestations, a refund its lock time, confirmation and
    closing their depth; with enough oracles and depth a signed contract does get closed; a check that
    works on an outdated list turns a contract back; the denominator computed in floating point is the
    integer quotient.
  \<^item> Storage (C13 to C23, C39): what a signature protects and for how long a nonce lives; that
    requests in flight together are serializable while they share no nonce, that copies with one nonce
    all pass, and that later ones do not; the invariant from the start of the service on; a bulk delete
    that takes effect although the verdict is 403 (and is excepted from what signatures protect); the
    store's round trips, its failures and its four listings by state; rows always fit the types of
    the client.
  \<^item> Wallets and payouts (C24 to C27): the payout curve, confirmations at 32 bits with a lagging tip,
    the cache, coin selection.
  \<^item> Attestor (C28 to C32): soundness of everything it stores, what attesting changes and when it
    succeeds, its digits, what a repeated attestation gives away, and that the manager's oracle reads
    back what the attestor stored.
  \<^item> Router and browser (C33 to C38, C40): when retries end, offers down to the stored contract, unanimity
    of the reported chain, acceptance and countersigning down to the stored contracts, the balance,
    ids that do not lead back to their contract, and generated keys.

  \<^bold>\<open>Bounds and loops.\<close> Every loop over a list is structural recursion. The \<open>retry!\<close> loop is a
  \<open>partial_function (option)\<close> whose value \<open>None\<close> means that it never returns; its counter is an \<open>i32\<close>.
  C33 shows that it returns within its limit, and without a limit exactly when an attempt does not
  answer an error or, in a build with overflow checks, at the panic of the counter. Six attempts, fourteen
  digits, six confirmations, ten days and the size of the nonce ring are the code's own constants.
  Nothing depends on fuel. A request in flight needs three turns to be answered, whatever the others do.

  \<^bold>\<open>Not modelled.\<close> Inside the storage service requests interleave at the points where a handler
  waits (Storage_Tasks), and Dlc_Overlap looks at one write of a check that is late; everywhere else
  calls run one after the other, and \<open>join_all\<close> is taken in order. \<open>web_ok\<close> lets serde print and read
  integers of any size, where it holds 64 bits; the ids, counts and times the programs print are
  smaller. Time enters only as the clock the manager reads; sleeping,
  timeouts and keep-alive are left out, as are log lines, metrics, CORS, the sockets and the
  periodic timer of the router. The synchronous methods of the chain providers that consist of
  \<open>unimplemented!\<close>, the structs no code uses, and test modules have no counterpart. The TypeScript
  services (attestor server and observers, blockchain interface) and the integration tests
  are outside the Rust programs; the calls they make or answer are requests here.
\<close>

end
